(* ===== verification/Prelude.thy ===== *)
theory Prelude
  imports Main "HOL-Library.Word" "HOL-Library.Sublist"
begin

text \<open>
  Shared vocabulary of the vegetaui model: the Go machine integers used by the
  singleton's counters (\<open>uint32\<close>, \<open>uint64\<close> and the 64-bit \<open>int\<close> of the
  target platform), the runtime panics the modelled code can raise, the
  collections of simplification rules the component theories add to, and generic
  lemmas on words and lists that several components use.
\<close>

section \<open>Machine integers\<close>

type_synonym u32 = "32 word"
type_synonym u64 = "64 word"
type_synonym go_int = "64 word"

text \<open>Byte slices (\<open>[]byte\<close>) and Go strings are both byte sequences.\<close>

type_synonym bytes = string

section \<open>Runtime panics\<close>

text \<open>
  The Go runtime panics that the modelled code can reach: sending on a closed
  channel, closing a closed channel, and calling a method through a nil pointer
  (\<open>(*vegeta.Attacker).Stop\<close> on a nil attacker). A panic in any goroutine stops
  the whole process; the model records it as the value \<open>Inl e\<close>.
\<close>

datatype go_panic = SendOnClosedChannel | CloseOfClosedChannel | NilPointerDereference
  | MakeSliceCapOutOfRange

section \<open>Lemma collections\<close>

named_theorems model_defs "unfoldings of the model's constants used in closed evaluations"
named_theorems inv_intros "invariant preservation rules of the components"

section \<open>Words\<close>

text \<open>
  \<open>uint32(x)\<close> of a 64-bit Go integer keeps the low 32 bits. Applied to a
  product that has already wrapped at 64 bits, it equals the low 32 bits of the
  exact product.
\<close>

lemma ucast_mult_64_32:
  "(ucast (word_of_int a * word_of_int b :: u64) :: u32) = word_of_int (a * b)"
proof -
  have "ucast (word_of_int (a * b) :: u64) = (word_of_int (a * b) :: u32)"
    by (rule ucast_down_wi) (simp add: is_down)
  then show ?thesis by simp
qed

lemma ucast_nat_64_32:
  "(ucast (word_of_nat n :: u64) :: u32) = word_of_nat n"
proof -
  have "is_down (ucast :: u64 \<Rightarrow> u32)" by (simp add: is_down)
  then show ?thesis using ucast_down_wi [of "int n"] by simp
qed

lemma unat_u32_of_nat:
  "unat (word_of_nat n :: u32) = n mod 2 ^ 32"
  by (simp only: unat_of_nat) simp

lemma unat_u32_small:
  "n < 2 ^ 32 \<Longrightarrow> unat (word_of_nat n :: u32) = n"
  by (simp add: unat_u32_of_nat)

lemma unat_u32_of_int:
  assumes "0 \<le> x"
  shows "unat (word_of_int x :: u32) = nat x mod 2 ^ 32"
proof -
  have "unat (word_of_int x :: u32) = nat (x mod 2 ^ 32)"
    by (simp add: unat_eq_nat_uint uint_word_of_int)
  also have "\<dots> = nat x mod 2 ^ 32" using assms by (simp add: nat_mod_distrib nat_power_eq)
  finally show ?thesis .
qed

lemma u64_of_nat_Suc:
  "(word_of_nat (Suc n) :: u64) = word_of_nat n + 1"
  by simp

section \<open>Lists\<close>

text \<open>Appending to the end of a queue keeps what is already queued as a prefix.\<close>

lemma prefix_append_snoc [simp]:
  "prefix xs (xs @ [x])"
  by (simp add: prefix_def)

end
