(* ===== verification/Status.thy ===== *)
theory Status
  imports Prelude
begin

text \<open>
  The attack status codes and their messages (src/vegetaui/vegeta.go, the
  constants block and \<open>getStatusMsg\<close>) and the wire record \<open>LoadTestStatus\<close>
  that every progress tick and the final summary send to the subscribers.
  The Go field \<open>status int\<close> is kept as an \<open>int\<close>: the code stores and compares
  integer codes, and \<open>getStatusMsg\<close> has a branch for codes outside the four
  constants.
\<close>

section \<open>Status codes and messages\<close>

definition AttackStatusCodeNotStarted :: int where
  "AttackStatusCodeNotStarted = 0"

definition AttackStatusCodeInProgress :: int where
  "AttackStatusCodeInProgress = 1"

definition AttackStatusCodeCompleted :: int where
  "AttackStatusCodeCompleted = 2"

definition AttackStatusCodeCancelled :: int where
  "AttackStatusCodeCancelled = 3"

definition AttackStatusMsgNotStarted :: string where
  "AttackStatusMsgNotStarted = ''NotStarted''"

definition AttackStatusMsgInProgress :: string where
  "AttackStatusMsgInProgress = ''InProgress''"

definition AttackStatusMsgCompleted :: string where
  "AttackStatusMsgCompleted = ''Completed''"

definition AttackStatusMsgCancelled :: string where
  "AttackStatusMsgCancelled = ''Cancelled''"

lemmas status_code_defs [simp, model_defs] =
  AttackStatusCodeNotStarted_def AttackStatusCodeInProgress_def
  AttackStatusCodeCompleted_def AttackStatusCodeCancelled_def

lemmas status_msg_defs [model_defs] =
  AttackStatusMsgNotStarted_def AttackStatusMsgInProgress_def
  AttackStatusMsgCompleted_def AttackStatusMsgCancelled_def

text \<open>\<open>(*vegetaAttack).getStatusMsg\<close>: an if-chain over the four codes, with
  \<open>NotStarted\<close> for any other code.\<close>

definition getStatusMsg :: "int \<Rightarrow> string" where
  "getStatusMsg statusCode =
     (if statusCode = AttackStatusCodeNotStarted then AttackStatusMsgNotStarted
      else if statusCode = AttackStatusCodeInProgress then AttackStatusMsgInProgress
      else if statusCode = AttackStatusCodeCompleted then AttackStatusMsgCompleted
      else if statusCode = AttackStatusCodeCancelled then AttackStatusMsgCancelled
      else AttackStatusMsgNotStarted)"

text \<open>The codes that \<open>setStatus\<close> is ever called with.\<close>

definition valid_status :: "int \<Rightarrow> bool" where
  "valid_status c \<longleftrightarrow> 0 \<le> c \<and> c \<le> 3"

section \<open>The wire record\<close>

text \<open>\<open>LoadTestStatus\<close>, field for field; the JSON names of the Go struct tags
  are the field names here.\<close>

record LoadTestStatus =
  lts_status :: string
  lts_elapsed :: u32
  lts_requestsCompleted :: u32
  lts_totalRequests :: u32
  lts_successRate :: string
  lts_p50 :: u32
  lts_p95 :: u32
  lts_p99 :: u32

text \<open>The Go zero value of the struct (the initial \<open>FinalMetrics\<close>).\<close>

definition zeroLoadTestStatus :: LoadTestStatus where
  "zeroLoadTestStatus =
     \<lparr>lts_status = [], lts_elapsed = 0, lts_requestsCompleted = 0, lts_totalRequests = 0,
      lts_successRate = [], lts_p50 = 0, lts_p95 = 0, lts_p99 = 0\<rparr>"

section \<open>Properties of the status messages\<close>

lemma getStatusMsg_cases:
  "getStatusMsg c \<in> {''NotStarted'', ''InProgress'', ''Completed'', ''Cancelled''}"
  by (simp add: getStatusMsg_def status_msg_defs)

lemma getStatusMsg_InProgress_iff:
  "getStatusMsg c = ''InProgress'' \<longleftrightarrow> c = 1"
  by (simp add: getStatusMsg_def status_msg_defs)

lemma getStatusMsg_Completed_iff:
  "getStatusMsg c = ''Completed'' \<longleftrightarrow> c = 2"
  by (simp add: getStatusMsg_def status_msg_defs)

lemma getStatusMsg_Cancelled_iff:
  "getStatusMsg c = ''Cancelled'' \<longleftrightarrow> c = 3"
  by (simp add: getStatusMsg_def status_msg_defs)

lemma getStatusMsg_invalid:
  "\<not> valid_status c \<Longrightarrow> getStatusMsg c = ''NotStarted''"
  by (auto simp add: getStatusMsg_def status_msg_defs valid_status_def)

lemma getStatusMsg_inj_valid:
  assumes "valid_status a" and "valid_status b" and "getStatusMsg a = getStatusMsg b"
  shows "a = b"
proof -
  from assms(1) have "a = 0 \<or> a = 1 \<or> a = 2 \<or> a = 3" by (auto simp: valid_status_def)
  moreover from assms(2) have "b = 0 \<or> b = 1 \<or> b = 2 \<or> b = 3" by (auto simp: valid_status_def)
  ultimately show ?thesis using assms(3) by (auto simp: getStatusMsg_def status_msg_defs)
qed

end
