(* ===== verification/Attack_State.thy ===== *)
theory Attack_State
  imports Status
begin

text \<open>
  The singleton \<open>vegetaAttack\<close> (src/vegetaui/vegeta.go): its fields, the
  accessors that read and replace them, and the value \<open>instance\<close> it is
  created with. The channels of the struct (\<open>Cancel\<close>, \<open>FinalResults\<close>,
  \<open>Incoming\<close>, \<open>Register\<close>, \<open>Unregister\<close>) are unbuffered: they carry no
  state of their own and appear in the system model (theory \<open>System\<close>) as
  synchronisations between two goroutines. Connections are named by \<open>nat\<close>
  identities (the \<open>*WsConnection\<close> pointers), attackers likewise.
  Both mutexes serialise single field reads and writes; since every access in the
  model is one atomic step, they need no state of their own.
\<close>

type_synonym conn_id = nat
type_synonym attacker_id = nat

section \<open>Results and metrics of the load-generation library\<close>

text \<open>
  \<open>vegeta.Result\<close> and the part of \<open>vegeta.Metrics\<close> the core reads while a
  run is going: \<open>Metrics.Add\<close> counts the results in \<open>Requests\<close> (a
  \<open>uint64\<close>). Success ratio, duration and latency percentiles are computed by
  the library in \<open>Metrics.Close\<close>; the model takes them as the library's
  output (theory \<open>Runner\<close>).
\<close>

record Result =
  res_code :: nat
  res_latency :: nat

record Metrics =
  m_requests :: u64

definition emptyMetrics :: Metrics where
  "emptyMetrics = \<lparr>m_requests = 0\<rparr>"

definition metrics_add :: "Result \<Rightarrow> Metrics \<Rightarrow> Metrics" where
  "metrics_add r m = m\<lparr>m_requests := m_requests m + 1\<rparr>"

section \<open>The singleton\<close>

record vegetaAttack =
  status :: int
  elapsed :: u32
  CompletedRequests :: u32
  TotalRequests :: u32
  Metrics :: "Metrics option"
  CurrentAttacker :: "attacker_id option"
  Connections :: "conn_id set"
  CurrentResults :: "Result list"
  FinalMetrics :: LoadTestStatus

text \<open>The package-level \<open>instance\<close> as it is created at start-up.\<close>

definition instance0 :: vegetaAttack where
  "instance0 =
     \<lparr>status = 0, elapsed = 0, CompletedRequests = 0, TotalRequests = 0,
      Metrics = None, CurrentAttacker = None, Connections = {},
      CurrentResults = [], FinalMetrics = zeroLoadTestStatus\<rparr>"

section \<open>Accessors\<close>

text \<open>\<open>getStatus\<close> and \<open>setStatus\<close>: the only readers and writers of \<open>status\<close>.\<close>

definition getStatus :: "vegetaAttack \<Rightarrow> int" where
  "getStatus v = status v"

definition setStatus :: "int \<Rightarrow> vegetaAttack \<Rightarrow> vegetaAttack" where
  "setStatus newStatus v = v\<lparr>status := newStatus\<rparr>"

definition getCurrentAttacker :: "vegetaAttack \<Rightarrow> attacker_id option" where
  "getCurrentAttacker v = CurrentAttacker v"

definition setCurrentAttacker :: "attacker_id \<Rightarrow> vegetaAttack \<Rightarrow> vegetaAttack" where
  "setCurrentAttacker a v = v\<lparr>CurrentAttacker := Some a\<rparr>"

definition getLatestVegetaMetrics :: "vegetaAttack \<Rightarrow> LoadTestStatus" where
  "getLatestVegetaMetrics v = FinalMetrics v"

definition setLatestVegetaMetrics :: "LoadTestStatus \<Rightarrow> vegetaAttack \<Rightarrow> vegetaAttack" where
  "setLatestVegetaMetrics m v = v\<lparr>FinalMetrics := m\<rparr>"

text \<open>
  \<open>getCurrentResults\<close> copies the slice with \<open>append(nil, xs...)\<close>, which is
  \<open>nil\<close> when \<open>xs\<close> is empty; \<open>setCurrentResults\<close> replaces the slice the same
  way. A Go slice is modelled by its elements, \<open>nil\<close> by \<open>[]\<close>: the callers'
  test \<open>results != nil\<close> is \<open>results \<noteq> []\<close>.
\<close>

definition getCurrentResults :: "vegetaAttack \<Rightarrow> Result list" where
  "getCurrentResults v = [] @ CurrentResults v"

definition setCurrentResults :: "Result list \<Rightarrow> vegetaAttack \<Rightarrow> vegetaAttack" where
  "setCurrentResults rs v = v\<lparr>CurrentResults := [] @ rs\<rparr>"

lemmas accessor_defs [model_defs] =
  getStatus_def setStatus_def getCurrentAttacker_def setCurrentAttacker_def
  getLatestVegetaMetrics_def setLatestVegetaMetrics_def
  getCurrentResults_def setCurrentResults_def

section \<open>The home page's view of the previous run\<close>

text \<open>
  \<open>HomeHandler\<close> (src/vegetaui/routes.go) renders the page with
  \<open>HasResultsAlready = (previousResults != nil)\<close> and the stored summary only
  in that case. The template rendering itself is not modelled.
\<close>

definition HomeHandler_state :: "vegetaAttack \<Rightarrow> bool \<times> LoadTestStatus" where
  "HomeHandler_state v =
     (let previousResults = getCurrentResults v;
          hasResultsAlready = (previousResults \<noteq> [])
      in (hasResultsAlready,
          if previousResults \<noteq> [] then getLatestVegetaMetrics v else zeroLoadTestStatus))"

end
