(* ===== verification/Wire.thy ===== *)
theory Wire
  imports Status
begin

text \<open>
  What travels on the websocket: the JSON text of a \<open>LoadTestStatus\<close> produced
  by \<open>json.MarshalIndent(&newStatus, "", "  ")\<close> in
  \<open>publishStatusToOpenSockets\<close> (src/vegetaui/vegeta.go), the fixed two-decimal
  success rate of \<open>strconv.FormatFloat(x, 'f', 2, 64)\<close>, and the two inbound
  control strings of src/vegetaui/websocket.go.

  The encoder follows \<open>encoding/json\<close> for this struct: fields in declaration
  order under their tag names, one per line indented by two spaces, \<open>": "\<close>
  between key and value, unsigned integers in decimal, and strings quoted with
  \<open>\"\<close>, \<open>\\\<close>, \<open>\n\<close>, \<open>\r\<close>, \<open>\t\<close> escaped, other control bytes and
  the HTML-sensitive \<open><\<close>, \<open>>\<close>, \<open>&\<close> written as \<open>\u00xx\<close>. Bytes from
  128 up are copied (valid UTF-8 is assumed; the encoder's replacement of invalid
  sequences and of U+2028/U+2029 is not modelled).
\<close>

section \<open>Control messages\<close>

definition MessageGetTestStatus :: bytes where
  "MessageGetTestStatus = ''getStatus''"

definition MessageCancelTest :: bytes where
  "MessageCancelTest = ''cancelTest''"

section \<open>Decimal numbers\<close>

definition digit_chars :: string where
  "digit_chars = ''0123456789''"

fun dec_digits :: "nat \<Rightarrow> string" where
  "dec_digits n =
     (if n < 10 then [digit_chars ! n]
      else dec_digits (n div 10) @ [digit_chars ! (n mod 10)])"

declare dec_digits.simps [simp del]

text \<open>An unsigned integer field (\<open>strconv.AppendUint(b, v, 10)\<close>).\<close>

definition format_uint :: "u32 \<Rightarrow> string" where
  "format_uint w = dec_digits (unat w)"

text \<open>
  \<open>strconv.FormatFloat(x, 'f', 2, 64)\<close> for \<open>x \<ge> 0\<close>, given \<open>x\<close> rounded to
  hundredths as the natural number \<open>c = 100 x\<close>: integer part, a point, and
  exactly two decimals. (The rounding of the binary float to hundredths is the
  library's and is not modelled.)
\<close>

definition format_fixed2 :: "nat \<Rightarrow> string" where
  "format_fixed2 c =
     dec_digits (c div 100) @ ''.'' @ [digit_chars ! (c mod 100 div 10), digit_chars ! (c mod 10)]"

section \<open>JSON strings\<close>

definition hex_chars :: string where
  "hex_chars = ''0123456789abcdef''"

definition backslash :: char where
  "backslash = CHR 0x5C"

definition json_escape_char :: "char \<Rightarrow> string" where
  "json_escape_char c =
     (if c = CHR ''\"'' then [backslash, CHR ''\"'']
      else if c = backslash then [backslash, backslash]
      else if c = CHR 0x0A then [backslash, CHR ''n'']
      else if c = CHR 0x0D then [backslash, CHR ''r'']
      else if c = CHR 0x09 then [backslash, CHR ''t'']
      else if of_char c < (32::nat) \<or> c = CHR ''<'' \<or> c = CHR ''>'' \<or> c = CHR ''&''
      then [backslash, CHR ''u'', CHR ''0'', CHR ''0'',
            hex_chars ! (of_char c div 16), hex_chars ! (of_char c mod 16)]
      else [c])"

definition json_string :: "string \<Rightarrow> string" where
  "json_string s = CHR ''\"'' # concat (map json_escape_char s) @ [CHR ''\"'']"

section \<open>The indented object\<close>

definition newline :: char where
  "newline = CHR 0x0A"

text \<open>One member line: two spaces of indent, the quoted key, \<open>": "\<close>, the value.\<close>

definition json_member :: "string \<Rightarrow> string \<Rightarrow> string" where
  "json_member k v = ''  '' @ json_string k @ '': '' @ v"

definition json_members :: "LoadTestStatus \<Rightarrow> string list" where
  "json_members st =
     [json_member ''status'' (json_string (lts_status st)),
      json_member ''elapsed'' (format_uint (lts_elapsed st)),
      json_member ''requestsCompleted'' (format_uint (lts_requestsCompleted st)),
      json_member ''totalRequests'' (format_uint (lts_totalRequests st)),
      json_member ''successRate'' (json_string (lts_successRate st)),
      json_member ''p50'' (format_uint (lts_p50 st)),
      json_member ''p95'' (format_uint (lts_p95 st)),
      json_member ''p99'' (format_uint (lts_p99 st))]"

fun join_members :: "string list \<Rightarrow> string" where
  "join_members [] = []"
| "join_members [x] = x"
| "join_members (x # y # zs) = x @ [CHR '','', newline] @ join_members (y # zs)"

text \<open>\<open>json.MarshalIndent(&newStatus, "", "  ")\<close>; marshalling this struct
  cannot fail, so the error branch of \<open>publishStatusToOpenSockets\<close> is dead.\<close>

definition json_encode :: "LoadTestStatus \<Rightarrow> bytes" where
  "json_encode st = CHR ''{'' # newline # join_members (json_members st) @ [newline, CHR ''}'']"

end
