(* ===== verification/Runner.thy ===== *)
theory Runner
  imports Attack_State Wire
begin

text \<open>
  The Attack Runner: \<open>startAttack\<close> (src/vegetaui/vegeta.go), the goroutine that
  \<open>StartAttackHandler\<close> spawns for every accepted request. Its body is cut at
  every access to the shared singleton, because other goroutines (another
  runner, the coordinator) may run between two such accesses; the program
  counter \<open>r_pc\<close> says which access comes next. Between the accesses, the runner
  only touches its own locals (\<open>results\<close>, \<open>status\<close>, \<open>finalLoadTestStatus\<close>).

  The load-generation library enters as inputs: the attacker it creates, each
  result its stream yields, the end of the stream, and the figures that
  \<open>Metrics.Close\<close> computes (duration, success ratio rounded to hundredths,
  latency percentiles in nanoseconds). The send on \<open>FinalResults\<close> is a
  synchronisation with the coordinator and appears in theory \<open>System\<close>.
\<close>

section \<open>Runner state\<close>

datatype runner_pc =
    RCheck        \<comment> \<open>\<open>currentStatus := instance.getStatus()\<close>\<close>
  | RSetStatus    \<comment> \<open>\<open>instance.setStatus(AttackStatusCodeInProgress)\<close>\<close>
  | RReset        \<comment> \<open>the three \<open>atomic.StoreUint32\<close>\<close>
  | RAttack       \<comment> \<open>new \<open>Metrics\<close>, \<open>setCurrentAttacker\<close>, \<open>attacker.Attack\<close>\<close>
  | RConsume      \<comment> \<open>\<open>for res := range attackChannel\<close>\<close>
  | RFinalRead    \<comment> \<open>\<open>status := instance.getStatus()\<close>\<close>
  | RFinalSet     \<comment> \<open>\<open>if status == InProgress { setStatus(Completed) }\<close>\<close>
  | RFinalize     \<comment> \<open>\<open>Metrics.Close\<close>, \<open>setCurrentResults\<close>, summary, \<open>setLatestVegetaMetrics\<close>\<close>
  | RSend         \<comment> \<open>\<open>instance.FinalResults <- finalLoadTestStatus\<close>\<close>
  | RDefer        \<comment> \<open>the deferred \<open>instance.setStatus(AttackStatusCodeCompleted)\<close>\<close>
  | RDone

record runner =
  r_pc :: runner_pc
  r_rps :: int
  r_duration :: int
  r_attacker :: "attacker_id option"
  r_results :: "Result list"
  r_status :: int
  r_final :: LoadTestStatus

text \<open>What \<open>Metrics.Close\<close> leaves in the metrics for the summary.\<close>

record metrics_summary =
  ms_duration_ns :: nat
  ms_success_centi :: nat
  ms_p50_ns :: nat
  ms_p95_ns :: nat
  ms_p99_ns :: nat

text \<open>A freshly spawned \<open>go startAttack(...)\<close>.\<close>

definition new_runner :: "int \<Rightarrow> int \<Rightarrow> runner" where
  "new_runner rps dur =
     \<lparr>r_pc = RCheck, r_rps = rps, r_duration = dur, r_attacker = None, r_results = [],
      r_status = 0, r_final = zeroLoadTestStatus\<rparr>"

section \<open>The phases of startAttack\<close>

text \<open>Admission: return at once if a run is in progress, with no effect (the
  \<open>defer\<close> is not yet registered).\<close>

definition attack_check :: "runner \<Rightarrow> vegetaAttack \<Rightarrow> runner" where
  "attack_check r v =
     (let currentStatus = getStatus v
      in if currentStatus = AttackStatusCodeInProgress then r\<lparr>r_pc := RDone\<rparr>
         else r\<lparr>r_pc := RSetStatus\<rparr>)"

definition attack_set_in_progress :: "runner \<Rightarrow> vegetaAttack \<Rightarrow> runner \<times> vegetaAttack" where
  "attack_set_in_progress r v = (r\<lparr>r_pc := RReset\<rparr>, setStatus AttackStatusCodeInProgress v)"

text \<open>\<open>uint32(requestsPerSecond*duration)\<close>: a 64-bit \<open>int\<close> product, wrapped,
  then truncated to 32 bits.\<close>

definition totalRequestsOf :: "int \<Rightarrow> int \<Rightarrow> u32" where
  "totalRequestsOf rps dur = ucast (word_of_int rps * word_of_int dur :: go_int)"

definition attack_reset :: "runner \<Rightarrow> vegetaAttack \<Rightarrow> runner \<times> vegetaAttack" where
  "attack_reset r v =
     (r\<lparr>r_pc := RAttack\<rparr>,
      v\<lparr>elapsed := 0, CompletedRequests := 0,
        TotalRequests := totalRequestsOf (r_rps r) (r_duration r)\<rparr>)"

text \<open>The capacity argument of \<open>make(vegeta.Results, 0, requestsPerSecond*duration)\<close>:
  the product of two Go \<open>int\<close>s, wrapped to 64 bits and read as signed.\<close>

definition results_cap :: "int \<Rightarrow> int \<Rightarrow> int" where
  "results_cap rps dur = sint (word_of_int rps * word_of_int dur :: go_int)"

text \<open>\<open>instance.Metrics = &vegeta.Metrics{}\<close>, \<open>setCurrentAttacker(attacker)\<close>,
  the start of the attack with the library's attacker \<open>a\<close>, and the local
  \<open>results\<close>, made empty with the capacity \<open>requestsPerSecond*duration\<close>:
  \<open>make\<close> panics on a negative capacity. (A capacity too large to allocate also
  panics; that bound depends on the size of \<open>vegeta.Result\<close> and the heap and
  is not modelled.)\<close>

definition attack_launch ::
  "attacker_id \<Rightarrow> runner \<Rightarrow> vegetaAttack \<Rightarrow> go_panic + runner \<times> vegetaAttack" where
  "attack_launch a r v =
     (let v' = setCurrentAttacker a (v\<lparr>Metrics := Some emptyMetrics\<rparr>)
      in if results_cap (r_rps r) (r_duration r) < 0 then Inl MakeSliceCapOutOfRange
         else Inr (r\<lparr>r_pc := RConsume, r_attacker := Some a, r_results := []\<rparr>, v'))"

text \<open>One iteration of the result loop: \<open>instance.Metrics.Add(res)\<close> (a nil
  \<open>Metrics\<close> would panic), append to \<open>results\<close>, publish the count.\<close>

definition attack_result ::
  "Result \<Rightarrow> runner \<Rightarrow> vegetaAttack \<Rightarrow> go_panic + runner \<times> vegetaAttack" where
  "attack_result res r v =
     (case Metrics v of
        None \<Rightarrow> Inl NilPointerDereference
      | Some m \<Rightarrow>
          (let m' = metrics_add res m
           in Inr (r\<lparr>r_results := r_results r @ [res]\<rparr>,
                   v\<lparr>Metrics := Some m', CompletedRequests := ucast (m_requests m')\<rparr>)))"

definition attack_stream_end :: "runner \<Rightarrow> runner" where
  "attack_stream_end r = r\<lparr>r_pc := RFinalRead\<rparr>"

definition attack_final_read :: "runner \<Rightarrow> vegetaAttack \<Rightarrow> runner" where
  "attack_final_read r v = r\<lparr>r_status := getStatus v, r_pc := RFinalSet\<rparr>"

definition attack_final_set :: "runner \<Rightarrow> vegetaAttack \<Rightarrow> runner \<times> vegetaAttack" where
  "attack_final_set r v =
     (r\<lparr>r_pc := RFinalize\<rparr>,
      if r_status r = AttackStatusCodeInProgress then setStatus AttackStatusCodeCompleted v else v)"

text \<open>The summary of the run (\<open>finalLoadTestStatus\<close>).\<close>

definition final_status ::
  "metrics_summary \<Rightarrow> runner \<Rightarrow> Metrics \<Rightarrow> vegetaAttack \<Rightarrow> LoadTestStatus" where
  "final_status ms r m v =
     \<lparr>lts_status = getStatusMsg (getStatus v),
      lts_elapsed = word_of_nat ((ms_duration_ns ms div 1000000000) * 10),
      lts_requestsCompleted = ucast (m_requests m),
      lts_totalRequests = totalRequestsOf (r_rps r) (r_duration r),
      lts_successRate = format_fixed2 (ms_success_centi ms),
      lts_p50 = word_of_nat (ms_p50_ns ms div 1000000),
      lts_p95 = word_of_nat (ms_p95_ns ms div 1000000),
      lts_p99 = word_of_nat (ms_p99_ns ms div 1000000)\<rparr>"

definition attack_finalize ::
  "metrics_summary \<Rightarrow> runner \<Rightarrow> vegetaAttack \<Rightarrow> go_panic + runner \<times> vegetaAttack" where
  "attack_finalize ms r v =
     (case Metrics v of
        None \<Rightarrow> Inl NilPointerDereference
      | Some m \<Rightarrow>
          (let v1 = setCurrentResults (r_results r) v;
               fin = final_status ms r m v1
           in Inr (r\<lparr>r_final := fin, r_pc := RSend\<rparr>, setLatestVegetaMetrics fin v1)))"

definition attack_sent :: "runner \<Rightarrow> runner" where
  "attack_sent r = r\<lparr>r_pc := RDefer\<rparr>"

definition attack_defer :: "runner \<Rightarrow> vegetaAttack \<Rightarrow> runner \<times> vegetaAttack" where
  "attack_defer r v = (r\<lparr>r_pc := RDone\<rparr>, setStatus AttackStatusCodeCompleted v)"

section \<open>One step of a runner\<close>

text \<open>What the runner's environment supplies for a step: nothing, the attacker
  the library creates, a result, the end of the stream, or the closed metrics.\<close>

datatype runner_input =
    Proceed
  | Launch attacker_id
  | Deliver Result
  | StreamEnd
  | CloseMetrics metrics_summary

text \<open>The step the runner takes at its program counter; \<open>None\<close> when the input
  does not fit (the step is not enabled). The send at \<open>RSend\<close> is not a step
  of the runner alone.\<close>

fun runner_step ::
  "runner_input \<Rightarrow> runner \<Rightarrow> vegetaAttack \<Rightarrow> (go_panic + runner \<times> vegetaAttack) option" where
  "runner_step Proceed r v =
     (case r_pc r of
        RCheck \<Rightarrow> Some (Inr (attack_check r v, v))
      | RSetStatus \<Rightarrow> Some (Inr (attack_set_in_progress r v))
      | RReset \<Rightarrow> Some (Inr (attack_reset r v))
      | RFinalRead \<Rightarrow> Some (Inr (attack_final_read r v, v))
      | RFinalSet \<Rightarrow> Some (Inr (attack_final_set r v))
      | RDefer \<Rightarrow> Some (Inr (attack_defer r v))
      | _ \<Rightarrow> None)"
| "runner_step (Launch a) r v =
     (if r_pc r = RAttack then Some (attack_launch a r v) else None)"
| "runner_step (Deliver res) r v =
     (if r_pc r = RConsume then Some (attack_result res r v) else None)"
| "runner_step StreamEnd r v =
     (if r_pc r = RConsume then Some (Inr (attack_stream_end r, v)) else None)"
| "runner_step (CloseMetrics ms) r v =
     (if r_pc r = RFinalize then Some (attack_finalize ms r v) else None)"

section \<open>Running the phases in sequence\<close>

text \<open>The runner alone, fed a list of inputs; \<open>None\<close> when an input does not fit
  the program counter.\<close>

fun run_inputs ::
  "runner_input list \<Rightarrow> runner \<Rightarrow> vegetaAttack \<Rightarrow> (go_panic + runner \<times> vegetaAttack) option" where
  "run_inputs [] r v = Some (Inr (r, v))"
| "run_inputs (i # is) r v =
     (case runner_step i r v of
        None \<Rightarrow> None
      | Some (Inl e) \<Rightarrow> Some (Inl e)
      | Some (Inr (r', v')) \<Rightarrow> run_inputs is r' v')"

text \<open>The inputs of a whole run up to the send on \<open>FinalResults\<close>.\<close>

definition startAttack_inputs :: "attacker_id \<Rightarrow> Result list \<Rightarrow> metrics_summary \<Rightarrow> runner_input list" where
  "startAttack_inputs a rs ms =
     [Proceed, Proceed, Proceed, Launch a] @ map Deliver rs @ [StreamEnd, Proceed, Proceed, CloseMetrics ms]"

text \<open>Closed metrics of a run that produced nothing.\<close>

definition example_close :: metrics_summary where
  "example_close =
     \<lparr>ms_duration_ns = 0, ms_success_centi = 0, ms_p50_ns = 0, ms_p95_ns = 0, ms_p99_ns = 0\<rparr>"


text \<open>The position of a program counter in \<open>startAttack\<close>, counted from the end.\<close>

fun pc_rank :: "runner_pc \<Rightarrow> nat" where
  "pc_rank RCheck = 10" | "pc_rank RSetStatus = 9" | "pc_rank RReset = 8" | "pc_rank RAttack = 7"
| "pc_rank RConsume = 6" | "pc_rank RFinalRead = 5" | "pc_rank RFinalSet = 4" | "pc_rank RFinalize = 3"
| "pc_rank RSend = 2" | "pc_rank RDefer = 1" | "pc_rank RDone = 0"

section \<open>Expected total\<close>

lemma totalRequestsOf_eq:
  "totalRequestsOf rps dur = word_of_int (rps * dur)"
  by (simp add: totalRequestsOf_def ucast_mult_64_32)



section \<open>Admission\<close>

text \<open>A runner that finds a run in progress returns at once: it changes
  nothing of the singleton and never registers its deferred status write.\<close>

theorem attack_check_rejects:
  assumes "getStatus v = AttackStatusCodeInProgress"
  shows "runner_step Proceed (new_runner rps dur) v = Some (Inr ((new_runner rps dur)\<lparr>r_pc := RDone\<rparr>, v))"
  using assms by (simp add: new_runner_def attack_check_def)

theorem attack_check_rejects_witness:
  "getStatus (instance0\<lparr>status := 1\<rparr>) = AttackStatusCodeInProgress \<and>
   runner_step Proceed (new_runner 10 5) (instance0\<lparr>status := 1\<rparr>) =
     Some (Inr ((new_runner 10 5)\<lparr>r_pc := RDone\<rparr>, instance0\<lparr>status := 1\<rparr>))"
proof -
  have h: "getStatus (instance0\<lparr>status := 1\<rparr>) = AttackStatusCodeInProgress"
    by (simp add: getStatus_def)
  show ?thesis using attack_check_rejects [OF h] h by simp
qed

section \<open>An uncontended run\<close>

lemma run_inputs_append:
  "run_inputs (xs @ ys) r v =
     (case run_inputs xs r v of
        None \<Rightarrow> None
      | Some (Inl e) \<Rightarrow> Some (Inl e)
      | Some (Inr (r', v')) \<Rightarrow> run_inputs ys r' v')"
  by (induction xs arbitrary: r v) (auto split: option.splits sum.splits)

lemma run_consume:
  assumes "r_pc r = RConsume" and "Metrics v = Some m"
    and "CompletedRequests v = ucast (m_requests m)"
  shows "run_inputs (map Deliver rs) r v =
    Some (Inr (r\<lparr>r_results := r_results r @ rs\<rparr>,
               v\<lparr>Metrics := Some (m\<lparr>m_requests := m_requests m + word_of_nat (length rs)\<rparr>),
                 CompletedRequests := ucast (m_requests m + word_of_nat (length rs))\<rparr>))"
  using assms
proof (induction rs arbitrary: r v m)
  case Nil
  then have "v\<lparr>Metrics := Some m, CompletedRequests := ucast (m_requests m)\<rparr> = v"
    by (cases v) simp
  then show ?case by simp
next
  case (Cons x rs)
  let ?m1 = "m\<lparr>m_requests := m_requests m + 1\<rparr>"
  let ?r1 = "r\<lparr>r_results := r_results r @ [x]\<rparr>"
  let ?v1 = "v\<lparr>Metrics := Some ?m1, CompletedRequests := ucast (m_requests ?m1)\<rparr>"
  have step: "runner_step (Deliver x) r v = Some (Inr (?r1, ?v1))"
    using Cons.prems by (simp add: attack_result_def metrics_add_def)
  have IH: "run_inputs (map Deliver rs) ?r1 ?v1 =
    Some (Inr (?r1\<lparr>r_results := r_results ?r1 @ rs\<rparr>,
               ?v1\<lparr>Metrics := Some (?m1\<lparr>m_requests := m_requests ?m1 + word_of_nat (length rs)\<rparr>),
                  CompletedRequests := ucast (m_requests ?m1 + word_of_nat (length rs))\<rparr>))"
    using Cons.prems by (intro Cons.IH) simp_all
  show ?case using step IH by (simp add: ac_simps)
qed


lemma run_prefix:
  assumes "status v \<noteq> AttackStatusCodeInProgress" and "0 \<le> results_cap rps dur"
  shows "run_inputs [Proceed, Proceed, Proceed, Launch a] (new_runner rps dur) v =
    Some (Inr ((new_runner rps dur)\<lparr>r_pc := RConsume, r_attacker := Some a, r_results := []\<rparr>,
               v\<lparr>status := AttackStatusCodeInProgress, elapsed := 0, CompletedRequests := 0,
                 TotalRequests := totalRequestsOf rps dur, Metrics := Some emptyMetrics,
                 CurrentAttacker := Some a\<rparr>))"
  using assms
  by (simp add: new_runner_def attack_check_def attack_set_in_progress_def attack_reset_def
                attack_launch_def accessor_defs Let_def)

text \<open>C7: an uncontended run of \<open>startAttack\<close> from any status other than
  InProgress, fed the results \<open>rs\<close>, ends with status Completed, the expected
  total fixed at \<open>uint32(rps*duration)\<close>, the completed count equal to the
  number of results, the result buffer replaced by \<open>rs\<close>, and the same summary
  stored and about to be sent. The capacity \<open>rps*duration\<close> of the result
  slice must not be negative.\<close>

theorem startAttack_uncontended:
  assumes "status v \<noteq> AttackStatusCodeInProgress" and "0 \<le> results_cap rps dur"
  shows "\<exists>r' v'. run_inputs (startAttack_inputs a rs ms) (new_runner rps dur) v = Some (Inr (r', v')) \<and>
     r_pc r' = RSend \<and> status v' = AttackStatusCodeCompleted \<and>
     TotalRequests v' = totalRequestsOf rps dur \<and>
     CompletedRequests v' = word_of_nat (length rs) \<and>
     CurrentResults v' = rs \<and> FinalMetrics v' = r_final r' \<and>
     lts_status (r_final r') = ''Completed'' \<and>
     lts_requestsCompleted (r_final r') = word_of_nat (length rs) \<and>
     lts_totalRequests (r_final r') = totalRequestsOf rps dur"
proof -
  let ?r0 = "(new_runner rps dur)\<lparr>r_pc := RConsume, r_attacker := Some a, r_results := []\<rparr>"
  let ?v0 = "v\<lparr>status := AttackStatusCodeInProgress, elapsed := 0, CompletedRequests := 0,
                 TotalRequests := totalRequestsOf rps dur, Metrics := Some emptyMetrics,
                 CurrentAttacker := Some a\<rparr>"
  have c: "run_inputs (map Deliver rs) ?r0 ?v0 =
    Some (Inr (?r0\<lparr>r_results := rs\<rparr>,
               ?v0\<lparr>Metrics := Some (emptyMetrics\<lparr>m_requests := word_of_nat (length rs)\<rparr>),
                 CompletedRequests := ucast (word_of_nat (length rs) :: u64)\<rparr>))"
    using run_consume [of ?r0 ?v0 emptyMetrics rs] by (simp add: emptyMetrics_def)
  let ?r1 = "?r0\<lparr>r_results := rs\<rparr>"
  let ?v1 = "?v0\<lparr>Metrics := Some (emptyMetrics\<lparr>m_requests := word_of_nat (length rs)\<rparr>),
                 CompletedRequests := ucast (word_of_nat (length rs) :: u64)\<rparr>"
  let ?sfx = "[StreamEnd, Proceed, Proceed, CloseMetrics ms]"
  have e: "startAttack_inputs a rs ms = [Proceed, Proceed, Proceed, Launch a] @ (map Deliver rs @ ?sfx)"
    by (simp add: startAttack_inputs_def)
  have "run_inputs (startAttack_inputs a rs ms) (new_runner rps dur) v =
        run_inputs (map Deliver rs @ ?sfx) ?r0 ?v0"
    by (simp only: e run_inputs_append run_prefix [OF assms]) simp
  also have "\<dots> = run_inputs ?sfx ?r1 ?v1"
    by (simp only: run_inputs_append c) simp
  finally have run: "run_inputs (startAttack_inputs a rs ms) (new_runner rps dur) v =
                     run_inputs ?sfx ?r1 ?v1" .
  show ?thesis
    unfolding run
    by (simp add: attack_stream_end_def new_runner_def
                  attack_final_read_def attack_final_set_def attack_finalize_def final_status_def
                  accessor_defs getStatusMsg_def status_msg_defs ucast_nat_64_32 Let_def)
qed

theorem startAttack_uncontended_witness:
  "\<exists>r' v'. run_inputs (startAttack_inputs 0 (replicate 50 \<lparr>res_code = 200, res_latency = 1000000\<rparr>)
              \<lparr>ms_duration_ns = 5000000000, ms_success_centi = 10000, ms_p50_ns = 1000000,
               ms_p95_ns = 1000000, ms_p99_ns = 1000000\<rparr>) (new_runner 10 5) instance0 = Some (Inr (r', v')) \<and>
     status v' = AttackStatusCodeCompleted \<and> unat (TotalRequests v') = 50 \<and>
     unat (CompletedRequests v') = 50 \<and> unat (lts_requestsCompleted (r_final r')) = 50 \<and>
     lts_status (r_final r') = ''Completed''"
proof -
  have h: "status instance0 \<noteq> AttackStatusCodeInProgress" by (simp add: instance0_def)
  have cap: "0 \<le> results_cap 10 5" by (simp add: results_cap_def)
  have t: "unat (totalRequestsOf 10 5) = 50" by (simp add: totalRequestsOf_eq)
  show ?thesis
    using startAttack_uncontended [OF h cap, of 0 "replicate 50 \<lparr>res_code = 200, res_latency = 1000000\<rparr>"
            "\<lparr>ms_duration_ns = 5000000000, ms_success_centi = 10000, ms_p50_ns = 1000000,
               ms_p95_ns = 1000000, ms_p99_ns = 1000000\<rparr>"] t
    by (auto simp: unat_u32_small)
qed

section \<open>The home page after a run without results\<close>

text \<open>C30: after a run that produced no results, the home page says there are
  no previous results and shows an empty summary, although the run's summary
  was stored: \<open>HomeHandler\<close> decides by \<open>previousResults != nil\<close>, and the
  copy of an empty result slice is \<open>nil\<close>.\<close>

theorem home_hides_empty_run:
  assumes "status v \<noteq> AttackStatusCodeInProgress" and "0 \<le> results_cap rps dur"
  shows "\<exists>r' v'. run_inputs (startAttack_inputs a [] ms) (new_runner rps dur) v = Some (Inr (r', v')) \<and>
     FinalMetrics v' = r_final r' \<and> lts_status (r_final r') = ''Completed'' \<and>
     HomeHandler_state v' = (False, zeroLoadTestStatus)"
proof -
  have e: "startAttack_inputs a [] ms =
           [Proceed, Proceed, Proceed, Launch a] @ [StreamEnd, Proceed, Proceed, CloseMetrics ms]"
    by (simp add: startAttack_inputs_def)
  show ?thesis
    unfolding e run_inputs_append run_prefix [OF assms]
    by (simp add: attack_stream_end_def new_runner_def attack_final_read_def attack_final_set_def
                  attack_finalize_def final_status_def accessor_defs getStatusMsg_def status_msg_defs
                  HomeHandler_state_def Let_def)
qed

theorem home_hides_empty_run_witness:
  "status instance0 \<noteq> AttackStatusCodeInProgress \<and> 0 \<le> results_cap 10 5 \<and>
   (\<exists>r' v'. run_inputs (startAttack_inputs 0 [] example_close) (new_runner 10 5) instance0 =
              Some (Inr (r', v')) \<and>
     FinalMetrics v' = r_final r' \<and> lts_status (r_final r') = ''Completed'' \<and>
     HomeHandler_state v' = (False, zeroLoadTestStatus))"
proof -
  have h: "status instance0 \<noteq> AttackStatusCodeInProgress" by (simp add: instance0_def)
  have cap: "0 \<le> results_cap 10 5" by (simp add: results_cap_def)
  show ?thesis using home_hides_empty_run [OF h cap, of 0 example_close] h cap by simp
qed

section \<open>Which steps write the expected total\<close>

lemma runner_step_TotalRequests:
  "runner_step inp r v = Some (Inr (r', v')) \<Longrightarrow> TotalRequests v' \<noteq> TotalRequests v \<Longrightarrow>
   inp = Proceed \<and> r_pc r = RReset"
  by (cases inp; cases "r_pc r")
     (auto simp: attack_check_def attack_set_in_progress_def attack_reset_def attack_launch_def
        attack_result_def attack_final_read_def attack_final_set_def attack_finalize_def
        attack_defer_def accessor_defs Let_def split: option.splits if_splits)

section \<open>Progress of a runner\<close>



end
