(* ===== verification/Registry.thy ===== *)
theory Registry
  imports Attack_State
begin

text \<open>
  The Broadcast Registry: the set \<open>instance.Connections\<close> and the outbound
  mailbox \<open>c.Send\<close> of every connection (src/vegetaui/websocket.go,
  \<open>make(chan []byte, 256)\<close>), with the coordinator's three operations on them
  (src/vegetaui/vegeta.go): registration, unregistration, and the
  drop-on-full broadcast loop of \<open>publishStatusToOpenSockets\<close>, which the
  coordinator's \<open>Incoming\<close> case repeats for raw messages. Go's panics on
  sending to or closing a closed channel are results \<open>Inl\<close>.

  The broadcast loop ranges over a Go map, whose iteration order is unspecified:
  the loop is modelled over an explicit enumeration of the keys, and
  \<open>publish_loop_eq_publish_ref\<close> proves that every duplicate-free enumeration of
  the registered set gives the same outcome, the pointwise reference
  \<open>publish_ref\<close>.
\<close>

section \<open>Buffered channels\<close>

record chan =
  chan_buf :: "bytes list"
  chan_closed :: bool

definition sendBufferSize :: nat where
  "sendBufferSize = 256"

definition newChan :: chan where
  "newChan = \<lparr>chan_buf = [], chan_closed = False\<rparr>"

text \<open>\<open>close(ch)\<close>.\<close>

definition close_chan :: "chan \<Rightarrow> go_panic + chan" where
  "close_chan ch =
     (if chan_closed ch then Inl CloseOfClosedChannel else Inr (ch\<lparr>chan_closed := True\<rparr>))"

text \<open>
  \<open>select { case ch <- m: default: }\<close>: a send to a closed channel panics even
  inside a \<open>select\<close>; otherwise the message is buffered if there is room
  (\<open>Some\<close>), and the \<open>default\<close> branch is taken if the buffer is full (\<open>None\<close>).
\<close>

definition try_send :: "bytes \<Rightarrow> chan \<Rightarrow> go_panic + chan option" where
  "try_send m ch =
     (if chan_closed ch then Inl SendOnClosedChannel
      else if length (chan_buf ch) < sendBufferSize
           then Inr (Some (ch\<lparr>chan_buf := chan_buf ch @ [m]\<rparr>))
           else Inr None)"

section \<open>The registry\<close>

record hub =
  hub_conns :: "conn_id set"
  hub_chans :: "conn_id \<Rightarrow> chan"

text \<open>\<open>case c := <-instance.Register: instance.Connections[c] = true\<close>.\<close>

definition register :: "conn_id \<Rightarrow> hub \<Rightarrow> hub" where
  "register c h = h\<lparr>hub_conns := insert c (hub_conns h)\<rparr>"

text \<open>\<open>case c := <-instance.Unregister\<close>: delete and close only a registered
  connection.\<close>

definition unregister :: "conn_id \<Rightarrow> hub \<Rightarrow> go_panic + hub" where
  "unregister c h =
     (if c \<in> hub_conns h
      then (case close_chan (hub_chans h c) of
              Inl e \<Rightarrow> Inl e
            | Inr ch \<Rightarrow> Inr (h\<lparr>hub_conns := hub_conns h - {c},
                                hub_chans := (hub_chans h)(c := ch)\<rparr>))
      else Inr h)"

text \<open>
  The body of \<open>for c := range instance.Connections { select ... }\<close>: deliver, or
  on a full mailbox close it and delete the connection, in the order of the
  enumeration \<open>cs\<close>.
\<close>

fun publish_loop :: "bytes \<Rightarrow> conn_id list \<Rightarrow> hub \<Rightarrow> go_panic + hub" where
  "publish_loop m [] h = Inr h"
| "publish_loop m (c # cs) h =
     (case try_send m (hub_chans h c) of
        Inl e \<Rightarrow> Inl e
      | Inr (Some ch') \<Rightarrow> publish_loop m cs (h\<lparr>hub_chans := (hub_chans h)(c := ch')\<rparr>)
      | Inr None \<Rightarrow>
          (case close_chan (hub_chans h c) of
             Inl e \<Rightarrow> Inl e
           | Inr ch' \<Rightarrow> publish_loop m cs (h\<lparr>hub_chans := (hub_chans h)(c := ch'),
                                             hub_conns := hub_conns h - {c}\<rparr>)))"

section \<open>The pointwise reference\<close>

text \<open>What the loop does to one mailbox that is open.\<close>

definition deliver_or_evict :: "bytes \<Rightarrow> chan \<Rightarrow> chan" where
  "deliver_or_evict m ch =
     (if length (chan_buf ch) < sendBufferSize then ch\<lparr>chan_buf := chan_buf ch @ [m]\<rparr>
      else ch\<lparr>chan_closed := True\<rparr>)"

definition full :: "chan \<Rightarrow> bool" where
  "full ch \<longleftrightarrow> \<not> length (chan_buf ch) < sendBufferSize"

text \<open>The loop's effect on a set \<open>S\<close> of visited connections, all at once.\<close>

definition publish_on :: "conn_id set \<Rightarrow> bytes \<Rightarrow> hub \<Rightarrow> go_panic + hub" where
  "publish_on S m h =
     (if \<exists>c\<in>S. chan_closed (hub_chans h c) then Inl SendOnClosedChannel
      else Inr \<lparr>hub_conns = hub_conns h - {c \<in> S. full (hub_chans h c)},
                hub_chans = (\<lambda>c. if c \<in> S then deliver_or_evict m (hub_chans h c)
                                 else hub_chans h c)\<rparr>)"

definition publish_ref :: "bytes \<Rightarrow> hub \<Rightarrow> go_panic + hub" where
  "publish_ref m h = publish_on (hub_conns h) m h"

section \<open>The registry invariant\<close>

text \<open>
  Registered mailboxes are open, the registered set is finite, and no mailbox
  holds more than its capacity.
\<close>

definition hub_inv :: "hub \<Rightarrow> bool" where
  "hub_inv h \<longleftrightarrow>
     finite (hub_conns h) \<and>
     (\<forall>c\<in>hub_conns h. \<not> chan_closed (hub_chans h c)) \<and>
     (\<forall>c. length (chan_buf (hub_chans h c)) \<le> sendBufferSize)"

text \<open>A small registry used by the closed examples: connection 1 has an empty
  mailbox, connection 2 a full one.\<close>

definition example_hub :: hub where
  "example_hub =
     \<lparr>hub_conns = {1, 2},
      hub_chans = (\<lambda>_. newChan)(2 := \<lparr>chan_buf = replicate 256 ''y'', chan_closed = False\<rparr>)\<rparr>"

section \<open>The abstract registry\<close>

text \<open>
  What the registry promises its subscribers, without channels: each registered
  connection has a queue of pending messages; a broadcast appends the message
  to every queue with room and drops the subscribers whose queue is full.
  \<open>abs_hub\<close> is the abstraction of a concrete registry.
\<close>

definition abs_hub :: "hub \<Rightarrow> conn_id \<Rightarrow> bytes list option" where
  "abs_hub h c = (if c \<in> hub_conns h then Some (chan_buf (hub_chans h c)) else None)"

definition abs_broadcast :: "bytes \<Rightarrow> (conn_id \<Rightarrow> bytes list option) \<Rightarrow> conn_id \<Rightarrow> bytes list option" where
  "abs_broadcast m A c =
     (case A c of
        None \<Rightarrow> None
      | Some q \<Rightarrow> if length q < sendBufferSize then Some (q @ [m]) else None)"

section \<open>Channel operations on open mailboxes\<close>

lemma try_send_cases:
  "try_send m ch =
     (if chan_closed ch then Inl SendOnClosedChannel
      else if full ch then Inr None else Inr (Some (deliver_or_evict m ch)))"
  by (simp add: try_send_def full_def deliver_or_evict_def)

lemma close_chan_open:
  "\<not> chan_closed ch \<Longrightarrow> close_chan ch = Inr (ch\<lparr>chan_closed := True\<rparr>)"
  by (simp add: close_chan_def)

lemma deliver_or_evict_full:
  "full ch \<Longrightarrow> deliver_or_evict m ch = ch\<lparr>chan_closed := True\<rparr>"
  by (simp add: deliver_or_evict_def full_def)

lemma deliver_or_evict_length:
  "length (chan_buf ch) \<le> sendBufferSize \<Longrightarrow>
   length (chan_buf (deliver_or_evict m ch)) \<le> sendBufferSize"
  by (simp add: deliver_or_evict_def)

lemma deliver_or_evict_open:
  "\<not> full ch \<Longrightarrow> \<not> chan_closed ch \<Longrightarrow> \<not> chan_closed (deliver_or_evict m ch)"
  by (simp add: deliver_or_evict_def full_def)

section \<open>The loop against the reference\<close>

lemma publish_on_insert:
  assumes "c \<notin> S" and "\<not> chan_closed (hub_chans h c)"
  shows "publish_on (insert c S) m h =
         publish_on S m (h\<lparr>hub_chans := (hub_chans h)(c := deliver_or_evict m (hub_chans h c)),
                           hub_conns := (if full (hub_chans h c) then hub_conns h - {c}
                                         else hub_conns h)\<rparr>)"
  using assms by (auto simp: publish_on_def fun_eq_iff)

lemma publish_on_Inr:
  "\<forall>c\<in>S. \<not> chan_closed (hub_chans h c) \<Longrightarrow>
   publish_on S m h =
     Inr \<lparr>hub_conns = hub_conns h - {c \<in> S. full (hub_chans h c)},
          hub_chans = (\<lambda>c. if c \<in> S then deliver_or_evict m (hub_chans h c)
                           else hub_chans h c)\<rparr>"
  by (auto simp: publish_on_def)

text \<open>Induction on the enumeration, with the registry generalised: each
  iteration is one \<open>publish_on_insert\<close> step.\<close>

lemma publish_loop_eq_publish_on:
  "distinct cs \<Longrightarrow> publish_loop m cs h = publish_on (set cs) m h"
proof (induction cs arbitrary: h)
  case Nil
  then show ?case by (simp add: publish_on_def)
next
  case (Cons c cs)
  show ?case
  proof (cases "chan_closed (hub_chans h c)")
    case True
    then show ?thesis by (auto simp: try_send_cases publish_on_def)
  next
    case False
    with Cons show ?thesis
      by (auto simp: try_send_cases close_chan_open publish_on_insert deliver_or_evict_full)
  qed
qed

text \<open>C9: the broadcast loop does not depend on the map's iteration order.\<close>

theorem publish_loop_eq_publish_ref:
  "distinct cs \<Longrightarrow> set cs = hub_conns h \<Longrightarrow> publish_loop m cs h = publish_ref m h"
  by (simp add: publish_loop_eq_publish_on publish_ref_def)

theorem publish_loop_eq_publish_ref_witness:
  "distinct [2, 1 :: nat] \<and> set [2, 1] = hub_conns example_hub \<and>
   publish_loop ''x'' [2, 1] example_hub = publish_ref ''x'' example_hub"
proof -
  have d: "distinct [2, 1 :: nat]" and s: "set [2, 1] = hub_conns example_hub"
    by (auto simp: example_hub_def)
  show ?thesis using publish_loop_eq_publish_ref [OF d s] d s by simp
qed

section \<open>The registry invariant under the three operations\<close>

lemma hub_inv_publish_ref:
  assumes "hub_inv h"
  shows "\<exists>h'. publish_ref m h = Inr h' \<and> hub_inv h'"
proof -
  from assms have "\<forall>c\<in>hub_conns h. \<not> chan_closed (hub_chans h c)"
    by (simp add: hub_inv_def)
  then have eq: "publish_ref m h =
      Inr \<lparr>hub_conns = hub_conns h - {c \<in> hub_conns h. full (hub_chans h c)},
           hub_chans = (\<lambda>c. if c \<in> hub_conns h then deliver_or_evict m (hub_chans h c)
                            else hub_chans h c)\<rparr>"
    by (simp add: publish_ref_def publish_on_Inr)
  from assms show ?thesis
    by (auto simp: eq hub_inv_def deliver_or_evict_length deliver_or_evict_open)
qed

lemma hub_inv_publish_loop:
  assumes "hub_inv h" and "distinct cs" and "set cs = hub_conns h"
  shows "\<exists>h'. publish_loop m cs h = Inr h' \<and> hub_inv h'"
  using hub_inv_publish_ref [OF assms(1)] assms(2,3)
  by (simp add: publish_loop_eq_publish_on publish_ref_def)

lemma publish_ref_evicts:
  assumes "hub_inv h" and "c \<in> hub_conns h" and "full (hub_chans h c)"
    and "publish_ref m h = Inr h'"
  shows "c \<notin> hub_conns h' \<and> chan_closed (hub_chans h' c) \<and> unregister c h' = Inr h'"
  using assms
  by (auto simp: hub_inv_def publish_ref_def publish_on_def unregister_def
                 deliver_or_evict_full split: if_splits)

lemma publish_ref_delivers:
  assumes "hub_inv h" and "c \<in> hub_conns h" and "\<not> full (hub_chans h c)"
    and "publish_ref m h = Inr h'"
  shows "c \<in> hub_conns h' \<and> chan_buf (hub_chans h' c) = chan_buf (hub_chans h c) @ [m]
         \<and> \<not> chan_closed (hub_chans h' c)"
  using assms
  by (auto simp: hub_inv_def publish_ref_def publish_on_def deliver_or_evict_def full_def
           split: if_splits)

lemma publish_ref_unregistered:
  "c \<notin> hub_conns h \<Longrightarrow> publish_ref m h = Inr h' \<Longrightarrow>
   hub_chans h' c = hub_chans h c \<and> c \<notin> hub_conns h'"
  by (auto simp: publish_ref_def publish_on_def split: if_splits)

lemma hub_inv_unregister:
  assumes "hub_inv h"
  shows "\<exists>h'. unregister c h = Inr h' \<and> hub_inv h' \<and> c \<notin> hub_conns h'"
  using assms by (auto simp: hub_inv_def unregister_def close_chan_def)

lemma hub_inv_register:
  "hub_inv h \<Longrightarrow> \<not> chan_closed (hub_chans h c) \<Longrightarrow> hub_inv (register c h)"
  by (simp add: hub_inv_def register_def)

lemma publish_loop_delivers_at:
  assumes "hub_inv h" and "distinct cs" and "set cs = hub_conns h"
    and "c \<in> hub_conns h" and "\<not> full (hub_chans h c)"
  shows "\<exists>h'. publish_loop m cs h = Inr h' \<and> hub_inv h' \<and> c \<in> hub_conns h' \<and>
              chan_buf (hub_chans h' c) = chan_buf (hub_chans h c) @ [m]"
proof -
  obtain h' where pl: "publish_loop m cs h = Inr h'" and inv: "hub_inv h'"
    using hub_inv_publish_loop [OF assms(1-3)] by blast
  from assms(2,3) pl have "publish_ref m h = Inr h'"
    by (simp add: publish_loop_eq_publish_on publish_ref_def)
  with assms(1,4,5) pl inv show ?thesis using publish_ref_delivers by blast
qed

lemma deliver_or_evict_prefix: "prefix (chan_buf ch) (chan_buf (deliver_or_evict m ch))"
  by (simp add: deliver_or_evict_def)

lemma publish_loop_prefix:
  assumes "distinct cs" and "publish_loop m cs h = Inr h'"
  shows "prefix (chan_buf (hub_chans h c)) (chan_buf (hub_chans h' c))"
  using assms deliver_or_evict_prefix [of "hub_chans h c" m]
  by (auto simp: publish_loop_eq_publish_on publish_on_def split: if_splits)

text \<open>C11: a slow subscriber, whose mailbox is full, is evicted by a broadcast:
  its mailbox is closed and it leaves the registry; its later \<open>Unregister\<close>
  changes nothing, so the mailbox is closed exactly once.\<close>

theorem publish_loop_evicts:
  assumes "hub_inv h" and "distinct cs" and "set cs = hub_conns h"
    and "c \<in> hub_conns h" and "full (hub_chans h c)"
    and "publish_loop m cs h = Inr h'"
  shows "c \<notin> hub_conns h' \<and> chan_closed (hub_chans h' c) \<and> unregister c h' = Inr h'"
proof -
  from assms(2,3,6) have "publish_ref m h = Inr h'"
    by (simp add: publish_loop_eq_publish_on publish_ref_def)
  with assms(1,4,5) show ?thesis by (rule publish_ref_evicts)
qed

theorem publish_loop_evicts_witness:
  "\<exists>h'. publish_loop ''x'' [2, 1] example_hub = Inr h' \<and>
        2 \<notin> hub_conns h' \<and> chan_closed (hub_chans h' 2) \<and> unregister 2 h' = Inr h'"
proof -
  have inv: "hub_inv example_hub"
    by (auto simp: hub_inv_def example_hub_def newChan_def sendBufferSize_def)
  have d: "distinct [2, 1 :: nat]" and s: "set [2, 1] = hub_conns example_hub"
    and c: "2 \<in> hub_conns example_hub" and f: "full (hub_chans example_hub 2)"
    by (auto simp: example_hub_def full_def sendBufferSize_def)
  obtain h' where run: "publish_loop ''x'' [2, 1] example_hub = Inr h'"
    using hub_inv_publish_loop [OF inv d s] by blast
  show ?thesis using publish_loop_evicts [OF inv d s c f run] run by blast
qed



lemma abs_unregister:
  "hub_inv h \<Longrightarrow> unregister c h = Inr h' \<Longrightarrow> abs_hub h' = (abs_hub h)(c := None)"
  by (auto simp: unregister_def abs_hub_def close_chan_def hub_inv_def fun_eq_iff split: if_splits sum.splits)

lemma abs_register:
  "abs_hub (register c h) = (abs_hub h)(c \<mapsto> chan_buf (hub_chans h c))"
  by (auto simp: register_def abs_hub_def fun_eq_iff)

text \<open>C10: the broadcast loop refines the abstract broadcast: for every
  enumeration of the registered connections it succeeds, and the registry it
  leaves is, seen through \<open>abs_hub\<close>, the abstract broadcast of the one it
  started from; registration and unregistration are the map update and the map
  deletion.\<close>

theorem publish_loop_refines:
  assumes "hub_inv h" and "distinct cs" and "set cs = hub_conns h"
  shows "\<exists>h'. publish_loop m cs h = Inr h' \<and> abs_hub h' = abs_broadcast m (abs_hub h)"
proof -
  from assms(1) have op: "\<forall>c\<in>hub_conns h. \<not> chan_closed (hub_chans h c)" by (simp add: hub_inv_def)
  have "publish_loop m cs h = publish_on (hub_conns h) m h"
    using assms(2,3) by (simp add: publish_loop_eq_publish_on)
  also have "\<dots> = Inr \<lparr>hub_conns = hub_conns h - {c \<in> hub_conns h. full (hub_chans h c)},
          hub_chans = (\<lambda>c. if c \<in> hub_conns h then deliver_or_evict m (hub_chans h c)
                           else hub_chans h c)\<rparr>" by (rule publish_on_Inr [OF op])
  finally show ?thesis
    by (auto simp: abs_hub_def abs_broadcast_def fun_eq_iff deliver_or_evict_def full_def)
qed

theorem publish_loop_refines_witness:
  "hub_inv example_hub \<and> distinct [2, 1 :: nat] \<and> set [2, 1] = hub_conns example_hub \<and>
   (\<exists>h'. publish_loop ''x'' [2, 1] example_hub = Inr h' \<and>
         abs_hub h' = abs_broadcast ''x'' (abs_hub example_hub))"
proof -
  have inv: "hub_inv example_hub"
    by (auto simp: hub_inv_def example_hub_def newChan_def sendBufferSize_def)
  have d: "distinct [2, 1 :: nat]" and s: "set [2, 1] = hub_conns example_hub"
    by (auto simp: example_hub_def)
  show ?thesis using publish_loop_refines [OF inv d s, of "''x''"] inv d s by blast
qed

end
