(* ===== verification/Coordinator.thy ===== *)
theory Coordinator
  imports Registry Wire
begin

text \<open>
  The Coordinator Loop: the goroutine started by \<open>initVegeta\<close>
  (src/vegetaui/vegeta.go) and its \<open>select\<close> over six event sources. Each case
  is one function from the coordinator's view of the state (the singleton and
  the mailboxes) to its successor, or to the panic it raises. A case runs as one
  atomic step of the system model. The enumeration \<open>cs\<close> is the Go map
  iteration order the runtime picks for the broadcast loop.
\<close>

type_synonym cstate = "vegetaAttack \<times> (conn_id \<Rightarrow> chan)"

definition hub_of :: "cstate \<Rightarrow> hub" where
  "hub_of s = \<lparr>hub_conns = Connections (fst s), hub_chans = snd s\<rparr>"

definition with_hub :: "hub \<Rightarrow> cstate \<Rightarrow> cstate" where
  "with_hub h s = ((fst s)\<lparr>Connections := hub_conns h\<rparr>, hub_chans h)"

section \<open>Broadcasting a status\<close>

text \<open>\<open>publishStatusToOpenSockets\<close>: marshal, then the drop-on-full loop.\<close>

definition publishStatusToOpenSockets ::
  "LoadTestStatus \<Rightarrow> conn_id list \<Rightarrow> cstate \<Rightarrow> go_panic + cstate" where
  "publishStatusToOpenSockets newStatus cs s =
     (let content = json_encode newStatus
      in case publish_loop content cs (hub_of s) of
           Inl e \<Rightarrow> Inl e
         | Inr h \<Rightarrow> Inr (with_hub h s))"

section \<open>The select cases\<close>

text \<open>\<open>case _, ok := <-attackTicker.C\<close>: only while a run is in progress, count
  the tick and publish a progress snapshot of the hot counters.\<close>

definition progress_snapshot :: "bool \<Rightarrow> vegetaAttack \<Rightarrow> LoadTestStatus" where
  "progress_snapshot ok v =
     (let status = (if \<not> ok then AttackStatusCodeCompleted else AttackStatusCodeInProgress)
      in \<lparr>lts_status = getStatusMsg status, lts_elapsed = elapsed v,
          lts_requestsCompleted = CompletedRequests v, lts_totalRequests = TotalRequests v,
          lts_successRate = [], lts_p50 = 0, lts_p95 = 0, lts_p99 = 0\<rparr>)"

definition coord_tick :: "bool \<Rightarrow> conn_id list \<Rightarrow> cstate \<Rightarrow> go_panic + cstate" where
  "coord_tick ok cs s =
     (let v = fst s; currentStatus = getStatus v
      in if currentStatus = AttackStatusCodeInProgress
         then (let newValue = elapsed v + 1;
                   v' = v\<lparr>elapsed := newValue\<rparr>
               in publishStatusToOpenSockets (progress_snapshot ok v') cs (v', snd s))
         else Inr s)"

text \<open>\<open>case results := <-instance.FinalResults\<close>: publish unconditionally.\<close>

definition coord_final :: "LoadTestStatus \<Rightarrow> conn_id list \<Rightarrow> cstate \<Rightarrow> go_panic + cstate" where
  "coord_final results cs s = publishStatusToOpenSockets results cs s"

text \<open>
  \<open>case cancelOrder, ok := <-instance.Cancel\<close>: if a run is in progress, mark it
  cancelled and call \<open>getCurrentAttacker().Stop()\<close>. The library's \<open>Stop\<close>
  dereferences its receiver, so a nil attacker panics. The second component of
  the result is the attacker that was asked to stop.
\<close>

definition coord_cancel ::
  "bool \<Rightarrow> bool \<Rightarrow> cstate \<Rightarrow> go_panic + cstate \<times> attacker_id option" where
  "coord_cancel ok cancelOrder s =
     (if ok \<and> cancelOrder
      then (if getStatus (fst s) = AttackStatusCodeInProgress
            then (let v' = setStatus AttackStatusCodeCancelled (fst s)
                  in case getCurrentAttacker v' of
                       None \<Rightarrow> Inl NilPointerDereference
                     | Some a \<Rightarrow> Inr ((v', snd s), Some a))
            else Inr (s, None))
      else Inr (s, None))"

definition coord_register :: "conn_id \<Rightarrow> cstate \<Rightarrow> cstate" where
  "coord_register c s = with_hub (register c (hub_of s)) s"

definition coord_unregister :: "conn_id \<Rightarrow> cstate \<Rightarrow> go_panic + cstate" where
  "coord_unregister c s =
     (case unregister c (hub_of s) of Inl e \<Rightarrow> Inl e | Inr h \<Rightarrow> Inr (with_hub h s))"

text \<open>
  \<open>case m := <-instance.Incoming\<close>: a message other than the two control strings
  is broadcast raw to every connection (the loop of
  \<open>publishStatusToOpenSockets\<close> again); \<open>cancelTest\<close> spawns a goroutine that
  sends on \<open>Cancel\<close> (the \<open>True\<close> of the result); \<open>getStatus\<close> does nothing.
\<close>

definition is_control :: "bytes \<Rightarrow> bool" where
  "is_control m \<longleftrightarrow> m = MessageCancelTest \<or> m = MessageGetTestStatus"

definition coord_incoming :: "bytes \<Rightarrow> conn_id list \<Rightarrow> cstate \<Rightarrow> go_panic + cstate \<times> bool" where
  "coord_incoming m cs s =
     (if \<not> is_control m
      then (case publish_loop m cs (hub_of s) of
              Inl e \<Rightarrow> Inl e
            | Inr h \<Rightarrow> Inr (with_hub h s, False))
      else Inr (s, m = MessageCancelTest))"

text \<open>A coordinator state for the closed examples: a run in progress with
  attacker 7, connections 1 (empty mailbox) and 2 (full mailbox).\<close>

definition example_cstate :: cstate where
  "example_cstate =
     (instance0\<lparr>status := 1, Connections := {1, 2}, CurrentAttacker := Some 7\<rparr>,
      hub_chans example_hub)"

section \<open>Properties of the cases\<close>

lemma hub_eta [simp]: "\<lparr>hub_conns = hub_conns h, hub_chans = hub_chans h\<rparr> = h"
  by (cases h) simp

lemma hub_of_with_hub [simp]: "hub_of (with_hub h c) = h"
  by (simp add: hub_of_def with_hub_def)

lemma fst_with_hub [simp]: "fst (with_hub h c) = (fst c)\<lparr>Connections := hub_conns h\<rparr>"
  by (simp add: with_hub_def)

lemma snd_with_hub [simp]: "snd (with_hub h c) = hub_chans h"
  by (simp add: with_hub_def)

lemma publish_status_delivers:
  assumes "hub_inv (hub_of s)" and "distinct cs" and "set cs = Connections (fst s)"
    and "c \<in> Connections (fst s)" and "\<not> full (snd s c)"
  shows "\<exists>h'. publishStatusToOpenSockets st cs s = Inr (with_hub h' s) \<and> hub_inv h' \<and>
              c \<in> hub_conns h' \<and> chan_buf (hub_chans h' c) = chan_buf (snd s c) @ [json_encode st]"
  using publish_loop_delivers_at [OF assms(1), of cs c "json_encode st"] assms(2-5)
  by (auto simp: publishStatusToOpenSockets_def hub_of_def)

lemma publish_status_prefix:
  assumes "distinct cs" and "publishStatusToOpenSockets st cs x = Inr y"
  shows "prefix (chan_buf (snd x c)) (chan_buf (snd y c))"
  using assms publish_loop_prefix [OF assms(1), of "json_encode st" "hub_of x"]
  by (auto simp: publishStatusToOpenSockets_def hub_of_def with_hub_def split: sum.splits)

lemma tick_prefix:
  assumes "coord_tick ok cs (v, ch) = Inr (a, b)" and "distinct cs"
  shows "prefix (chan_buf (ch c)) (chan_buf (b c))"
proof (cases "getStatus v = AttackStatusCodeInProgress")
  case True
  with assms(1) have "publishStatusToOpenSockets (progress_snapshot ok (v\<lparr>elapsed := elapsed v + 1\<rparr>)) cs
                        (v\<lparr>elapsed := elapsed v + 1\<rparr>, ch) = Inr (a, b)"
    by (simp add: coord_tick_def Let_def)
  from publish_status_prefix [OF assms(2) this] show ?thesis by simp
next
  case False
  with assms(1) show ?thesis by (simp add: coord_tick_def)
qed

lemma publish_status_va:
  "publishStatusToOpenSockets st cs x = Inr y \<Longrightarrow> \<exists>C. fst y = (fst x)\<lparr>Connections := C\<rparr>"
  by (auto simp: publishStatusToOpenSockets_def with_hub_def split: sum.splits)

text \<open>While a run is in progress, a tick increments \<open>elapsed\<close> with 32-bit
  wrap-around, leaves the status alone, and appends to every registered mailbox
  with room the JSON of an InProgress snapshot of the hot counters.\<close>

theorem coord_tick_in_progress:
  assumes "hub_inv (hub_of s)" and "distinct cs" and "set cs = Connections (fst s)"
    and "getStatus (fst s) = AttackStatusCodeInProgress"
    and "c \<in> Connections (fst s)" and "\<not> full (snd s c)"
  shows "\<exists>s'. coord_tick True cs s = Inr s' \<and>
           unat (elapsed (fst s')) = (unat (elapsed (fst s)) + 1) mod 2 ^ 32 \<and>
           status (fst s') = status (fst s) \<and>
           chan_buf (snd s' c) = chan_buf (snd s c) @
             [json_encode \<lparr>lts_status = ''InProgress'', lts_elapsed = elapsed (fst s) + 1,
                           lts_requestsCompleted = CompletedRequests (fst s),
                           lts_totalRequests = TotalRequests (fst s), lts_successRate = [],
                           lts_p50 = 0, lts_p95 = 0, lts_p99 = 0\<rparr>]"
proof -
  let ?v' = "(fst s)\<lparr>elapsed := elapsed (fst s) + 1\<rparr>"
  have h: "hub_of (?v', snd s) = hub_of s" by (simp add: hub_of_def)
  obtain h' where pub: "publishStatusToOpenSockets (progress_snapshot True ?v') cs (?v', snd s)
                          = Inr (with_hub h' (?v', snd s))"
    and buf: "chan_buf (hub_chans h' c) = chan_buf (snd s c) @ [json_encode (progress_snapshot True ?v')]"
    using publish_status_delivers [of "(?v', snd s)" cs c "progress_snapshot True ?v'"] assms h
    by auto
  have tick: "coord_tick True cs s = Inr (with_hub h' (?v', snd s))"
    using assms(4) pub by (simp add: coord_tick_def Let_def)
  have snap: "progress_snapshot True ?v' =
      \<lparr>lts_status = ''InProgress'', lts_elapsed = elapsed (fst s) + 1,
       lts_requestsCompleted = CompletedRequests (fst s), lts_totalRequests = TotalRequests (fst s),
       lts_successRate = [], lts_p50 = 0, lts_p95 = 0, lts_p99 = 0\<rparr>"
    by (simp add: progress_snapshot_def getStatusMsg_def status_msg_defs)
  have "unat (elapsed (fst s) + 1) = (unat (elapsed (fst s)) + 1) mod 2 ^ 32"
    by (simp add: unat_word_ariths)
  with tick buf snap show ?thesis by auto
qed


text \<open>The final summary from the runner is broadcast whatever the status:
  every registered mailbox with room receives its JSON.\<close>

theorem coord_final_unconditional:
  assumes "hub_inv (hub_of s)" and "distinct cs" and "set cs = Connections (fst s)"
    and "c \<in> Connections (fst s)" and "\<not> full (snd s c)"
  shows "\<exists>s'. coord_final st cs s = Inr s' \<and> status (fst s') = status (fst s) \<and>
              c \<in> Connections (fst s') \<and> chan_buf (snd s' c) = chan_buf (snd s c) @ [json_encode st]"
  using publish_status_delivers [OF assms, of st] by (auto simp: coord_final_def with_hub_def)

text \<open>C28: the coordinator itself does not drop unrecognised client messages: a
  message other than the two control strings that reaches \<open>Incoming\<close> is
  broadcast raw to every registered mailbox with room.\<close>

theorem coord_incoming_broadcasts_raw:
  assumes "\<not> is_control m" and "hub_inv (hub_of s)" and "distinct cs" and "set cs = Connections (fst s)"
    and "c \<in> Connections (fst s)" and "\<not> full (snd s c)"
  shows "\<exists>s'. coord_incoming m cs s = Inr (s', False) \<and> chan_buf (snd s' c) = chan_buf (snd s c) @ [m]"
  using publish_loop_delivers_at [OF assms(2), of cs c m] assms(1,3-6)
  by (auto simp: coord_incoming_def hub_of_def with_hub_def)


section \<open>Closed instances\<close>

lemma example_cstate_inv: "hub_inv (hub_of example_cstate)"
  by (auto simp: hub_inv_def hub_of_def example_cstate_def example_hub_def newChan_def
                 sendBufferSize_def)

lemma example_cstate_facts:
  "distinct [2, 1 :: nat]" "set [2, 1] = Connections (fst example_cstate)"
  "1 \<in> Connections (fst example_cstate)" "\<not> full (snd example_cstate 1)"
  "getStatus (fst example_cstate) = AttackStatusCodeInProgress"
  "chan_buf (snd example_cstate 1) = []"
  by (auto simp: example_cstate_def example_hub_def full_def newChan_def sendBufferSize_def
                 getStatus_def)

theorem coord_tick_in_progress_witness:
  "\<exists>s'. coord_tick True [2, 1] example_cstate = Inr s' \<and> unat (elapsed (fst s')) = 1 \<and>
        chan_buf (snd s' 1) =
          [json_encode \<lparr>lts_status = ''InProgress'', lts_elapsed = 1,
                        lts_requestsCompleted = 0, lts_totalRequests = 0, lts_successRate = [],
                        lts_p50 = 0, lts_p95 = 0, lts_p99 = 0\<rparr>]"
proof -
  note f = example_cstate_facts
  have e: "elapsed (fst example_cstate) = 0" "CompletedRequests (fst example_cstate) = 0"
    "TotalRequests (fst example_cstate) = 0"
    by (simp_all add: example_cstate_def instance0_def)
  from coord_tick_in_progress [OF example_cstate_inv f(1) f(2) f(5) f(3) f(4)] e f(6)
  have "\<exists>s'. coord_tick True [2, 1] example_cstate = Inr s' \<and> unat (elapsed (fst s')) = 1 \<and>
        status (fst s') = status (fst example_cstate) \<and>
        chan_buf (snd s' 1) =
          [json_encode \<lparr>lts_status = ''InProgress'', lts_elapsed = 1,
                        lts_requestsCompleted = 0, lts_totalRequests = 0, lts_successRate = [],
                        lts_p50 = 0, lts_p95 = 0, lts_p99 = 0\<rparr>]"
    by simp
  then show ?thesis by blast
qed


theorem coord_final_unconditional_witness:
  "\<exists>s'. coord_final zeroLoadTestStatus [2, 1] example_cstate = Inr s' \<and>
        chan_buf (snd s' 1) = [json_encode zeroLoadTestStatus]"
proof -
  note f = example_cstate_facts
  show ?thesis
    using coord_final_unconditional [OF example_cstate_inv f(1) f(2) f(3) f(4), of zeroLoadTestStatus] f(6)
    by auto
qed

theorem coord_incoming_broadcasts_raw_witness:
  "\<exists>s'. coord_incoming ''hello'' [2, 1] example_cstate = Inr (s', False) \<and>
        chan_buf (snd s' 1) = [''hello'']"
proof -
  note f = example_cstate_facts
  have m: "\<not> is_control ''hello''"
    by (simp add: is_control_def MessageCancelTest_def MessageGetTestStatus_def)
  show ?thesis
    using coord_incoming_broadcasts_raw [OF m example_cstate_inv f(1) f(2) f(3) f(4)] f(6)
    by auto
qed

end
