(* ===== verification/Connection.thy ===== *)
theory Connection
  imports Coordinator
begin

text \<open>
  The two halves of a websocket connection (src/vegetaui/websocket.go).
  \<open>ReadPump\<close> reads client messages and forwards the accepted ones to the
  coordinator's \<open>Incoming\<close> channel; on a read error or an expired deadline it
  sends itself on \<open>Unregister\<close> and closes the socket. \<open>WritePump\<close> drains the
  mailbox to the socket, sends a close frame and exits when the mailbox is
  closed, and exits on a write error. The network is the list of text frames
  written (\<open>ws_delivered\<close>) and a flag for the closed socket.
\<close>

record wsconn =
  ws_reader :: bool
  ws_writer :: bool
  ws_delivered :: "bytes list"
  ws_closed :: bool

text \<open>\<open>GetAttackStatus\<close>: a new connection with both pumps about to run.\<close>

definition new_wsconn :: wsconn where
  "new_wsconn = \<lparr>ws_reader = True, ws_writer = True, ws_delivered = [], ws_closed = False\<rparr>"

section \<open>The read half\<close>

text \<open>\<open>c.WS.SetReadLimit(maxMessageSize)\<close>: a longer message fails the read.\<close>

definition maxMessageSize :: nat where
  "maxMessageSize = 4096"

text \<open>
  The filter in \<open>ReadPump\<close>, statement by statement: \<open>okToSend\<close> starts true,
  is cleared when no run is in progress, and is then overwritten by the test on
  the message text.
\<close>

definition readPump_okToSend :: "vegetaAttack \<Rightarrow> bytes \<Rightarrow> bool" where
  "readPump_okToSend v message =
     (let okToSend = True;
          okToSend = (if getStatus v \<noteq> AttackStatusCodeInProgress then False else okToSend);
          okToSend = (message = MessageGetTestStatus \<or> message = MessageCancelTest)
      in okToSend)"

text \<open>The deferred exit of \<open>ReadPump\<close> after the unregistration: close the socket.\<close>

definition readPump_exit :: "wsconn \<Rightarrow> wsconn" where
  "readPump_exit w = w\<lparr>ws_reader := False, ws_closed := True\<rparr>"

section \<open>The write half\<close>

text \<open>
  One iteration of \<open>WritePump\<close>'s loop on a message from the mailbox. \<open>ok\<close> is
  whether the socket accepts the write. With a message: write it, or exit on
  error (the message is lost). On a closed and drained mailbox: write the close
  frame and exit. \<open>None\<close> when the mailbox is open and empty (the pump blocks;
  the ping ticker writes no data frame).
\<close>

definition writePump_step :: "bool \<Rightarrow> chan \<Rightarrow> wsconn \<Rightarrow> (chan \<times> wsconn) option" where
  "writePump_step ok ch w =
     (case chan_buf ch of
        m # rest \<Rightarrow>
          Some (ch\<lparr>chan_buf := rest\<rparr>,
                if ok then w\<lparr>ws_delivered := ws_delivered w @ [m]\<rparr>
                else w\<lparr>ws_writer := False, ws_closed := True\<rparr>)
      | [] \<Rightarrow>
          (if chan_closed ch then Some (ch, w\<lparr>ws_writer := False, ws_closed := True\<rparr>)
           else None))"

text \<open>\<open>case <-ticker.C\<close> when the ping write fails: the pump exits and closes
  the socket. (A successful ping changes nothing the model records.)\<close>

definition writePump_ping_fail :: "wsconn \<Rightarrow> wsconn" where
  "writePump_ping_fail w = w\<lparr>ws_writer := False, ws_closed := True\<rparr>"

section \<open>Properties of the pumps\<close>

lemma readPump_okToSend_eq: "readPump_okToSend v m = is_control m"
  by (auto simp: readPump_okToSend_def is_control_def Let_def)

text \<open>C33: the read pump's check of the run status is dead code: the status
  test's result is overwritten, so a control message is forwarded to the
  coordinator even when no run is in progress, contrary to the comment above
  it.\<close>

theorem readPump_forwards_without_run:
  assumes "getStatus v \<noteq> AttackStatusCodeInProgress"
  shows "readPump_okToSend v MessageCancelTest"
  by (simp add: readPump_okToSend_eq is_control_def)

theorem readPump_forwards_without_run_witness:
  "getStatus instance0 \<noteq> AttackStatusCodeInProgress \<and> readPump_okToSend instance0 MessageCancelTest"
proof -
  have h: "getStatus instance0 \<noteq> AttackStatusCodeInProgress"
    by (simp add: getStatus_def instance0_def)
  show ?thesis using readPump_forwards_without_run [OF h] h by simp
qed

lemma writePump_step_deliver:
  "chan_buf ch = m # rest \<Longrightarrow>
   writePump_step True ch w = Some (ch\<lparr>chan_buf := rest\<rparr>, w\<lparr>ws_delivered := ws_delivered w @ [m]\<rparr>)"
  by (simp add: writePump_step_def)

end
