(* ===== verification/Routes.thy ===== *)
theory Routes
  imports Wire
begin

text \<open>
  The request handler \<open>StartAttackHandler\<close> (src/vegetaui/routes.go) up to the
  point where it spawns the runner: the form accessors \<open>getString\<close> and
  \<open>getInt\<close>, the validation, and the response. \<open>getInt\<close> parses with
  \<open>strconv.Atoi\<close>, whose two paths are modelled after the Go library: the fast
  path for strings shorter than 19 bytes and \<open>ParseInt(s, 10, 0)\<close> with its
  loop \<open>ParseUint\<close> for the rest. A request's form is the list of its
  parameters in order; \<open>r.FormValue\<close> reads the first value of a key, or the
  empty string.
\<close>

section \<open>strconv: parsing and printing decimal integers\<close>

datatype num_error = ErrSyntax | ErrRange

definition is_digit :: "char \<Rightarrow> bool" where
  "is_digit c \<longleftrightarrow> 48 \<le> (of_char c :: nat) \<and> (of_char c :: nat) \<le> 57"

definition digit_val :: "char \<Rightarrow> nat" where
  "digit_val c = of_char c - 48"

definition maxUint64 :: nat where
  "maxUint64 = 2 ^ 64 - 1"

text \<open>\<open>cutoff\<close> of \<open>ParseUint\<close> for base 10: the smallest \<open>n\<close> with \<open>n * 10\<close>
  beyond \<open>maxUint64\<close>.\<close>

definition uint64_cutoff :: nat where
  "uint64_cutoff = maxUint64 div 10 + 1"

text \<open>The digit loop of \<open>ParseUint(s, 10, 64)\<close>. The accumulator is a natural
  number: the two range checks return before \<open>n * 10 + d\<close> could exceed
  \<open>2^64 - 1\<close>, so the \<open>uint64\<close> arithmetic of the library never wraps.\<close>

fun parseUint_loop :: "string \<Rightarrow> nat \<Rightarrow> nat \<times> num_error option" where
  "parseUint_loop [] n = (n, None)"
| "parseUint_loop (c # cs) n =
     (if \<not> is_digit c then (0, Some ErrSyntax)
      else if uint64_cutoff \<le> n then (maxUint64, Some ErrRange)
      else (let n1 = n * 10 + digit_val c
            in if maxUint64 < n1 then (maxUint64, Some ErrRange) else parseUint_loop cs n1))"

definition ParseUint :: "string \<Rightarrow> nat \<times> num_error option" where
  "ParseUint s = (if s = [] then (0, Some ErrSyntax) else parseUint_loop s 0)"

text \<open>\<open>ParseInt(s, 10, 0)\<close> on a 64-bit platform: an optional sign, the
  magnitude by \<open>ParseUint\<close>, and the clamp to \<open>int64\<close> on overflow.\<close>

definition ParseInt :: "string \<Rightarrow> int \<times> num_error option" where
  "ParseInt s =
     (if s = [] then (0, Some ErrSyntax)
      else (let neg = (hd s = CHR ''-'');
                s' = (if hd s = CHR ''+'' \<or> hd s = CHR ''-'' then tl s else s);
                (un, err) = ParseUint s'
            in if err \<noteq> None \<and> err \<noteq> Some ErrRange then (0, err)
               else if \<not> neg \<and> 2 ^ 63 \<le> un then (2 ^ 63 - 1, Some ErrRange)
               else if neg \<and> 2 ^ 63 < un then (- (2 ^ 63), Some ErrRange)
               else (if neg then - int un else int un, None)))"

text \<open>The fast path of \<open>Atoi\<close>: at most 18 digits cannot overflow \<open>int\<close>.\<close>

fun atoi_fast_loop :: "string \<Rightarrow> int \<Rightarrow> int option" where
  "atoi_fast_loop [] n = Some n"
| "atoi_fast_loop (c # cs) n =
     (if is_digit c then atoi_fast_loop cs (n * 10 + int (digit_val c)) else None)"

definition Atoi :: "string \<Rightarrow> int \<times> num_error option" where
  "Atoi s =
     (if 0 < length s \<and> length s < 19
      then (let s' = (if hd s = CHR ''-'' \<or> hd s = CHR ''+'' then tl s else s)
            in if s' = [] then (0, Some ErrSyntax)
               else (case atoi_fast_loop s' 0 of
                       None \<Rightarrow> (0, Some ErrSyntax)
                     | Some n \<Rightarrow> (if hd s = CHR ''-'' then - n else n, None)))
      else ParseInt s)"

text \<open>\<open>strconv.Itoa\<close>: a minus sign and the decimal digits of the magnitude.\<close>

definition Itoa :: "int \<Rightarrow> string" where
  "Itoa n = (if n < 0 then CHR ''-'' # dec_digits (nat (- n)) else dec_digits (nat n))"

section \<open>Form values\<close>

type_synonym form = "(string \<times> string) list"

definition FormValue :: "form \<Rightarrow> string \<Rightarrow> string" where
  "FormValue r k = (case map_of r k of Some v \<Rightarrow> v | None \<Rightarrow> [])"

text \<open>The errors the two accessors return: \<open>fmt.Errorf\<close> text or a
  \<open>*strconv.NumError\<close>.\<close>

datatype go_error = Errorf string | NumError num_error

definition getString :: "form \<Rightarrow> string \<Rightarrow> bool \<Rightarrow> string \<times> go_error option" where
  "getString r paramName mandatory =
     (let paramVal = FormValue r paramName
      in if mandatory \<and> paramVal = []
         then ([], Some (Errorf (''getString(): mandatory param '' @ paramName @
                                 '' is missing from the request'')))
         else (paramVal, None))"

definition getInt :: "form \<Rightarrow> string \<Rightarrow> bool \<Rightarrow> int \<times> go_error option" where
  "getInt r paramName mandatory =
     (let paramVal = FormValue r paramName
      in if mandatory \<and> paramVal = []
         then (0, Some (Errorf (''getInt(): mandatory param '' @ paramName @
                                '' is missing from the request'')))
         else (case Atoi paramVal of (n, e) \<Rightarrow> (n, map_option NumError e)))"

section \<open>StartAttackHandler\<close>

text \<open>The arguments of \<open>go startAttack(...)\<close> and the JSON answer of
  \<open>serveJSON\<close> (its JSON text is in theory \<open>Server\<close>).\<close>

record start_params =
  sp_targetURL :: string
  sp_attackMethod :: string
  sp_body :: bytes
  sp_requestsPerSecond :: int
  sp_duration :: int
  sp_timeout :: int
  sp_workers :: int
  sp_differentConnections :: bool
  sp_ignoreInvalidCert :: bool

record response =
  resp_Status :: int
  resp_Message :: string
  resp_Errors :: "string list"

definition ResponseStatus_OK :: int where
  "ResponseStatus_OK = 0"

text \<open>
  The handler, given the status it reads with \<open>instance.getStatus()\<close> and the
  request's form: the response it serves and the arguments of the runner it
  spawns, if any. Each validation error is appended in the order of the code;
  the values of \<open>getString\<close> and \<open>getInt\<close> are kept even on error, as in Go.
\<close>

definition StartAttackHandler :: "int \<Rightarrow> form \<Rightarrow> response \<times> start_params option" where
  "StartAttackHandler currentStatus r =
     (let statusCode = 0;
          statusMsg = ''OK'';
          testInProgress = (currentStatus = AttackStatusCodeInProgress);
          statusMsg = (if testInProgress then ''Test Already Running'' else statusMsg)
      in if \<not> testInProgress then
           (let (targetURL, err) = getString r ''targetURL'' True;
                validationErrors =
                  (if err \<noteq> None then [''Empty value for the targetURL parameter''] else []);
                (attackMethod, err) = getString r ''attackMethod'' False;
                attackMethod = (if attackMethod = [] then ''GET'' else attackMethod);
                (bodyParams, err) = getString r ''bodyParams'' False;
                bParams = (if bodyParams \<noteq> [] then bodyParams else []);
                (requestsPerSecond, err) = getInt r ''requestsPerSecond'' True;
                validationErrors = validationErrors @
                  (if err \<noteq> None
                   then [''Invalid or empty value for the requestsPerSecond parameter''] else []);
                (duration, err) = getInt r ''duration'' True;
                validationErrors = validationErrors @
                  (if err \<noteq> None then [''Invalid or empty value for the duration parameter''] else []);
                (requestTimeout, err) = getInt r ''requestTimeout'' True;
                validationErrors = validationErrors @
                  (if err \<noteq> None
                   then [''Invalid or empty value for the requestTimeout parameter''] else []);
                (workers, err) = getInt r ''workers'' True;
                validationErrors = validationErrors @
                  (if err \<noteq> None then [''Invalid or empty value for the workers parameter''] else [])
            in if validationErrors = [] then
                 (let (ignoreInvalidCertificate, err) = getString r ''ignoreInvalidCert'' False;
                      (differentConnections, err) = getString r ''differentConnections'' False
                  in (\<lparr>resp_Status = statusCode, resp_Message = statusMsg,
                       resp_Errors = validationErrors\<rparr>,
                      Some \<lparr>sp_targetURL = targetURL, sp_attackMethod = attackMethod,
                            sp_body = bParams, sp_requestsPerSecond = requestsPerSecond,
                            sp_duration = duration, sp_timeout = requestTimeout,
                            sp_workers = workers,
                            sp_differentConnections =
                              (differentConnections = ''y'' \<or> differentConnections = ''Y''),
                            sp_ignoreInvalidCert =
                              (ignoreInvalidCertificate = ''y'' \<or> ignoreInvalidCertificate = ''Y'')\<rparr>))
               else (\<lparr>resp_Status = -10, resp_Message = ''Validation Errors'',
                      resp_Errors = validationErrors\<rparr>, None))
         else (\<lparr>resp_Status = statusCode, resp_Message = statusMsg, resp_Errors = []\<rparr>, None))"

text \<open>A mandatory integer parameter that \<open>getInt\<close> accepts.\<close>

definition int_param_ok :: "form \<Rightarrow> string \<Rightarrow> bool" where
  "int_param_ok r k \<longleftrightarrow> FormValue r k \<noteq> [] \<and> snd (Atoi (FormValue r k)) = None"

definition params_ok :: "form \<Rightarrow> bool" where
  "params_ok r \<longleftrightarrow> FormValue r ''targetURL'' \<noteq> [] \<and> int_param_ok r ''requestsPerSecond'' \<and>
     int_param_ok r ''duration'' \<and> int_param_ok r ''requestTimeout'' \<and> int_param_ok r ''workers''"

text \<open>A start request with the given rate and duration (strings as sent).\<close>

definition start_form :: "string \<Rightarrow> string \<Rightarrow> form" where
  "start_form rps dur =
     [(''targetURL'', ''http://localhost/''), (''requestsPerSecond'', rps), (''duration'', dur),
      (''requestTimeout'', ''30''), (''workers'', ''8'')]"

section \<open>Properties of strconv\<close>

lemmas atoi_defs = Atoi_def ParseInt_def ParseUint_def is_digit_def digit_val_def maxUint64_def
  uint64_cutoff_def

lemma digit_char_cases:
  assumes "k < 10"
  shows "is_digit (digit_chars ! k) \<and> digit_val (digit_chars ! k) = k"
proof -
  from assms have "k = 0 \<or> k = 1 \<or> k = 2 \<or> k = 3 \<or> k = 4 \<or> k = 5 \<or> k = 6 \<or> k = 7 \<or> k = 8 \<or> k = 9"
    by arith
  then show ?thesis by (elim disjE) (simp_all add: digit_chars_def is_digit_def digit_val_def)
qed

lemma is_digit_val: "is_digit c \<Longrightarrow> digit_val c < 10"
  unfolding is_digit_def digit_val_def by linarith

lemma atoi_fast_loop_bounds:
  "atoi_fast_loop cs n = Some m \<Longrightarrow> 0 \<le> n \<Longrightarrow> n * 10 ^ length cs \<le> m \<and> m < (n + 1) * 10 ^ length cs"
proof (induction cs arbitrary: n)
  case Nil
  then show ?case by simp
next
  case (Cons c cs)
  from Cons.prems have dg: "is_digit c" and rest: "atoi_fast_loop cs (n * 10 + int (digit_val c)) = Some m"
    by (auto split: if_splits)
  from dg have d: "digit_val c < 10" by (rule is_digit_val)
  from Cons.IH [OF rest] Cons.prems(2) have
    lo: "(n * 10 + int (digit_val c)) * 10 ^ length cs \<le> m" and
    hi: "m < (n * 10 + int (digit_val c) + 1) * 10 ^ length cs" by auto
  have "n * 10 ^ length (c # cs) \<le> (n * 10 + int (digit_val c)) * 10 ^ length cs"
    by (simp add: algebra_simps)
  moreover have "(n * 10 + int (digit_val c) + 1) * 10 ^ length cs \<le> (n + 1) * 10 ^ length (c # cs)"
    using d by (simp add: algebra_simps mult_right_mono)
  ultimately show ?case using lo hi by linarith
qed

lemma parseUint_loop_fast:
  "(n + 1) * 10 ^ length cs \<le> uint64_cutoff \<Longrightarrow>
   parseUint_loop cs n =
     (case atoi_fast_loop cs (int n) of None \<Rightarrow> (0, Some ErrSyntax) | Some m \<Rightarrow> (nat m, None))"
proof (induction cs arbitrary: n)
  case Nil
  then show ?case by simp
next
  case (Cons c cs)
  show ?case
  proof (cases "is_digit c")
    case False
    then show ?thesis by simp
  next
    case True
    then have d: "digit_val c < 10" by (rule is_digit_val)
    have p: "1 \<le> (10::nat) ^ length cs" by simp
    from Cons.prems have b: "(n + 1) * 10 * 10 ^ length cs \<le> uint64_cutoff"
      by (simp only: length_Cons power_Suc mult.assoc)
    then have "(n + 1) * 10 \<le> uint64_cutoff" using p
      by (metis le_trans mult.right_neutral mult_le_mono2)
    then have lt: "n < uint64_cutoff" and n1: "\<not> maxUint64 < n * 10 + digit_val c"
      using d by (auto simp: uint64_cutoff_def maxUint64_def)
    have "(n * 10 + digit_val c + 1) * 10 ^ length cs \<le> (n + 1) * 10 * 10 ^ length cs"
      using d by (intro mult_right_mono) auto
    with b have "(n * 10 + digit_val c + 1) * 10 ^ length cs \<le> uint64_cutoff" by linarith
    from Cons.IH [OF this] True lt n1 show ?thesis by (simp add: Let_def)
  qed
qed

lemma Atoi_ParseInt: "Atoi s = ParseInt s"
proof (cases "0 < length s \<and> length s < 19")
  case False
  then show ?thesis unfolding Atoi_def by (rule if_not_P)
next
  case True
  define s' where "s' = (if hd s = CHR ''-'' \<or> hd s = CHR ''+'' then tl s else s)"
  have ne: "s \<noteq> []" using True by auto
  have len: "length s' \<le> 18" using True by (auto simp: s'_def)
  have "(10::nat) ^ length s' \<le> 10 ^ 18" using len by (intro power_increasing) simp_all
  then have cut: "(0 + 1) * 10 ^ length s' \<le> uint64_cutoff" by (simp add: uint64_cutoff_def maxUint64_def)
  have s'': "(if hd s = CHR ''+'' \<or> hd s = CHR ''-'' then tl s else s) = s'" by (auto simp: s'_def)
  show ?thesis
  proof (cases "atoi_fast_loop s' 0")
    case None
    then show ?thesis using True ne parseUint_loop_fast [OF cut]
      by (auto simp: Atoi_def ParseInt_def ParseUint_def s'' Let_def simp flip: s'_def)
  next
    case (Some m)
    from atoi_fast_loop_bounds [OF Some] have m: "0 \<le> m" "m < 10 ^ length s'" by auto
    have "(10::int) ^ length s' \<le> 10 ^ 18" using len by (intro power_increasing) simp_all
    with m have m63: "nat m < 2 ^ 63" by (simp add: nat_less_iff)
    show ?thesis using True ne Some parseUint_loop_fast [OF cut] m m63
      by (auto simp: Atoi_def ParseInt_def ParseUint_def s'' Let_def simp flip: s'_def)
  qed
qed

lemma parseUint_loop_append:
  "parseUint_loop xs n = (m, None) \<Longrightarrow> parseUint_loop (xs @ ys) n = parseUint_loop ys m"
  by (induction xs arbitrary: n) (auto simp: Let_def split: if_splits)

lemma parseUint_dec_digits:
  "k \<le> maxUint64 \<Longrightarrow> parseUint_loop (dec_digits k) 0 = (k, None)"
proof (induction k rule: dec_digits.induct)
  case (1 k)
  show ?case
  proof (cases "k < 10")
    case True
    with digit_char_cases [OF True] show ?thesis
      by (simp add: dec_digits.simps uint64_cutoff_def maxUint64_def)
  next
    case False
    have m: "k mod 10 < 10" by simp
    from "1.prems" have "k div 10 \<le> maxUint64" by simp
    from "1.IH" [OF False this] have ih: "parseUint_loop (dec_digits (k div 10)) 0 = (k div 10, None)" .
    from "1.prems" have lt: "k div 10 < uint64_cutoff" by (simp add: uint64_cutoff_def)
    have eq: "k div 10 * 10 + k mod 10 = k" by simp
    from False have d: "dec_digits k = dec_digits (k div 10) @ [digit_chars ! (k mod 10)]"
      by (simp add: dec_digits.simps)
    show ?thesis using parseUint_loop_append [OF ih] digit_char_cases [OF m] lt eq "1.prems"
      by (simp add: d Let_def)
  qed
qed

lemma dec_digits_hd: "\<exists>c cs. dec_digits k = c # cs \<and> is_digit c"
proof (induction k rule: dec_digits.induct)
  case (1 k)
  show ?case
  proof (cases "k < 10")
    case True
    with digit_char_cases [OF True] show ?thesis by (simp add: dec_digits.simps)
  next
    case False
    with "1.IH" show ?thesis by (auto simp: dec_digits.simps [of k])
  qed
qed

lemma ParseInt_Itoa:
  assumes "- (2 ^ 63) \<le> n" and "n < 2 ^ 63"
  shows "ParseInt (Itoa n) = (n, None)"
proof -
  obtain c cs where dd: "dec_digits (nat \<bar>n\<bar>) = c # cs" and dg: "is_digit c"
    using dec_digits_hd by blast
  from dg have nc: "c \<noteq> CHR ''-'' \<and> c \<noteq> CHR ''+''" by (auto simp: is_digit_def)
  have "nat \<bar>n\<bar> \<le> maxUint64" using assms by (simp add: maxUint64_def nat_le_iff)
  from parseUint_dec_digits [OF this] have p: "parseUint_loop (c # cs) 0 = (nat \<bar>n\<bar>, None)"
    by (simp add: dd)
  show ?thesis
  proof (cases "n < 0")
    case True
    then have "nat (- n) \<le> 2 ^ 63" using assms by (simp add: nat_le_iff)
    with True p dd show ?thesis by (simp add: Itoa_def ParseInt_def ParseUint_def)
  next
    case False
    then have "nat n < 2 ^ 63" using assms by (simp add: nat_less_iff)
    with False p dd nc show ?thesis by (simp add: Itoa_def ParseInt_def ParseUint_def)
  qed
qed

section \<open>Properties of the handler\<close>

lemma getInt_ok: "snd (getInt r k True) = None \<longleftrightarrow> int_param_ok r k"
  by (auto simp: getInt_def int_param_ok_def Let_def split: prod.splits)

lemma getInt_val: "fst (getInt r k True) = (if FormValue r k = [] then 0 else fst (Atoi (FormValue r k)))"
  by (auto simp: getInt_def Let_def split: prod.splits)

lemma getString_ok: "snd (getString r k True) = None \<longleftrightarrow> FormValue r k \<noteq> []"
  by (simp add: getString_def Let_def)






text \<open>C18: the handler spawns a runner exactly when no run is in progress and
  the target and the four integer parameters are present and parse.\<close>

theorem StartAttackHandler_spawns:
  "snd (StartAttackHandler st r) \<noteq> None \<longleftrightarrow> st \<noteq> AttackStatusCodeInProgress \<and> params_ok r"
  by (simp add: StartAttackHandler_def params_ok_def Let_def split_beta getInt_ok getString_ok
           del: not_None_eq)

text \<open>An accepted request is answered OK with no errors, and the runner
  gets the parsed rate and duration, whatever their sign: validation only
  checks that they parse.\<close>

theorem StartAttackHandler_accepts:
  assumes "st \<noteq> AttackStatusCodeInProgress" and "params_ok r"
  shows "\<exists>p. StartAttackHandler st r =
               (\<lparr>resp_Status = ResponseStatus_OK, resp_Message = ''OK'', resp_Errors = []\<rparr>, Some p) \<and>
             sp_requestsPerSecond p = fst (Atoi (FormValue r ''requestsPerSecond'')) \<and>
             sp_duration p = fst (Atoi (FormValue r ''duration''))"
proof -
  from assms(2) have ne: "FormValue r ''requestsPerSecond'' \<noteq> []" "FormValue r ''duration'' \<noteq> []"
    by (simp_all add: params_ok_def int_param_ok_def)
  with assms show ?thesis
    by (simp add: StartAttackHandler_def params_ok_def Let_def split_beta getInt_ok getString_ok
                  getInt_val ResponseStatus_OK_def del: not_None_eq)
qed

theorem StartAttackHandler_accepts_witness:
  "0 \<noteq> AttackStatusCodeInProgress \<and> params_ok (start_form ''-1'' ''5'') \<and>
   (\<exists>p. StartAttackHandler 0 (start_form ''-1'' ''5'') =
          (\<lparr>resp_Status = ResponseStatus_OK, resp_Message = ''OK'', resp_Errors = []\<rparr>, Some p) \<and>
        sp_requestsPerSecond p = -1 \<and> sp_duration p = 5)"
proof -
  have h: "(0::int) \<noteq> AttackStatusCodeInProgress" by simp
  have ok: "params_ok (start_form ''-1'' ''5'')"
    by (simp add: params_ok_def int_param_ok_def FormValue_def start_form_def atoi_defs)
  have v: "fst (Atoi (FormValue (start_form ''-1'' ''5'') ''requestsPerSecond'')) = -1"
    "fst (Atoi (FormValue (start_form ''-1'' ''5'') ''duration'')) = 5"
    by (simp_all add: FormValue_def start_form_def atoi_defs)
  show ?thesis using StartAttackHandler_accepts [OF h ok] h ok by (simp add: v)
qed

end
