(* ===== verification/System.thy ===== *)
theory System
  imports Runner Connection Routes
begin

text \<open>
  The whole process as one state: the singleton, every connection's mailbox and
  pumps, the runner goroutines spawned so far, the goroutines blocked sending on
  \<open>Cancel\<close>, the attackers asked to stop, and the panic that ended the process,
  if any. The scheduler's choice is an \<open>event\<close>: which goroutine moves next
  and what its environment supplies (client messages, socket errors, the
  library's results, the map iteration order). \<open>sys_exec\<close> executes one event
  if it is enabled; \<open>reachable\<close> is the least set of states containing the
  start state and closed under enabled events.

  Every case of the coordinator's \<open>select\<close> is one event, atomic with respect
  to the other goroutines; the runner is cut at each access to the singleton
  (theory \<open>Runner\<close>). The ticker's channel is never closed, so the tick case
  always runs with \<open>ok = true\<close>.
\<close>

record sys =
  va :: vegetaAttack
  chans :: "conn_id \<Rightarrow> chan"
  conns :: "conn_id \<Rightarrow> wsconn option"
  runners :: "runner list"
  pending_cancels :: nat
  stopped :: "attacker_id set"
  next_attacker :: attacker_id
  panicked :: "go_panic option"
  responses :: "response list"

definition init_sys :: sys where
  "init_sys =
     \<lparr>va = instance0, chans = (\<lambda>_. newChan), conns = (\<lambda>_. None), runners = [],
      pending_cancels = 0, stopped = {}, next_attacker = 0, panicked = None,
      responses = []\<rparr>"

datatype event =
    EvStart form                         \<comment> \<open>a request to \<open>StartAttackHandler\<close>\<close>
  | EvRunner nat runner_input            \<comment> \<open>runner \<open>i\<close> takes a step\<close>
  | EvFinal nat "conn_id list"           \<comment> \<open>the coordinator receives runner \<open>i\<close>'s summary\<close>
  | EvTick "conn_id list"                \<comment> \<open>a tick of the 100 ms ticker\<close>
  | EvCancel                             \<comment> \<open>the coordinator receives on \<open>Cancel\<close>\<close>
  | EvConnect conn_id                    \<comment> \<open>\<open>GetAttackStatus\<close>: new connection, registered\<close>
  | EvRead conn_id bytes "conn_id list"  \<comment> \<open>\<open>ReadPump\<close> reads a message\<close>
  | EvReadFail conn_id                   \<comment> \<open>\<open>ReadPump\<close>'s read fails: unregister, close\<close>
  | EvWrite conn_id bool                 \<comment> \<open>\<open>WritePump\<close> takes from the mailbox\<close>
  | EvPingFail conn_id                   \<comment> \<open>\<open>WritePump\<close>'s ping write fails\<close>

definition cstate_of :: "sys \<Rightarrow> cstate" where
  "cstate_of s = (va s, chans s)"

definition set_cstate :: "cstate \<Rightarrow> sys \<Rightarrow> sys" where
  "set_cstate c s = s\<lparr>va := fst c, chans := snd c\<rparr>"

text \<open>The outcome of a coordinator case: its new state, or the panic.\<close>

definition commit :: "go_panic + cstate \<Rightarrow> sys \<Rightarrow> sys" where
  "commit r s = (case r of Inl e \<Rightarrow> s\<lparr>panicked := Some e\<rparr> | Inr c \<Rightarrow> set_cstate c s)"

text \<open>An iteration order of the connection map: each registered connection once.\<close>

definition valid_enum :: "conn_id list \<Rightarrow> sys \<Rightarrow> bool" where
  "valid_enum cs s \<longleftrightarrow> distinct cs \<and> set cs = Connections (va s)"

text \<open>The library creates a new attacker for every run.\<close>

definition fresh_ok :: "runner_input \<Rightarrow> sys \<Rightarrow> bool" where
  "fresh_ok inp s = (case inp of Launch a \<Rightarrow> a = next_attacker s | _ \<Rightarrow> True)"

definition bump_attacker :: "runner_input \<Rightarrow> attacker_id \<Rightarrow> attacker_id" where
  "bump_attacker inp n = (case inp of Launch a \<Rightarrow> Suc a | _ \<Rightarrow> n)"

text \<open>
  \<open>StartAttackHandler\<close> (src/vegetaui/routes.go) on a request: it reads the
  status, validates the form, serves its response (recorded in \<open>responses\<close>)
  and, if it accepted the request, spawns \<open>go startAttack(...)\<close> with the
  parsed rate and duration.
\<close>

definition StartAttackHandler_spawn :: "form \<Rightarrow> sys \<Rightarrow> sys" where
  "StartAttackHandler_spawn r s =
     (case StartAttackHandler (getStatus (va s)) r of
        (resp, p) \<Rightarrow>
          (let s' = s\<lparr>responses := responses s @ [resp]\<rparr>
           in case p of
                None \<Rightarrow> s'
              | Some ps \<Rightarrow>
                  s'\<lparr>runners := runners s @ [new_runner (sp_requestsPerSecond ps) (sp_duration ps)]\<rparr>))"

text \<open>
  \<open>GetAttackStatus\<close> (src/vegetaui/websocket.go): a new connection with an
  empty 256-slot mailbox, registered through \<open>instance.Register\<close>, with both
  pumps started.
\<close>

definition GetAttackStatus_connect :: "conn_id \<Rightarrow> sys \<Rightarrow> sys" where
  "GetAttackStatus_connect c s =
     set_cstate (coord_register c (va s, (chans s)(c := newChan)))
       (s\<lparr>conns := (conns s)(c \<mapsto> new_wsconn)\<rparr>)"

fun sys_exec' :: "event \<Rightarrow> sys \<Rightarrow> sys option" where
  "sys_exec' (EvStart r) s = Some (StartAttackHandler_spawn r s)"
| "sys_exec' (EvRunner i inp) s =
     (if i < length (runners s) \<and> fresh_ok inp s
      then (case runner_step inp (runners s ! i) (va s) of
              None \<Rightarrow> None
            | Some (Inl e) \<Rightarrow> Some (s\<lparr>panicked := Some e\<rparr>)
            | Some (Inr (r', v')) \<Rightarrow>
                Some (s\<lparr>va := v', runners := (runners s)[i := r'],
                        next_attacker := bump_attacker inp (next_attacker s)\<rparr>))
      else None)"
| "sys_exec' (EvFinal i cs) s =
     (if i < length (runners s) \<and> r_pc (runners s ! i) = RSend \<and> valid_enum cs s
      then Some (commit (coord_final (r_final (runners s ! i)) cs (cstate_of s))
                   (s\<lparr>runners := (runners s)[i := attack_sent (runners s ! i)]\<rparr>))
      else None)"
| "sys_exec' (EvTick cs) s =
     (if valid_enum cs s then Some (commit (coord_tick True cs (cstate_of s)) s) else None)"
| "sys_exec' EvCancel s =
     (if 0 < pending_cancels s
      then (case coord_cancel True True (cstate_of s) of
              Inl e \<Rightarrow> Some (s\<lparr>panicked := Some e\<rparr>)
            | Inr (c, a) \<Rightarrow>
                Some (set_cstate c (s\<lparr>pending_cancels := pending_cancels s - 1,
                                       stopped := stopped s \<union> set_option a\<rparr>)))
      else None)"
| "sys_exec' (EvConnect c) s =
     (if conns s c = None then Some (GetAttackStatus_connect c s) else None)"
| "sys_exec' (EvRead c m cs) s =
     (case conns s c of
        Some w \<Rightarrow>
          (if ws_reader w \<and> \<not> ws_closed w \<and> length m \<le> maxMessageSize \<and> valid_enum cs s
           then (if readPump_okToSend (va s) m
                 then (case coord_incoming m cs (cstate_of s) of
                         Inl e \<Rightarrow> Some (s\<lparr>panicked := Some e\<rparr>)
                       | Inr (c', spawn) \<Rightarrow>
                           Some (set_cstate c' (s\<lparr>pending_cancels :=
                                   pending_cancels s + (if spawn then 1 else 0)\<rparr>)))
                 else Some s)
           else None)
      | None \<Rightarrow> None)"
| "sys_exec' (EvReadFail c) s =
     (case conns s c of
        Some w \<Rightarrow>
          (if ws_reader w
           then Some (commit (coord_unregister c (cstate_of s))
                        (s\<lparr>conns := (conns s)(c \<mapsto> readPump_exit w)\<rparr>))
           else None)
      | None \<Rightarrow> None)"
| "sys_exec' (EvWrite c ok) s =
     (case conns s c of
        Some w \<Rightarrow>
          (if ws_writer w
           then (case writePump_step ok (chans s c) w of
                   None \<Rightarrow> None
                 | Some (ch', w') \<Rightarrow>
                     Some (s\<lparr>chans := (chans s)(c := ch'), conns := (conns s)(c \<mapsto> w')\<rparr>))
           else None)
      | None \<Rightarrow> None)"
| "sys_exec' (EvPingFail c) s =
     (case conns s c of
        Some w \<Rightarrow>
          (if ws_writer w then Some (s\<lparr>conns := (conns s)(c \<mapsto> writePump_ping_fail w)\<rparr>)
           else None)
      | None \<Rightarrow> None)"

text \<open>After a panic the process is gone: no event is enabled.\<close>

definition sys_exec :: "event \<Rightarrow> sys \<Rightarrow> sys option" where
  "sys_exec e s = (if panicked s = None then sys_exec' e s else None)"

inductive reachable :: "sys \<Rightarrow> bool" where
  start: "reachable init_sys"
| step: "reachable s \<Longrightarrow> sys_exec e s = Some t \<Longrightarrow> reachable t"

text \<open>Running a schedule of events from a state.\<close>

fun run_events :: "event list \<Rightarrow> sys \<Rightarrow> sys option" where
  "run_events [] s = Some s"
| "run_events (e # es) s = (case sys_exec e s of None \<Rightarrow> None | Some t \<Rightarrow> run_events es t)"


section \<open>The system invariant\<close>

text \<open>The program counters a runner can have before any run has created the
  metrics.\<close>

definition pre_launch :: "runner_pc \<Rightarrow> bool" where
  "pre_launch pc \<longleftrightarrow> pc \<in> {RCheck, RSetStatus, RReset, RAttack, RDone}"

text \<open>The registry invariant holds, the status is one of the four codes, and
  \<open>Metrics\<close> is set before any runner reaches the code that dereferences it.\<close>

definition sys_inv :: "sys \<Rightarrow> bool" where
  "sys_inv s \<longleftrightarrow>
     hub_inv (hub_of (cstate_of s)) \<and> valid_status (status (va s)) \<and>
     (Metrics (va s) = None \<longrightarrow> (\<forall>r\<in>set (runners s). pre_launch (r_pc r)))"

text \<open>What every event leads to: the invariant, and no panic of a channel
  operation.\<close>

definition inv_result :: "sys \<Rightarrow> bool" where
  "inv_result t \<longleftrightarrow>
     sys_inv t \<and> panicked t \<noteq> Some SendOnClosedChannel \<and> panicked t \<noteq> Some CloseOfClosedChannel"

section \<open>Schedules\<close>

definition example_summary :: metrics_summary where
  "example_summary =
     \<lparr>ms_duration_ns = 0, ms_success_centi = 0, ms_p50_ns = 0, ms_p95_ns = 0, ms_p99_ns = 0\<rparr>"

text \<open>A subscriber connects, a run is admitted, and \<open>cancelTest\<close> arrives
  before the runner has stored its attacker.\<close>

definition nil_attacker_schedule :: "event list" where
  "nil_attacker_schedule =
     [EvConnect 0, EvStart (start_form ''10'' ''5''), EvRunner 0 Proceed, EvRunner 0 Proceed,
      EvRead 0 MessageCancelTest [0], EvCancel]"

text \<open>Two start requests before either runner has set the status.\<close>

definition double_admission_schedule :: "event list" where
  "double_admission_schedule =
     [EvStart (start_form ''10'' ''5''), EvStart (start_form ''10'' ''5''), EvRunner 0 Proceed, EvRunner 1 Proceed,
      EvRunner 0 Proceed, EvRunner 1 Proceed, EvRunner 0 Proceed, EvRunner 1 Proceed,
      EvRunner 0 (Launch 0), EvRunner 1 (Launch 1)]"

text \<open>A run cancelled by a subscriber and then finished by the engine.\<close>

definition cancel_overwritten_schedule :: "event list" where
  "cancel_overwritten_schedule =
     [EvConnect 0, EvStart (start_form ''10'' ''5''), EvRunner 0 Proceed, EvRunner 0 Proceed, EvRunner 0 Proceed,
      EvRunner 0 (Launch 0), EvRead 0 MessageCancelTest [0], EvCancel, EvRunner 0 StreamEnd,
      EvRunner 0 Proceed, EvRunner 0 Proceed, EvRunner 0 (CloseMetrics example_summary),
      EvFinal 0 [0], EvRunner 0 Proceed]"

text \<open>A run whose cancellation arrives between the runner's final read of the
  status and its conditional write.\<close>

definition cancel_lost_schedule :: "event list" where
  "cancel_lost_schedule =
     [EvConnect 0, EvStart (start_form ''10'' ''5''), EvRunner 0 Proceed, EvRunner 0 Proceed,
      EvRunner 0 Proceed, EvRunner 0 (Launch 0), EvRunner 0 StreamEnd, EvRunner 0 Proceed,
      EvRead 0 MessageCancelTest [0], EvCancel, EvRunner 0 Proceed,
      EvRunner 0 (CloseMetrics example_summary), EvFinal 0 [0], EvRunner 0 Proceed]"

text \<open>A request with a negative rate, which validation accepts, and its runner
  up to the allocation of the result slice.\<close>

definition negative_rate_schedule :: "event list" where
  "negative_rate_schedule =
     [EvStart (start_form ''-1'' ''5''), EvRunner 0 Proceed, EvRunner 0 Proceed,
      EvRunner 0 Proceed, EvRunner 0 (Launch 0)]"

text \<open>Two start requests both answered OK; the second runner starts after the
  first has set the status and returns.\<close>

definition ok_without_run_schedule :: "event list" where
  "ok_without_run_schedule =
     [EvStart (start_form ''10'' ''5''), EvStart (start_form ''10'' ''5''), EvRunner 0 Proceed,
      EvRunner 0 Proceed, EvRunner 1 Proceed]"

text \<open>A state for the closed examples: connection 0 registered with two queued
  messages, and one runner about to reset the counters.\<close>

definition example_sys :: sys where
  "example_sys =
     init_sys\<lparr>va := instance0\<lparr>Connections := {0}\<rparr>,
              chans := (\<lambda>_. newChan)(0 := \<lparr>chan_buf = [''a'', ''b''], chan_closed = False\<rparr>),
              conns := (\<lambda>_. None)(0 \<mapsto> new_wsconn),
              runners := [(new_runner 10 5)\<lparr>r_pc := RReset\<rparr>]\<rparr>"

section \<open>Preservation, event by event\<close>

lemma hub_of_cstate_of: "hub_of (cstate_of s) = \<lparr>hub_conns = Connections (va s), hub_chans = chans s\<rparr>"
  by (simp add: hub_of_def cstate_of_def)

lemma valid_enum_hub: "valid_enum cs s \<longleftrightarrow> distinct cs \<and> set cs = hub_conns (hub_of (cstate_of s))"
  by (simp add: valid_enum_def hub_of_cstate_of)

lemma publish_status_ok:
  assumes "hub_inv (hub_of c)" and "distinct cs" and "set cs = hub_conns (hub_of c)"
  shows "\<exists>h'. publishStatusToOpenSockets st cs c = Inr (with_hub h' c) \<and> hub_inv h'"
proof -
  obtain h' where "publish_loop (json_encode st) cs (hub_of c) = Inr h'" and "hub_inv h'"
    using hub_inv_publish_loop [OF assms] by blast
  then show ?thesis by (auto simp: publishStatusToOpenSockets_def)
qed

lemma set_cstate_with_hub:
  "set_cstate (with_hub h (cstate_of s)) s =
   s\<lparr>va := (va s)\<lparr>Connections := hub_conns h\<rparr>, chans := hub_chans h\<rparr>"
  by (simp add: set_cstate_def with_hub_def cstate_of_def)

lemma sys_inv_with_hub:
  "sys_inv s \<Longrightarrow> hub_inv h \<Longrightarrow> sys_inv (s\<lparr>va := (va s)\<lparr>Connections := hub_conns h\<rparr>, chans := hub_chans h\<rparr>)"
  by (simp add: sys_inv_def hub_of_def cstate_of_def)


lemma runner_step_frame:
  assumes "runner_step inp r v = Some res" and "Metrics v = None \<longrightarrow> pre_launch (r_pc r)"
  shows "(\<exists>r' v'. res = Inr (r', v') \<and> Connections v' = Connections v \<and>
           (valid_status (status v) \<longrightarrow> valid_status (status v')) \<and>
           (Metrics v' = None \<longrightarrow> Metrics v = None \<and> pre_launch (r_pc r')) \<and>
           (Metrics v \<noteq> None \<longrightarrow> Metrics v' \<noteq> None)) \<or>
         res = Inl MakeSliceCapOutOfRange"
  using assms
  by (cases inp; cases "r_pc r")
     (auto simp: pre_launch_def attack_check_def attack_set_in_progress_def attack_reset_def
        attack_launch_def attack_result_def attack_stream_end_def attack_final_read_def
        attack_final_set_def attack_finalize_def attack_defer_def accessor_defs valid_status_def
        Let_def split: option.splits if_splits)

lemma ball_list_update:
  "\<forall>x\<in>set xs. P x \<Longrightarrow> P y \<Longrightarrow> \<forall>x\<in>set (xs[i := y]). P x"
  using set_update_subset_insert [of xs i y] by blast

lemma inv_EvRunner:
  assumes "sys_inv s" and "panicked s = None" and "sys_exec' (EvRunner i inp) s = Some t"
  shows "inv_result t"
proof -
  from assms(3) have i: "i < length (runners s)"
    and st: "runner_step inp (runners s ! i) (va s) \<noteq> None"
    by (auto split: if_splits option.splits)
  have pre: "Metrics (va s) = None \<longrightarrow> pre_launch (r_pc (runners s ! i))"
    using assms(1) i by (auto simp: sys_inv_def)
  obtain res where res: "runner_step inp (runners s ! i) (va s) = Some res" using st by blast
  show ?thesis
  proof (cases "res = Inl MakeSliceCapOutOfRange")
    case True
    with assms(3) i res have "t = s\<lparr>panicked := Some MakeSliceCapOutOfRange\<rparr>"
      by (auto split: if_splits)
    with assms(1) show ?thesis by (simp add: inv_result_def sys_inv_def hub_of_cstate_of)
  next
    case False
  from runner_step_frame [OF res pre] False obtain r' v' where
    r: "res = Inr (r', v')" and conn: "Connections v' = Connections (va s)"
    and vs: "valid_status (status (va s)) \<longrightarrow> valid_status (status v')"
    and mt: "Metrics v' = None \<longrightarrow> Metrics (va s) = None \<and> pre_launch (r_pc r')"
    by auto
  from assms(3) i res r have t: "t = s\<lparr>va := v', runners := (runners s)[i := r'],
                        next_attacker := bump_attacker inp (next_attacker s)\<rparr>"
    by (auto split: if_splits)
  have "Metrics v' = None \<longrightarrow> (\<forall>x\<in>set ((runners s)[i := r']). pre_launch (r_pc x))"
  proof
    assume "Metrics v' = None"
    with mt have "Metrics (va s) = None" and r': "pre_launch (r_pc r')" by auto
    with assms(1) have "\<forall>x\<in>set (runners s). pre_launch (r_pc x)" by (simp add: sys_inv_def)
    from ball_list_update [where P = "\<lambda>x. pre_launch (r_pc x)", OF this r']
    show "\<forall>x\<in>set ((runners s)[i := r']). pre_launch (r_pc x)" .
  qed
  with assms(1,2) conn vs show ?thesis
    by (simp add: t inv_result_def sys_inv_def hub_of_cstate_of)
  qed
qed


lemmas handler_defs [simp] = StartAttackHandler_spawn_def GetAttackStatus_connect_def

lemma inv_EvStart:
  assumes "sys_inv s" and "panicked s = None" and "sys_exec' (EvStart r) s = Some t"
  shows "inv_result t"
  using assms
  by (auto simp: inv_result_def sys_inv_def hub_of_cstate_of new_runner_def pre_launch_def Let_def
           split: prod.splits option.splits)

lemma inv_EvFinal:
  assumes "sys_inv s" and "panicked s = None" and "sys_exec' (EvFinal i cs) s = Some t"
  shows "inv_result t"
proof -
  from assms(3) have i: "i < length (runners s)" and pc: "r_pc (runners s ! i) = RSend"
    and en: "valid_enum cs s"
    and t: "t = commit (coord_final (r_final (runners s ! i)) cs (cstate_of s))
                 (s\<lparr>runners := (runners s)[i := attack_sent (runners s ! i)]\<rparr>)"
    by (auto split: if_splits)
  have m: "Metrics (va s) \<noteq> None"
  proof
    assume "Metrics (va s) = None"
    with assms(1) nth_mem [OF i] have "pre_launch (r_pc (runners s ! i))"
      by (auto simp: sys_inv_def)
    with pc show False by (simp add: pre_launch_def)
  qed
  obtain h' where pub: "coord_final (r_final (runners s ! i)) cs (cstate_of s) = Inr (with_hub h' (cstate_of s))"
    and h': "hub_inv h'"
    using publish_status_ok [of "cstate_of s" cs "r_final (runners s ! i)"] assms(1) en
    by (auto simp: coord_final_def sys_inv_def valid_enum_hub)
  have t2: "t = set_cstate (with_hub h' (cstate_of s))
                 (s\<lparr>runners := (runners s)[i := attack_sent (runners s ! i)]\<rparr>)"
    by (simp only: t pub commit_def sum.case)
  show ?thesis
    using assms(1,2) m h'
    by (auto simp: t2 set_cstate_def with_hub_def cstate_of_def inv_result_def
                  sys_inv_def hub_of_def)
qed

lemma inv_EvTick:
  assumes "sys_inv s" and "panicked s = None" and "sys_exec' (EvTick cs) s = Some t"
  shows "inv_result t"
proof -
  from assms(3) have en: "valid_enum cs s" and t: "t = commit (coord_tick True cs (cstate_of s)) s"
    by (auto split: if_splits)
  show ?thesis
  proof (cases "getStatus (va s) = AttackStatusCodeInProgress")
    case False
    then have "coord_tick True cs (cstate_of s) = Inr (cstate_of s)"
      by (simp add: coord_tick_def cstate_of_def)
    with assms(1,2) show ?thesis
      by (simp add: t commit_def set_cstate_def cstate_of_def inv_result_def)
  next
    case True
    let ?v' = "(va s)\<lparr>elapsed := elapsed (va s) + 1\<rparr>"
    have hv: "hub_of (?v', chans s) = hub_of (cstate_of s)"
      by (simp add: hub_of_def cstate_of_def)
    obtain h' where pub: "publishStatusToOpenSockets (progress_snapshot True ?v') cs (?v', chans s)
                            = Inr (with_hub h' (?v', chans s))" and h': "hub_inv h'"
      using publish_status_ok [of "(?v', chans s)" cs "progress_snapshot True ?v'"] assms(1) en hv
      by (auto simp: sys_inv_def valid_enum_hub)
    have "coord_tick True cs (cstate_of s) = Inr (with_hub h' (?v', chans s))"
      using True pub by (simp add: coord_tick_def cstate_of_def Let_def)
    then have t2: "t = set_cstate (with_hub h' (?v', chans s)) s"
      by (simp only: t commit_def sum.case)
    from assms(1,2) h' show ?thesis
      by (simp add: t2 set_cstate_def with_hub_def inv_result_def sys_inv_def hub_of_def
                    cstate_of_def)
  qed
qed


lemma inv_EvCancel:
  assumes "sys_inv s" and "panicked s = None" and "sys_exec' EvCancel s = Some t"
  shows "inv_result t"
  using assms
  by (auto simp: coord_cancel_def inv_result_def sys_inv_def set_cstate_def cstate_of_def
                 hub_of_def accessor_defs valid_status_def Let_def
           split: if_splits option.splits sum.splits)

lemma hub_inv_new_chan:
  "hub_inv h \<Longrightarrow> hub_inv (h\<lparr>hub_chans := (hub_chans h)(c := newChan)\<rparr>)"
  by (simp add: hub_inv_def newChan_def)

lemma inv_EvConnect:
  assumes "sys_inv s" and "panicked s = None" and "sys_exec' (EvConnect c) s = Some t"
  shows "inv_result t"
proof -
  let ?h = "\<lparr>hub_conns = Connections (va s), hub_chans = (chans s)(c := newChan)\<rparr>"
  from assms(1) have "hub_inv ?h"
    using hub_inv_new_chan [of "hub_of (cstate_of s)" c]
    by (simp add: sys_inv_def hub_of_cstate_of)
  then have "hub_inv (register c ?h)"
    by (rule hub_inv_register) (simp add: newChan_def)
  with assms show ?thesis
    by (auto simp: coord_register_def inv_result_def sys_inv_def set_cstate_def cstate_of_def
                   hub_of_def with_hub_def register_def split: if_splits)
qed

lemma inv_EvRead:
  assumes "sys_inv s" and "panicked s = None" and "sys_exec' (EvRead c m cs) s = Some t"
  shows "inv_result t"
proof -
  from assms(3) obtain w where w: "conns s c = Some w" and en: "valid_enum cs s"
    by (auto split: option.splits if_splits)
  have hs: "hub_inv (hub_of (cstate_of s))" using assms(1) by (simp add: sys_inv_def)
  have "\<exists>h'. publish_loop m cs (hub_of (cstate_of s)) = Inr h' \<and> hub_inv h'"
    using hub_inv_publish_loop [OF hs] en by (simp add: valid_enum_hub)
  then obtain h' where pl: "publish_loop m cs (hub_of (cstate_of s)) = Inr h'" and h': "hub_inv h'"
    by blast
  show ?thesis
  proof (cases "readPump_okToSend (va s) m")
    case False
    with assms w en show ?thesis by (auto simp: inv_result_def split: if_splits)
  next
    case True
    show ?thesis
    proof (cases "is_control m")
      case True
      with assms w en \<open>readPump_okToSend (va s) m\<close> show ?thesis
        by (auto simp: coord_incoming_def inv_result_def sys_inv_def set_cstate_def
                       cstate_of_def hub_of_def split: if_splits)
    next
      case False
      then have "coord_incoming m cs (cstate_of s) = Inr (with_hub h' (cstate_of s), False)"
        by (simp add: coord_incoming_def pl)
      with assms w en \<open>readPump_okToSend (va s) m\<close> h' show ?thesis
        by (auto simp: inv_result_def sys_inv_def set_cstate_def cstate_of_def hub_of_def
                       with_hub_def split: if_splits)
    qed
  qed
qed

lemma inv_EvReadFail:
  assumes "sys_inv s" and "panicked s = None" and "sys_exec' (EvReadFail c) s = Some t"
  shows "inv_result t"
proof -
  from assms(3) obtain w where w: "conns s c = Some w" and r: "ws_reader w"
    by (auto split: option.splits if_splits)
  have hs: "hub_inv (hub_of (cstate_of s))" using assms(1) by (simp add: sys_inv_def)
  obtain h' where u: "unregister c (hub_of (cstate_of s)) = Inr h'" and h': "hub_inv h'"
    using hub_inv_unregister [OF hs, of c] by blast
  have "coord_unregister c (cstate_of s) = Inr (with_hub h' (cstate_of s))"
    by (simp add: coord_unregister_def u)
  with assms w r h' show ?thesis
    by (auto simp: commit_def inv_result_def sys_inv_def set_cstate_def cstate_of_def hub_of_def
                   with_hub_def)
qed

lemma writePump_step_chan:
  "writePump_step ok ch w = Some (ch', w') \<Longrightarrow>
   chan_closed ch' = chan_closed ch \<and> length (chan_buf ch') \<le> length (chan_buf ch)"
  by (auto simp: writePump_step_def split: list.splits if_splits)

lemma inv_EvWrite:
  assumes "sys_inv s" and "panicked s = None" and "sys_exec' (EvWrite c ok) s = Some t"
  shows "inv_result t"
proof -
  from assms(3) obtain w ch' w' where w: "conns s c = Some w" and
    st: "writePump_step ok (chans s c) w = Some (ch', w')" and
    t: "t = s\<lparr>chans := (chans s)(c := ch'), conns := (conns s)(c \<mapsto> w')\<rparr>"
    by (auto split: option.splits if_splits)
  have "hub_inv (hub_of (cstate_of s))" using assms(1) by (simp add: sys_inv_def)
  then have "hub_inv ((hub_of (cstate_of s))\<lparr>hub_chans := (chans s)(c := ch')\<rparr>)"
    using writePump_step_chan [OF st]
    by (auto simp: hub_inv_def hub_of_cstate_of intro: le_trans)
  with assms(1,2) show ?thesis
    by (simp add: t inv_result_def sys_inv_def hub_of_def cstate_of_def)
qed

lemma inv_EvPingFail:
  assumes "sys_inv s" and "panicked s = None" and "sys_exec' (EvPingFail c) s = Some t"
  shows "inv_result t"
  using assms
  by (auto simp: inv_result_def sys_inv_def hub_of_def cstate_of_def split: option.splits if_splits)

lemma inv_init: "inv_result init_sys"
  by (simp add: inv_result_def sys_inv_def init_sys_def instance0_def hub_of_def cstate_of_def
                hub_inv_def newChan_def valid_status_def)

lemma inv_sys_exec:
  assumes "sys_inv s" and "sys_exec e s = Some t"
  shows "inv_result t"
proof -
  from assms(2) have p: "panicked s = None" and ex: "sys_exec' e s = Some t"
    by (auto simp: sys_exec_def split: if_splits)
  show ?thesis
  proof (cases e)
    case (EvStart r) with assms(1) p ex show ?thesis by (simp add: inv_EvStart)
  next
    case (EvRunner i inp) with assms(1) p ex show ?thesis by (simp add: inv_EvRunner)
  next
    case (EvFinal i cs) with assms(1) p ex show ?thesis by (simp add: inv_EvFinal)
  next
    case (EvTick cs) with assms(1) p ex show ?thesis by (simp add: inv_EvTick)
  next
    case EvCancel with assms(1) p ex show ?thesis by (simp add: inv_EvCancel)
  next
    case (EvConnect c) with assms(1) p ex show ?thesis by (simp add: inv_EvConnect)
  next
    case (EvRead c m cs) with assms(1) p ex show ?thesis by (simp add: inv_EvRead)
  next
    case (EvReadFail c) with assms(1) p ex show ?thesis by (simp add: inv_EvReadFail)
  next
    case (EvWrite c ok) with assms(1) p ex show ?thesis by (simp add: inv_EvWrite)
  next
    case (EvPingFail c) with assms(1) p ex show ?thesis by (simp add: inv_EvPingFail)
  qed
qed

lemma reachable_inv_result: "reachable s \<Longrightarrow> inv_result s"
proof (induction rule: reachable.induct)
  case start
  show ?case by (rule inv_init)
next
  case (step s e t)
  from step.IH have "sys_inv s" by (simp add: inv_result_def)
  from this step.hyps(2) show ?case by (rule inv_sys_exec)
qed

text \<open>C1: in every reachable state the registry invariant holds (registered
  mailboxes open and within capacity), the status is one of the four codes,
  and the process has not panicked on a channel: the only panic the program can
  reach is the nil dereference of \<open>getCurrentAttacker().Stop()\<close>.\<close>

theorem reachable_no_channel_panic:
  assumes "reachable s"
  shows "hub_inv (hub_of (cstate_of s)) \<and> valid_status (status (va s)) \<and>
         panicked s \<noteq> Some SendOnClosedChannel \<and> panicked s \<noteq> Some CloseOfClosedChannel"
  using reachable_inv_result [OF assms] by (auto simp: inv_result_def sys_inv_def)

section \<open>Running schedules\<close>

lemma reachable_run_events:
  "reachable s \<Longrightarrow> run_events es s = Some t \<Longrightarrow> reachable t"
proof (induction es arbitrary: s)
  case Nil
  then show ?case by simp
next
  case (Cons e es)
  then obtain u where u: "sys_exec e s = Some u" and rest: "run_events es u = Some t"
    by (auto split: option.splits)
  from Cons.prems(1) u have "reachable u" by (rule reachable.step)
  from this rest show ?case by (rule Cons.IH)
qed

lemmas exec_defs = sys_exec_def StartAttackHandler_spawn_def GetAttackStatus_connect_def
  StartAttackHandler_def getString_def getInt_def FormValue_def start_form_def atoi_defs
  results_cap_def init_sys_def instance0_def new_runner_def
  attack_check_def attack_set_in_progress_def attack_reset_def attack_launch_def attack_result_def
  attack_stream_end_def attack_final_read_def attack_final_set_def attack_finalize_def attack_sent_def
  attack_defer_def accessor_defs cstate_of_def set_cstate_def commit_def valid_enum_def fresh_ok_def
  bump_attacker_def hub_of_def with_hub_def register_def newChan_def new_wsconn_def maxMessageSize_def
  coord_cancel_def coord_incoming_def coord_register_def readPump_okToSend_def is_control_def
  MessageCancelTest_def MessageGetTestStatus_def coord_final_def publishStatusToOpenSockets_def
  try_send_def sendBufferSize_def final_status_def getStatusMsg_def status_msg_defs Let_def

lemma reachable_of_schedule:
  "run_events es init_sys = Some t \<Longrightarrow> reachable t"
  using reachable.start by (rule reachable_run_events)

section \<open>Races of the admission and cancellation paths\<close>

lemma nil_attacker_run:
  "map_option panicked (run_events nil_attacker_schedule init_sys) = Some (Some NilPointerDereference)"
  by (simp add: nil_attacker_schedule_def exec_defs)

text \<open>C5: a \<open>cancelTest\<close> that reaches the coordinator after the runner has set
  the status to InProgress but before it has stored its attacker crashes the
  process: on the first run the stored attacker is nil and \<open>Stop\<close>
  dereferences it.\<close>

theorem nil_attacker_panic_reachable:
  "\<exists>s. reachable s \<and> panicked s = Some NilPointerDereference"
proof -
  obtain s where run: "run_events nil_attacker_schedule init_sys = Some s"
    and p: "panicked s = Some NilPointerDereference"
    using nil_attacker_run by (auto split: option.splits)
  from run have "reachable s" by (rule reachable_of_schedule)
  with p show ?thesis by blast
qed

lemma double_admission_run:
  "map_option (\<lambda>s. (map r_pc (runners s), map r_attacker (runners s), status (va s), panicked s))
     (run_events double_admission_schedule init_sys) =
   Some ([RConsume, RConsume], [Some 0, Some 1], AttackStatusCodeInProgress, None)"
  by (simp add: double_admission_schedule_def exec_defs)

text \<open>C2: the admission check of \<open>startAttack\<close> reads the status and sets it in
  two separate steps, so two runners started together can both pass it and
  drive two attacks at once.\<close>

theorem double_admission_reachable:
  "\<exists>s. reachable s \<and> panicked s = None \<and> length (runners s) = 2 \<and>
       r_pc (runners s ! 0) = RConsume \<and> r_pc (runners s ! 1) = RConsume \<and>
       r_attacker (runners s ! 0) \<noteq> r_attacker (runners s ! 1)"
proof -
  obtain s where run: "run_events double_admission_schedule init_sys = Some s"
    and p: "(map r_pc (runners s), map r_attacker (runners s), status (va s), panicked s) =
            ([RConsume, RConsume], [Some 0, Some 1], AttackStatusCodeInProgress, None)"
    using double_admission_run by (auto split: option.splits)
  from run have "reachable s" by (rule reachable_of_schedule)
  moreover from p have m1: "map r_pc (runners s) = [RConsume, RConsume]"
    and m2: "map r_attacker (runners s) = [Some 0, Some 1]" and "panicked s = None"
    by simp_all
  moreover from m1 obtain a b where rs: "runners s = [a, b]"
    by (auto simp: map_eq_Cons_conv)
  ultimately show ?thesis using m1 m2 by (auto simp: rs)
qed

lemma cancel_overwritten_run:
  "map_option (\<lambda>s. (status (va s), lts_status (FinalMetrics (va s)), stopped s, map r_pc (runners s), panicked s))
     (run_events cancel_overwritten_schedule init_sys) =
   Some (AttackStatusCodeCompleted, ''Cancelled'', {0}, [RDone], None)"
  by (simp add: cancel_overwritten_schedule_def exec_defs)

text \<open>C3: cancellation is not sticky. After a run is cancelled by a subscriber
  (its attacker stopped, its stored summary saying Cancelled), the deferred
  \<open>setStatus(AttackStatusCodeCompleted)\<close> of \<open>startAttack\<close> leaves the status
  Completed.\<close>

theorem cancelled_run_ends_completed:
  "\<exists>s. reachable s \<and> panicked s = None \<and> 0 \<in> stopped s \<and> map r_pc (runners s) = [RDone] \<and>
       lts_status (FinalMetrics (va s)) = ''Cancelled'' \<and> status (va s) = AttackStatusCodeCompleted"
proof -
  obtain s where run: "run_events cancel_overwritten_schedule init_sys = Some s"
    and props: "(status (va s), lts_status (FinalMetrics (va s)), stopped s, map r_pc (runners s), panicked s)
               = (AttackStatusCodeCompleted, ''Cancelled'', {0}, [RDone], None)"
    using cancel_overwritten_run by (auto split: option.splits)
  from run have "reachable s" by (rule reachable_of_schedule)
  with props show ?thesis by auto
qed

lemma cancel_lost_run:
  "map_option (\<lambda>s. (status (va s), lts_status (FinalMetrics (va s)), stopped s, map r_pc (runners s), panicked s))
     (run_events cancel_lost_schedule init_sys) =
   Some (AttackStatusCodeCompleted, ''Completed'', {0}, [RDone], None)"
  by (simp add: cancel_lost_schedule_def exec_defs)

text \<open>C4: a cancellation that arrives after the runner has read the status
  InProgress at the end of the stream, and before it writes Completed, is lost
  without trace: the attacker was stopped, yet both the status and the stored
  summary say Completed.\<close>

theorem cancel_lost_in_final_window:
  "\<exists>s. reachable s \<and> panicked s = None \<and> 0 \<in> stopped s \<and> map r_pc (runners s) = [RDone] \<and>
       lts_status (FinalMetrics (va s)) = ''Completed'' \<and> status (va s) = AttackStatusCodeCompleted"
proof -
  obtain s where run: "run_events cancel_lost_schedule init_sys = Some s"
    and props: "(status (va s), lts_status (FinalMetrics (va s)), stopped s, map r_pc (runners s), panicked s)
               = (AttackStatusCodeCompleted, ''Completed'', {0}, [RDone], None)"
    using cancel_lost_run by (auto split: option.splits)
  from run have "reachable s" by (rule reachable_of_schedule)
  with props show ?thesis by auto
qed

lemma negative_rate_run:
  "map_option (\<lambda>s. (panicked s, responses s)) (run_events negative_rate_schedule init_sys) =
   Some (Some MakeSliceCapOutOfRange,
         [\<lparr>resp_Status = ResponseStatus_OK, resp_Message = ''OK'', resp_Errors = []\<rparr>])"
  by (simp add: negative_rate_schedule_def exec_defs ResponseStatus_OK_def)

text \<open>C6: validation accepts a negative rate, and the runner it spawns crashes
  the whole process: \<open>make(vegeta.Results, 0, requestsPerSecond*duration)\<close>
  panics on the negative capacity, after the handler has answered OK.\<close>

theorem negative_rate_panic_reachable:
  "\<exists>s. reachable s \<and> panicked s = Some MakeSliceCapOutOfRange \<and>
       responses s = [\<lparr>resp_Status = ResponseStatus_OK, resp_Message = ''OK'', resp_Errors = []\<rparr>]"
proof -
  obtain s where run: "run_events negative_rate_schedule init_sys = Some s"
    and p: "(panicked s, responses s) = (Some MakeSliceCapOutOfRange,
              [\<lparr>resp_Status = ResponseStatus_OK, resp_Message = ''OK'', resp_Errors = []\<rparr>])"
    using negative_rate_run by (auto split: option.splits)
  from run have "reachable s" by (rule reachable_of_schedule)
  with p show ?thesis by auto
qed

lemma ok_without_run_run:
  "map_option (\<lambda>s. (map r_pc (runners s), map resp_Message (responses s), panicked s))
     (run_events ok_without_run_schedule init_sys) =
   Some ([RReset, RDone], [''OK'', ''OK''], None)"
  by (simp add: ok_without_run_schedule_def exec_defs)

text \<open>C19: \<open>StartAttackHandler\<close> answers OK without knowing whether the run
  will happen: two requests are both answered OK while the second runner finds
  the first one's run in progress and returns without running.\<close>

theorem ok_response_without_run:
  "\<exists>s. reachable s \<and> panicked s = None \<and> map resp_Message (responses s) = [''OK'', ''OK''] \<and>
       map r_pc (runners s) = [RReset, RDone]"
proof -
  obtain s where run: "run_events ok_without_run_schedule init_sys = Some s"
    and p: "(map r_pc (runners s), map resp_Message (responses s), panicked s) =
            ([RReset, RDone], [''OK'', ''OK''], None)"
    using ok_without_run_run by (auto split: option.splits)
  from run have "reachable s" by (rule reachable_of_schedule)
  with p show ?thesis by auto
qed

section \<open>Subscribers\<close>

text \<open>C32: an unrecognised client message changes nothing: the read pump drops
  it before it reaches the coordinator, so no broadcast follows and no state
  changes.\<close>

theorem read_unrecognized_noop:
  assumes "sys_exec (EvRead c m cs) s = Some t" and "\<not> is_control m"
  shows "t = s"
  using assms
  by (auto simp: sys_exec_def readPump_okToSend_eq split: option.splits if_splits)

theorem read_unrecognized_noop_witness:
  "sys_exec (EvRead 0 ''hello'' [0]) example_sys = Some example_sys \<and> \<not> is_control ''hello''"
proof -
  have m: "\<not> is_control ''hello''"
    by (simp add: is_control_def MessageCancelTest_def MessageGetTestStatus_def)
  have e: "sys_exec (EvRead 0 ''hello'' [0]) example_sys = Some example_sys"
    by (simp add: sys_exec_def example_sys_def init_sys_def instance0_def new_wsconn_def
                  valid_enum_def readPump_okToSend_eq m maxMessageSize_def)
  from read_unrecognized_noop [OF e m] e m show ?thesis by simp
qed

lemma writePump_drains_list:
  assumes "panicked s = None" and "conns s c = Some w" and "ws_writer w"
    and "chan_buf (chans s c) = xs"
  shows "\<exists>t. run_events (replicate (length xs) (EvWrite c True)) s = Some t \<and>
             conns t c = Some (w\<lparr>ws_delivered := ws_delivered w @ xs\<rparr>) \<and>
             chan_buf (chans t c) = []"
  using assms
proof (induction xs arbitrary: s w)
  case Nil
  then have "w\<lparr>ws_delivered := ws_delivered w\<rparr> = w" by simp
  with Nil show ?case by simp
next
  case (Cons m rest)
  let ?w1 = "w\<lparr>ws_delivered := ws_delivered w @ [m]\<rparr>"
  let ?s1 = "s\<lparr>chans := (chans s)(c := (chans s c)\<lparr>chan_buf := rest\<rparr>), conns := (conns s)(c \<mapsto> ?w1)\<rparr>"
  have step: "sys_exec (EvWrite c True) s = Some ?s1"
    using Cons.prems writePump_step_deliver [of "chans s c" m rest w]
    by (simp add: sys_exec_def)
  obtain t where run: "run_events (replicate (length rest) (EvWrite c True)) ?s1 = Some t"
    and ct: "conns t c = Some (?w1\<lparr>ws_delivered := ws_delivered ?w1 @ rest\<rparr>)"
    and bt: "chan_buf (chans t c) = []"
    using Cons.IH [of ?s1 ?w1] Cons.prems by auto
  from step run have "run_events (replicate (length (m # rest)) (EvWrite c True)) s = Some t"
    by simp
  with ct bt show ?case by auto
qed

text \<open>C14: a connection whose writes succeed drains its mailbox: as many write
  steps as there are queued messages deliver them all, in queue order.\<close>

theorem writePump_drains:
  assumes "panicked s = None" and "conns s c = Some w" and "ws_writer w"
  shows "\<exists>t. run_events (replicate (length (chan_buf (chans s c))) (EvWrite c True)) s = Some t \<and>
             conns t c = Some (w\<lparr>ws_delivered := ws_delivered w @ chan_buf (chans s c)\<rparr>) \<and>
             chan_buf (chans t c) = []"
  using writePump_drains_list [OF assms refl] .

theorem writePump_drains_witness:
  "\<exists>t. run_events [EvWrite 0 True, EvWrite 0 True] example_sys = Some t \<and>
       conns t 0 = Some (new_wsconn\<lparr>ws_delivered := [''a'', ''b'']\<rparr>) \<and> chan_buf (chans t 0) = []"
proof -
  have p: "panicked example_sys = None" and c: "conns example_sys 0 = Some new_wsconn"
    and w: "ws_writer new_wsconn" and b: "chan_buf (chans example_sys 0) = [''a'', ''b'']"
    by (simp_all add: example_sys_def init_sys_def new_wsconn_def)
  have n: "ws_delivered new_wsconn = []" by (simp add: new_wsconn_def)
  show ?thesis using writePump_drains [OF p c w] b n by (simp add: numeral_2_eq_2)
qed

lemma commit_chans:
  "chans (commit r s) = (case r of Inl e \<Rightarrow> chans s | Inr x \<Rightarrow> snd x)"
  "conns (commit r s) = conns s"
  by (simp_all add: commit_def set_cstate_def split: sum.splits)

lemma delivery_order_final:
  assumes "sys_exec' (EvFinal i cs) s = Some t" and "conns s c = Some w" and "conns t c = Some w'"
  shows "prefix (ws_delivered w @ chan_buf (chans s c)) (ws_delivered w' @ chan_buf (chans t c))"
proof -
  from assms(1) have d: "distinct cs" and t: "t = commit (coord_final (r_final (runners s ! i)) cs (cstate_of s))
               (s\<lparr>runners := (runners s)[i := attack_sent (runners s ! i)]\<rparr>)"
    by (auto simp: valid_enum_def split: if_splits)
  show ?thesis
  proof (cases "coord_final (r_final (runners s ! i)) cs (cstate_of s)")
    case (Inl x)
    with t assms(2,3) show ?thesis by (simp add: commit_chans)
  next
    case (Inr y)
    with publish_status_prefix [OF d, of _ "cstate_of s" y c] have
      "prefix (chan_buf (chans s c)) (chan_buf (snd y c))"
      by (simp add: coord_final_def cstate_of_def)
    with Inr t assms(2,3) show ?thesis by (simp add: commit_chans)
  qed
qed

lemma delivery_order_read:
  assumes "sys_exec' (EvRead c' m cs) s = Some t" and "conns s c = Some w" and "conns t c = Some w'"
  shows "prefix (ws_delivered w @ chan_buf (chans s c)) (ws_delivered w' @ chan_buf (chans t c))"
  using assms
  by (auto simp: set_cstate_def coord_incoming_def with_hub_def valid_enum_def cstate_of_def
                 hub_of_def intro: publish_loop_prefix [where h = "\<lparr>hub_conns = _, hub_chans = chans s\<rparr>", simplified]
           split: if_splits sum.splits option.splits)

text \<open>C13: no step reorders or loses what a live subscriber has been sent: the
  messages it has received followed by those in its mailbox only grow by
  extension, as long as its write pump is alive.\<close>

theorem delivery_order_step:
  assumes "sys_exec e s = Some t" and "conns s c = Some w" and "conns t c = Some w'"
    and "ws_writer w'"
  shows "prefix (ws_delivered w @ chan_buf (chans s c)) (ws_delivered w' @ chan_buf (chans t c))"
proof -
  from assms(1) have ex: "sys_exec' e s = Some t" by (simp add: sys_exec_def split: if_splits)
  show ?thesis
  proof (cases e)
    case (EvStart r)
    with ex assms(2,3) show ?thesis by (auto simp: Let_def split: prod.splits option.splits)
  next
    case (EvRunner i inp)
    with ex assms(2,3) show ?thesis by (auto split: if_splits option.splits sum.splits)
  next
    case (EvFinal i cs)
    with ex have "sys_exec' (EvFinal i cs) s = Some t" by simp
    from delivery_order_final [OF this assms(2,3)] show ?thesis .
  next
    case (EvTick cs)
    with ex assms(2,3) show ?thesis
      by (auto simp: commit_chans valid_enum_def cstate_of_def dest: tick_prefix
               split: if_splits sum.splits)
  next
    case EvCancel
    with ex assms(2,3) show ?thesis
      by (auto simp: set_cstate_def coord_cancel_def cstate_of_def Let_def
               split: if_splits sum.splits option.splits)
  next
    case (EvConnect c')
    with ex assms(2,3) show ?thesis
      by (auto simp: set_cstate_def coord_register_def with_hub_def register_def hub_of_def
               split: if_splits)
  next
    case (EvRead c' m cs)
    with ex have "sys_exec' (EvRead c' m cs) s = Some t" by simp
    from delivery_order_read [OF this assms(2,3)] show ?thesis .
  next
    case (EvReadFail c')
    with ex assms(2,3) show ?thesis
      by (auto simp: commit_chans coord_unregister_def unregister_def close_chan_def with_hub_def
                     hub_of_def cstate_of_def readPump_exit_def
               split: if_splits sum.splits option.splits)
  next
    case (EvWrite c' ok)
    with ex assms(2,3,4) show ?thesis
      by (auto simp: writePump_step_def split: if_splits option.splits list.splits)
  next
    case (EvPingFail c')
    with ex assms(2,3,4) show ?thesis
      by (auto simp: writePump_ping_fail_def split: if_splits option.splits)
  qed
qed

theorem delivery_order_step_witness:
  "\<exists>t w'. sys_exec (EvWrite 0 True) example_sys = Some t \<and> conns t 0 = Some w' \<and> ws_writer w' \<and>
     prefix (ws_delivered new_wsconn @ chan_buf (chans example_sys 0)) (ws_delivered w' @ chan_buf (chans t 0))"
proof -
  let ?t = "example_sys\<lparr>chans := (chans example_sys)(0 := \<lparr>chan_buf = [''b''], chan_closed = False\<rparr>),
                         conns := (conns example_sys)(0 \<mapsto> new_wsconn\<lparr>ws_delivered := [''a'']\<rparr>)\<rparr>"
  have e: "sys_exec (EvWrite 0 True) example_sys = Some ?t"
    by (simp add: sys_exec_def example_sys_def init_sys_def new_wsconn_def writePump_step_def)
  have c: "conns example_sys 0 = Some new_wsconn" by (simp add: example_sys_def init_sys_def)
  have c': "conns ?t 0 = Some (new_wsconn\<lparr>ws_delivered := [''a'']\<rparr>)" by simp
  have w: "ws_writer (new_wsconn\<lparr>ws_delivered := [''a'']\<rparr>)" by (simp add: new_wsconn_def)
  from delivery_order_step [OF e c c' w] e c' w show ?thesis by blast
qed

section \<open>The expected total of a run\<close>

text \<open>\<open>TotalRequests\<close> changes only in the reset step of a runner: once a
  run has fixed it, no tick, broadcast, cancellation or subscriber event
  changes it.\<close>

theorem totalRequests_frame:
  assumes "sys_exec e s = Some t" and "TotalRequests (va t) \<noteq> TotalRequests (va s)"
  shows "\<exists>i. e = EvRunner i Proceed \<and> i < length (runners s) \<and> r_pc (runners s ! i) = RReset"
proof -
  from assms(1) have ex: "sys_exec' e s = Some t" by (simp add: sys_exec_def split: if_splits)
  show ?thesis
  proof (cases e)
    case (EvRunner i inp)
    with ex assms(2) show ?thesis
      by (auto split: if_splits option.splits sum.splits dest: runner_step_TotalRequests)
  next
    case (EvFinal i cs)
    with ex assms(2) show ?thesis
      by (auto simp: commit_def set_cstate_def coord_final_def cstate_of_def
               dest!: publish_status_va split: if_splits sum.splits)
  next
    case (EvTick cs)
    with ex assms(2) show ?thesis
      by (auto simp: commit_def set_cstate_def coord_tick_def cstate_of_def Let_def
               dest!: publish_status_va split: if_splits sum.splits)
  qed (use ex assms(2) in \<open>auto simp: set_cstate_def coord_cancel_def cstate_of_def Let_def
         coord_register_def with_hub_def coord_incoming_def commit_def coord_unregister_def
         accessor_defs split: if_splits sum.splits option.splits prod.splits\<close>)
qed

theorem totalRequests_frame_witness:
  "\<exists>t. sys_exec (EvRunner 0 Proceed) example_sys = Some t \<and>
       TotalRequests (va t) \<noteq> TotalRequests (va example_sys) \<and>
       (\<exists>i. EvRunner 0 Proceed = EvRunner i Proceed \<and> i < length (runners example_sys) \<and>
            r_pc (runners example_sys ! i) = RReset)"
proof -
  obtain t where e: "sys_exec (EvRunner 0 Proceed) example_sys = Some t"
    and d: "TotalRequests (va t) \<noteq> TotalRequests (va example_sys)"
    by (simp add: sys_exec_def example_sys_def init_sys_def instance0_def fresh_ok_def
                  attack_reset_def totalRequestsOf_eq new_runner_def)
  from totalRequests_frame [OF e d] e d show ?thesis by blast
qed

section \<open>Closed instance of the system invariant\<close>

theorem reachable_no_channel_panic_witness:
  "hub_inv (hub_of (cstate_of init_sys)) \<and> valid_status (status (va init_sys)) \<and>
   panicked init_sys \<noteq> Some SendOnClosedChannel \<and> panicked init_sys \<noteq> Some CloseOfClosedChannel"
  using reachable_no_channel_panic [OF reachable.start] .

end
