(* ===== verification/Wire_Decode.thy ===== *)
theory Wire_Decode
  imports Routes "HOL-Library.Monad_Syntax"
begin

text \<open>
  A reader for the status messages of theory \<open>Wire\<close>: what a client's
  \<open>JSON.parse\<close> recovers from the text that \<open>publishStatusToOpenSockets\<close>
  sends, restricted to the layout \<open>json.MarshalIndent\<close> produces for
  \<open>LoadTestStatus\<close>. It is a specification device, not a model of code of the
  repository: the round trip through it shows that the encoding loses nothing.
\<close>

section \<open>Reading JSON text\<close>

definition expect :: "string \<Rightarrow> string \<Rightarrow> string option" where
  "expect p s = (if prefix p s then Some (drop (length p) s) else None)"

definition hex_val :: "char \<Rightarrow> nat" where
  "hex_val c = (if of_char c \<le> (57::nat) then of_char c - 48 else of_char c - 87)"

text \<open>The body of a string literal up to its closing quote, unescaped; the
  rest of the text after the quote.\<close>

fun json_unescape :: "string \<Rightarrow> (string \<times> string) option" where
  "json_unescape [] = None"
| "json_unescape (c # cs) =
     (if c = CHR ''\"'' then Some ([], cs)
      else if c = backslash then
        (case cs of
           [] \<Rightarrow> None
         | d # ds \<Rightarrow>
             (let put = (\<lambda>x. map_option (\<lambda>(u, r). (x # u, r)) (json_unescape ds))
              in if d = CHR ''\"'' then put (CHR ''\"'')
                 else if d = backslash then put backslash
                 else if d = CHR ''n'' then put (CHR 0x0A)
                 else if d = CHR ''r'' then put (CHR 0x0D)
                 else if d = CHR ''t'' then put (CHR 0x09)
                 else if d = CHR ''u'' then
                   (case ds of
                      z1 # z2 # h1 # h2 # rest \<Rightarrow>
                        (if z1 = CHR ''0'' \<and> z2 = CHR ''0''
                         then map_option (\<lambda>(u, r). (char_of (hex_val h1 * 16 + hex_val h2) # u, r))
                                (json_unescape rest)
                         else None)
                    | _ \<Rightarrow> None)
                 else None))
      else map_option (\<lambda>(u, r). (c # u, r)) (json_unescape cs))"

text \<open>A run of decimal digits and the text after it.\<close>

definition read_uint :: "string \<Rightarrow> (nat \<times> string) option" where
  "read_uint s =
     (let ds = takeWhile is_digit s
      in if ds = [] then None else Some (fst (parseUint_loop ds 0), dropWhile is_digit s))"

definition member_key :: "string \<Rightarrow> string" where
  "member_key k = ''  '' @ json_string k @ '': ''"

definition read_str_member :: "string \<Rightarrow> string \<Rightarrow> (string \<times> string) option" where
  "read_str_member k s = do { r \<leftarrow> expect (member_key k @ [CHR ''\"'']) s; json_unescape r }"

definition read_u32_member :: "string \<Rightarrow> string \<Rightarrow> (u32 \<times> string) option" where
  "read_u32_member k s =
     do { r \<leftarrow> expect (member_key k) s; (n, r') \<leftarrow> read_uint r; Some (word_of_nat n, r') }"

definition member_sep :: string where
  "member_sep = [CHR '','', newline]"

definition json_decode :: "bytes \<Rightarrow> LoadTestStatus option" where
  "json_decode s = do {
     r \<leftarrow> expect [CHR ''{'', newline] s;
     (st, r) \<leftarrow> read_str_member ''status'' r;  r \<leftarrow> expect member_sep r;
     (el, r) \<leftarrow> read_u32_member ''elapsed'' r;  r \<leftarrow> expect member_sep r;
     (rc, r) \<leftarrow> read_u32_member ''requestsCompleted'' r;  r \<leftarrow> expect member_sep r;
     (tr, r) \<leftarrow> read_u32_member ''totalRequests'' r;  r \<leftarrow> expect member_sep r;
     (sr, r) \<leftarrow> read_str_member ''successRate'' r;  r \<leftarrow> expect member_sep r;
     (p50, r) \<leftarrow> read_u32_member ''p50'' r;  r \<leftarrow> expect member_sep r;
     (p95, r) \<leftarrow> read_u32_member ''p95'' r;  r \<leftarrow> expect member_sep r;
     (p99, r) \<leftarrow> read_u32_member ''p99'' r;
     r \<leftarrow> expect [newline, CHR ''}''] r;
     if r = [] then Some \<lparr>lts_status = st, lts_elapsed = el, lts_requestsCompleted = rc,
                          lts_totalRequests = tr, lts_successRate = sr, lts_p50 = p50,
                          lts_p95 = p95, lts_p99 = p99\<rparr>
     else None }"

text \<open>The characters \<open>encoding/json\<close> escapes for safe embedding in HTML.\<close>

definition html_special :: "char set" where
  "html_special = {CHR ''<'', CHR ''>'', CHR ''&''}"

section \<open>The round trip\<close>

lemma expect_append [simp]: "expect p (p @ r) = Some r"
  by (simp add: expect_def)

lemma expect_Nil [simp]: "expect [] s = Some s"
  by (simp add: expect_def)

lemma expect_Cons [simp]: "expect (x # p) (x # s) = expect p s"
  by (simp add: expect_def)

lemma hex_char_val:
  assumes "k < 16"
  shows "hex_val (hex_chars ! k) = k"
proof -
  from assms have "k = 0 \<or> k = 1 \<or> k = 2 \<or> k = 3 \<or> k = 4 \<or> k = 5 \<or> k = 6 \<or> k = 7 \<or>
                   k = 8 \<or> k = 9 \<or> k = 10 \<or> k = 11 \<or> k = 12 \<or> k = 13 \<or> k = 14 \<or> k = 15"
    by arith
  then show ?thesis by (elim disjE) (simp_all add: hex_chars_def hex_val_def)
qed

lemma hex_roundtrip:
  "char_of (hex_val (hex_chars ! (of_char c div 16)) * 16 + hex_val (hex_chars ! (of_char c mod 16))) = c"
proof -
  have "of_char c < (256::nat)" by (rule nat_of_char_less_256)
  then have "of_char c div 16 < (16::nat)" by (intro less_mult_imp_div_less) simp
  then have "hex_val (hex_chars ! (of_char c div 16)) * 16 + hex_val (hex_chars ! (of_char c mod 16)) =
             of_char c div 16 * 16 + of_char c mod (16::nat)"
    by (simp add: hex_char_val)
  then show ?thesis by simp
qed

lemma json_unescape_char:
  "json_unescape (json_escape_char c @ r) = map_option (\<lambda>(u, r'). (c # u, r')) (json_unescape r)"
  by (simp add: json_escape_char_def backslash_def hex_roundtrip Let_def split: option.splits)

lemma json_unescape_escaped:
  "json_unescape (concat (map json_escape_char s) @ CHR ''\"'' # r) = Some (s, r)"
  by (induction s) (simp_all add: json_unescape_char)

lemma dec_digits_digits: "\<forall>c\<in>set (dec_digits n). is_digit c"
proof (induction n rule: dec_digits.induct)
  case (1 n)
  show ?case
  proof (cases "n < 10")
    case True
    with digit_char_cases [OF True] show ?thesis by (simp add: dec_digits.simps)
  next
    case False
    have "n mod 10 < 10" by simp
    from digit_char_cases [OF this] "1.IH" [OF False] False show ?thesis
      by (simp add: dec_digits.simps [of n])
  qed
qed

lemma read_uint_dec_digits:
  assumes "n \<le> maxUint64" and "r = [] \<or> \<not> is_digit (hd r)"
  shows "read_uint (dec_digits n @ r) = Some (n, r)"
proof -
  obtain c cs where ne: "dec_digits n = c # cs" using dec_digits_hd by blast
  have tw: "takeWhile is_digit (dec_digits n @ r) = dec_digits n"
    and dw: "dropWhile is_digit (dec_digits n @ r) = r"
    using dec_digits_digits [of n] assms(2) by (cases r; simp add: takeWhile_append2 dropWhile_append2)+
  have "dec_digits n \<noteq> []" by (simp add: ne)
  with parseUint_dec_digits [OF assms(1)] show ?thesis by (simp add: read_uint_def tw dw)
qed

lemma read_str_member_json:
  "read_str_member k (json_member k (json_string v) @ r) = Some (v, r)"
proof -
  have "json_member k (json_string v) @ r =
        (member_key k @ [CHR ''\"'']) @ (concat (map json_escape_char v) @ CHR ''\"'' # r)"
    by (simp add: json_member_def member_key_def json_string_def)
  then show ?thesis
    by (simp only: read_str_member_def expect_append bind.simps json_unescape_escaped)
qed

lemma read_u32_member_json:
  assumes "r = [] \<or> \<not> is_digit (hd r)"
  shows "read_u32_member k (json_member k (format_uint w) @ r) = Some (w, r)"
proof -
  have "unat w < 2 ^ 32"
    using unsigned_less [of w] by simp
  then have "unat w \<le> maxUint64" by (simp add: maxUint64_def)
  have "json_member k (format_uint w) @ r = member_key k @ (dec_digits (unat w) @ r)"
    by (simp add: json_member_def format_uint_def member_key_def)
  with read_uint_dec_digits [OF \<open>unat w \<le> maxUint64\<close> assms] show ?thesis
    by (simp add: read_u32_member_def)
qed

lemma sep_not_digit [simp]: "\<not> is_digit (hd (member_sep @ r))" "\<not> is_digit newline"
  by (simp_all add: member_sep_def newline_def is_digit_def)



lemma hex_chars_safe: "k < 16 \<Longrightarrow> hex_chars ! k \<notin> html_special"
proof -
  assume k: "k < 16"
  have "hex_chars ! k \<in> set hex_chars" using k by (simp add: hex_chars_def nth_mem del: set_simps)
  moreover have "set hex_chars \<inter> html_special = {}" by (simp add: hex_chars_def html_special_def)
  ultimately show ?thesis by blast
qed

lemma json_escape_char_safe: "set (json_escape_char c) \<inter> html_special = {}"
proof -
  have "of_char c < (256::nat)" by (rule nat_of_char_less_256)
  then have "of_char c div 16 < (16::nat)" by (intro less_mult_imp_div_less) simp
  from hex_chars_safe [OF this] hex_chars_safe [of "of_char c mod 16"]
  have h: "hex_chars ! (of_char c div 16) \<notin> html_special"
          "hex_chars ! (of_char c mod 16) \<notin> html_special" by simp_all
  have b: "backslash \<notin> html_special" by (simp add: backslash_def html_special_def)
  show ?thesis
    unfolding json_escape_char_def using h b
    by (simp split: if_split) (simp add: html_special_def)
qed

lemma json_string_safe: "set (json_string s) \<inter> html_special = {}"
  using json_escape_char_safe by (fastforce simp: json_string_def html_special_def)

lemma dec_digits_safe: "set (dec_digits n) \<inter> html_special = {}"
  using dec_digits_digits [of n] by (auto simp: is_digit_def html_special_def)


end
