(* ===== verification/Server.thy ===== *)
theory Server
  imports System Wire_Decode
begin

text \<open>
  The HTTP layer of src/vegetaui: \<open>serveJSON\<close> and the handlers of
  routes.go that the system model does not already hold (\<open>HomeHandler\<close>,
  \<open>GetVegetaResults\<close>, \<open>GetVegetaHistogram\<close> with the histogram of
  \<open>WriteVegetaHistogramResults\<close> in vegeta.go), the flags, host string and
  route table of main.go, and \<open>serve_request\<close>, which dispatches one request
  through the route table to its handler and composes the handlers of theory
  \<open>System\<close> with the others. Rendering (the page template, the plot and
  histogram reporters of the vegeta library) and the static file server are
  inputs.
\<close>

section \<open>serveJSON\<close>

text \<open>What the handler writes: the status code, the \<open>Content-Type\<close> header
  and the body.\<close>

record http_reply =
  reply_code :: nat
  reply_contentType :: "string option"
  reply_body :: bytes

definition StatusOK :: nat where
  "StatusOK = 200"

definition contentTypeJSON :: string where
  "contentTypeJSON = ''application/json; charset=UTF-8''"

text \<open>\<open>json.NewEncoder(buf).Encode(&wrapper)\<close> for the anonymous struct of
  \<open>serveJSON\<close>: compact JSON of the fields in order, \<open>Errors\<close> left out when
  the slice is empty (\<open>omitempty\<close>), \<open>Data\<close> left out since every caller
  passes \<open>nil\<close>, strings escaped as in theory \<open>Wire\<close>, an \<open>int\<close> as
  \<open>strconv.AppendInt\<close> writes it, and the newline \<open>Encode\<close> appends. The
  encoding cannot fail for this struct, so the error return is dead.\<close>

fun join_comma :: "string list \<Rightarrow> string" where
  "join_comma [] = []"
| "join_comma [x] = x"
| "join_comma (x # y # zs) = x @ '','' @ join_comma (y # zs)"

definition serveJSON_body :: "int \<Rightarrow> string \<Rightarrow> string list \<Rightarrow> bytes" where
  "serveJSON_body responseStatusCode responseMessage errors =
     ''{\"Status\":'' @ Itoa responseStatusCode @ '',\"Message\":'' @ json_string responseMessage @
     (if errors = [] then []
      else '',\"Errors\":['' @ join_comma (map json_string errors) @ '']'') @
     ''}'' @ [newline]"

definition serveJSON :: "int \<Rightarrow> string \<Rightarrow> string list \<Rightarrow> http_reply" where
  "serveJSON responseStatusCode responseMessage errors =
     \<lparr>reply_code = StatusOK, reply_contentType = Some contentTypeJSON,
      reply_body = serveJSON_body responseStatusCode responseMessage errors\<rparr>"

definition serve_response :: "response \<Rightarrow> http_reply" where
  "serve_response resp = serveJSON (resp_Status resp) (resp_Message resp) (resp_Errors resp)"

section \<open>The histogram of WriteVegetaHistogramResults\<close>

text \<open>\<open>vegeta.Histogram\<close>: bucket bounds (latencies in nanoseconds), one
  count per bucket and the total. \<open>Add\<close> allocates the counts on first use,
  looks for the bucket \<open>[Buckets[i], Buckets[i+1])\<close> holding the latency and
  falls back to the last bucket, then counts the result.\<close>

record histogram =
  h_buckets :: "nat list"
  h_counts :: "nat list"
  h_total :: nat

function hist_index :: "nat list \<Rightarrow> nat \<Rightarrow> nat \<Rightarrow> nat" where
  "hist_index bs lat i =
     (if i < length bs - 1
      then (if bs ! i \<le> lat \<and> lat < bs ! (i + 1) then i else hist_index bs lat (Suc i))
      else i)"
  by pat_completeness auto

termination hist_index
  by (relation "measure (\<lambda>(bs, lat, i). length bs - i)") auto

declare hist_index.simps [simp del]

definition histogram_add :: "Result \<Rightarrow> histogram \<Rightarrow> histogram" where
  "histogram_add r h =
     (let h = (if length (h_counts h) \<noteq> length (h_buckets h)
               then h\<lparr>h_counts := replicate (length (h_buckets h)) 0\<rparr> else h);
          i = hist_index (h_buckets h) (res_latency r) 0
      in h\<lparr>h_total := h_total h + 1, h_counts := (h_counts h)[i := h_counts h ! i + 1]\<rparr>)"

definition ms :: nat where
  "ms = 1000000"

definition histogram_buckets :: "nat list" where
  "histogram_buckets = [0, 10 * ms, 25 * ms, 50 * ms, 100 * ms, 1000 * ms, 2000 * ms, 4000 * ms]"

definition WriteVegetaHistogram_counts :: "Result list \<Rightarrow> histogram" where
  "WriteVegetaHistogram_counts results =
     fold histogram_add results \<lparr>h_buckets = histogram_buckets, h_counts = [], h_total = 0\<rparr>"

section \<open>The result handlers\<close>

definition tab :: char where
  "tab = CHR 0x09"

definition NoResultsYet :: string where
  "NoResultsYet =
     concat (map (\<lambda>l. l @ [newline])
       [''<html>'', ''<head>'', tab # ''<title>Vegeta Load Test - No Results Available So Far</title>'',
        ''</head>'', ''<body>'', tab # ''<h1>No Results Found</h1>'',
        tab # ''<p>It appears that no results have been found. Please ensure at least one test has been run.</p>'',
        ''</html>''])"

text \<open>The reporters of the vegeta library are inputs: the text the plot
  reporter writes for a title and the results, and the text the histogram
  reporter writes for a histogram. A reporter error is only logged by the
  handlers.\<close>

definition WriteVegetaPlotResults :: "(string \<Rightarrow> Result list \<Rightarrow> bytes) \<Rightarrow> Result list \<Rightarrow> bytes" where
  "WriteVegetaPlotResults plotReporter results = plotReporter ''Vegeta Load Test Plot Results'' results"

definition WriteVegetaHistogramResults :: "(histogram \<Rightarrow> bytes) \<Rightarrow> Result list \<Rightarrow> bytes" where
  "WriteVegetaHistogramResults histogramReporter results =
     histogramReporter (WriteVegetaHistogram_counts results)"

definition GetVegetaResults :: "(string \<Rightarrow> Result list \<Rightarrow> bytes) \<Rightarrow> vegetaAttack \<Rightarrow> bytes" where
  "GetVegetaResults plot v =
     (let latestVegetaResults = getCurrentResults v
      in if latestVegetaResults = [] then NoResultsYet else WriteVegetaPlotResults plot latestVegetaResults)"

definition GetVegetaHistogram :: "(histogram \<Rightarrow> bytes) \<Rightarrow> vegetaAttack \<Rightarrow> bytes" where
  "GetVegetaHistogram report v =
     (let latestVegetaResults = getCurrentResults v
      in if latestVegetaResults = [] then ''[no results found for the histogram]''
         else WriteVegetaHistogramResults report latestVegetaResults)"

text \<open>A body written with \<open>w.Write\<close> or \<open>fmt.Fprint\<close> and no header set:
  status 200, the content type left to the server's sniffing.\<close>

definition written_reply :: "bytes \<Rightarrow> http_reply" where
  "written_reply b = \<lparr>reply_code = StatusOK, reply_contentType = None, reply_body = b\<rparr>"

section \<open>HomeHandler\<close>

text \<open>The values the page template is executed with.\<close>

record page_state =
  ps_HasResultsAlready :: bool
  ps_Host :: string
  ps_PreviousResults :: LoadTestStatus

text \<open>A parsed template is the function \<open>tmpl.Execute\<close> computes, \<open>None\<close>
  for an execution error; reading the file, parsing and executing are inputs.
  Each failure is \<open>log.Fatal\<close>, which ends the process: the result is then
  the message logged.\<close>

type_synonym template = "page_state \<Rightarrow> bytes option"

definition HomeHandler ::
  "(string \<Rightarrow> bytes option) \<Rightarrow> (bytes \<Rightarrow> template option) \<Rightarrow> string \<Rightarrow> string \<Rightarrow> vegetaAttack \<Rightarrow>
   string + bytes" where
  "HomeHandler readFile parse static host v =
     (let homeTemplate = static @ ''/index.html''
      in case readFile homeTemplate of
           None \<Rightarrow> Inl ''Error reading the index page: ''
         | Some c \<Rightarrow>
             (case parse c of
                None \<Rightarrow> Inl ''Error running template.New for the index page:''
              | Some tmpl \<Rightarrow>
                  (case HomeHandler_state v of
                     (hasResultsAlready, previousMetrics) \<Rightarrow>
                       (case tmpl \<lparr>ps_HasResultsAlready = hasResultsAlready, ps_Host = host,
                                   ps_PreviousResults = previousMetrics\<rparr> of
                          None \<Rightarrow> Inl ''Error running template.Execute for the index page:''
                        | Some page \<Rightarrow> Inr page))))"

section \<open>main: flags, host and routes\<close>

record flags =
  flag_addr :: string
  flag_port :: int
  flag_static :: string

definition default_flags :: flags where
  "default_flags = \<lparr>flag_addr = ''localhost'', flag_port = 8007, flag_static = ''.''\<rparr>"

text \<open>\<open>host = *addr + ":" + strconv.Itoa(*port)\<close>.\<close>

definition host_of :: "flags \<Rightarrow> string" where
  "host_of f = flag_addr f @ '':'' @ Itoa (flag_port f)"

datatype route = HomeRoute | StartRoute | StatusRoute | ResultsRoute | HistogramRoute | StaticRoute

text \<open>The two matchers the router is given: \<open>HandleFunc(path, ...)\<close> matches
  the path exactly, \<open>PathPrefix(p)\<close> every path starting with \<open>p\<close>. The
  router takes the first route that matches, in registration order; request
  paths are assumed clean (the router redirects other paths to their cleaned
  form).\<close>

datatype matcher = PathExact string | PathPrefix string

fun route_matches :: "matcher \<Rightarrow> string \<Rightarrow> bool" where
  "route_matches (PathExact t) p = (p = t)"
| "route_matches (PathPrefix t) p = prefix t p"

definition static_prefix :: string where
  "static_prefix = ''/static/''"

definition mux_routes :: "(matcher \<times> route) list" where
  "mux_routes =
     [(PathExact ''/'', HomeRoute), (PathExact ''/start'', StartRoute),
      (PathExact ''/status'', StatusRoute), (PathExact ''/results'', ResultsRoute),
      (PathExact ''/histogram'', HistogramRoute), (PathPrefix static_prefix, StaticRoute)]"

definition mux_match :: "string \<Rightarrow> route option" where
  "mux_match p = map_option snd (find (\<lambda>(m, r). route_matches m p) mux_routes)"

section \<open>Serving one request\<close>

record http_request =
  req_path :: string
  req_form :: form
  req_upgrade :: bool

text \<open>The environment of the server: its flags, the file system, the
  template engine, the two reporters, and the file server of
  \<open>http.FileServer(http.Dir(static))\<close> applied to the path with the prefix
  stripped.\<close>

record server_env =
  env_flags :: flags
  env_readFile :: "string \<Rightarrow> bytes option"
  env_parse :: "bytes \<Rightarrow> template option"
  env_plot :: "string \<Rightarrow> Result list \<Rightarrow> bytes"
  env_histogram :: "histogram \<Rightarrow> bytes"
  env_static :: "string \<Rightarrow> string \<Rightarrow> http_reply"

datatype outcome = Replied http_reply | Upgraded | ProcessExit string

definition NotFound_reply :: http_reply where
  "NotFound_reply =
     \<lparr>reply_code = 404, reply_contentType = Some ''text/plain; charset=utf-8'',
      reply_body = ''404 page not found'' @ [newline]\<rparr>"

definition handshake_error_reply :: http_reply where
  "handshake_error_reply =
     \<lparr>reply_code = 400, reply_contentType = Some ''text/plain; charset=utf-8'',
      reply_body = ''Not a websocket handshake'' @ [newline]\<rparr>"

text \<open>A request on connection \<open>c\<close>: the router's choice of handler, the
  handler's effect on the system and what the client gets. The two handlers
  that act on the system do so through the events of theory \<open>System\<close>
  (\<open>EvStart\<close>, \<open>EvConnect\<close>); the others only read it. A process that has
  crashed serves nothing.\<close>

definition serve_request :: "server_env \<Rightarrow> conn_id \<Rightarrow> http_request \<Rightarrow> sys \<Rightarrow> (sys \<times> outcome) option" where
  "serve_request env c rq s =
     (if panicked s \<noteq> None then None
      else case mux_match (req_path rq) of
        None \<Rightarrow> Some (s, Replied NotFound_reply)
      | Some HomeRoute \<Rightarrow>
          (case HomeHandler (env_readFile env) (env_parse env) (flag_static (env_flags env))
                  (host_of (env_flags env)) (va s) of
             Inl msg \<Rightarrow> Some (s, ProcessExit msg)
           | Inr page \<Rightarrow> Some (s, Replied (written_reply page)))
      | Some StartRoute \<Rightarrow>
          map_option (\<lambda>t. (t, Replied (serve_response (fst (StartAttackHandler (getStatus (va s)) (req_form rq))))))
            (sys_exec (EvStart (req_form rq)) s)
      | Some StatusRoute \<Rightarrow>
          (if req_upgrade rq then map_option (\<lambda>t. (t, Upgraded)) (sys_exec (EvConnect c) s)
           else Some (s, Replied handshake_error_reply))
      | Some ResultsRoute \<Rightarrow> Some (s, Replied (written_reply (GetVegetaResults (env_plot env) (va s))))
      | Some HistogramRoute \<Rightarrow> Some (s, Replied (written_reply (GetVegetaHistogram (env_histogram env) (va s))))
      | Some StaticRoute \<Rightarrow>
          Some (s, Replied (env_static env (flag_static (env_flags env))
                              (drop (length static_prefix) (req_path rq)))))"

section \<open>Reference definitions and fixtures\<close>

text \<open>The bucket of a latency as the histogram's documentation states it: the
  last bound not above it; and the number of results in a bucket.\<close>

definition bucket_of :: "nat \<Rightarrow> nat" where
  "bucket_of lat = length (filter (\<lambda>b. b \<le> lat) histogram_buckets) - 1"

definition bucket_count :: "Result list \<Rightarrow> nat \<Rightarrow> nat" where
  "bucket_count rs i = length (filter (\<lambda>r. bucket_of (res_latency r) = i) rs)"

text \<open>A reader for the text of \<open>serveJSON\<close>, as a client's
  \<open>JSON.parse\<close> sees it (a specification device).\<close>



definition read_int :: "string \<Rightarrow> (int \<times> string) option" where
  "read_int s =
     (case s of
        c # cs \<Rightarrow> if c = CHR ''-'' then map_option (\<lambda>(n, r). (- int n, r)) (read_uint cs)
                 else map_option (\<lambda>(n, r). (int n, r)) (read_uint s)
      | [] \<Rightarrow> None)"

definition read_json_string :: "string \<Rightarrow> (string \<times> string) option" where
  "read_json_string s = do { r \<leftarrow> expect [CHR ''\"''] s; json_unescape r }"

text \<open>The elements of a string array after its \<open>[\<close>, up to and including
  the closing \<open>]\<close>.\<close>

partial_function (option) read_string_list :: "string \<Rightarrow> (string list \<times> string) option" where
  "read_string_list s =
     do { (x, r) \<leftarrow> read_json_string s;
          (case r of
             c # r' \<Rightarrow>
               if c = CHR '','' then do { (xs, r'') \<leftarrow> read_string_list r'; Some (x # xs, r'') }
               else if c = CHR '']'' then Some ([x], r')
               else None
           | [] \<Rightarrow> None) }"

definition errors_member :: string where
  "errors_member = '',\"Errors\":[''"

definition decode_serveJSON :: "bytes \<Rightarrow> (int \<times> string \<times> string list) option" where
  "decode_serveJSON s = do {
     r \<leftarrow> expect ''{\"Status\":'' s;
     (code, r) \<leftarrow> read_int r;
     r \<leftarrow> expect '',\"Message\":'' r;
     (msg, r) \<leftarrow> read_json_string r;
     (errs, r) \<leftarrow> (if prefix errors_member r then do { r \<leftarrow> expect errors_member r; read_string_list r }
                  else Some ([], r));
     r \<leftarrow> expect (''}'' @ [newline]) r;
     if r = [] then Some (code, msg, errs) else None }"

text \<open>A server environment in which every file is missing, and a system in
  which a run is in progress.\<close>

definition example_env :: server_env where
  "example_env =
     \<lparr>env_flags = default_flags, env_readFile = (\<lambda>_. None), env_parse = (\<lambda>_. None),
      env_plot = (\<lambda>_ _. []), env_histogram = (\<lambda>_. []), env_static = (\<lambda>_ _. NotFound_reply)\<rparr>"

definition running_sys :: sys where
  "running_sys = init_sys\<lparr>va := instance0\<lparr>status := AttackStatusCodeInProgress\<rparr>\<rparr>"

section \<open>Properties\<close>



lemma hist_index_buckets: "hist_index histogram_buckets lat 0 = bucket_of lat"
  unfolding histogram_buckets_def bucket_of_def ms_def by (simp add: hist_index.simps split: if_split)

lemma bucket_of_less: "bucket_of lat < length histogram_buckets"
  by (simp add: bucket_of_def histogram_buckets_def)

lemma length_histogram_buckets: "length histogram_buckets = 8"
  by (simp add: histogram_buckets_def)

lemma histogram_add_step:
  assumes "h_buckets h = histogram_buckets" and "length (h_counts h) = length histogram_buckets"
  shows "histogram_add r h =
           h\<lparr>h_total := h_total h + 1,
             h_counts := (h_counts h)[bucket_of (res_latency r) := h_counts h ! bucket_of (res_latency r) + 1]\<rparr>"
  using assms by (simp add: histogram_add_def hist_index_buckets Let_def)

lemma histogram_fold:
  assumes "h_buckets h = histogram_buckets" and "length (h_counts h) = length histogram_buckets"
  shows "h_buckets (fold histogram_add rs h) = histogram_buckets \<and>
         h_counts (fold histogram_add rs h) =
           map (\<lambda>i. h_counts h ! i + bucket_count rs i) [0..<length histogram_buckets] \<and>
         h_total (fold histogram_add rs h) = h_total h + length rs"
  using assms
proof (induction rs arbitrary: h)
  case Nil
  then show ?case by (auto intro: nth_equalityI simp: bucket_count_def)
next
  case (Cons r rs)
  let ?b = "bucket_of (res_latency r)"
  let ?h1 = "histogram_add r h"
  have h1: "?h1 = h\<lparr>h_total := h_total h + 1, h_counts := (h_counts h)[?b := h_counts h ! ?b + 1]\<rparr>"
    using Cons.prems by (rule histogram_add_step)
  have b: "?b < length histogram_buckets" by (rule bucket_of_less)
  from Cons.prems h1 have "h_buckets ?h1 = histogram_buckets" and "length (h_counts ?h1) = length histogram_buckets"
    by simp_all
  from Cons.IH [OF this] have ih:
    "h_buckets (fold histogram_add rs ?h1) = histogram_buckets \<and>
     h_counts (fold histogram_add rs ?h1) = map (\<lambda>i. h_counts ?h1 ! i + bucket_count rs i) [0..<length histogram_buckets] \<and>
     h_total (fold histogram_add rs ?h1) = h_total ?h1 + length rs" .
  have "map (\<lambda>i. h_counts ?h1 ! i + bucket_count rs i) [0..<length histogram_buckets] =
        map (\<lambda>i. h_counts h ! i + bucket_count (r # rs) i) [0..<length histogram_buckets]"
    using Cons.prems(2) b by (auto simp: h1 bucket_count_def nth_list_update)
  with ih h1 show ?case by simp
qed

text \<open>C37: the histogram served for a non-empty result set counts every result
  once, in the bucket whose bound is the last one not above its latency, and
  its total is the number of results.\<close>

theorem WriteVegetaHistogram_counts_eq:
  assumes "results \<noteq> []"
  shows "h_counts (WriteVegetaHistogram_counts results) =
           map (bucket_count results) [0..<length histogram_buckets] \<and>
         h_total (WriteVegetaHistogram_counts results) = length results"
proof -
  from assms obtain r rs where rs: "results = r # rs" by (cases results) auto
  let ?h0 = "\<lparr>h_buckets = histogram_buckets, h_counts = [], h_total = 0\<rparr>"
  have a: "histogram_add r ?h0 =
           \<lparr>h_buckets = histogram_buckets, h_counts = replicate (length histogram_buckets) 0, h_total = 0\<rparr>
           \<lparr>h_total := 1, h_counts := (replicate (length histogram_buckets) 0)[bucket_of (res_latency r) := 1]\<rparr>"
    using bucket_of_less [of "res_latency r"]
    by (simp add: histogram_add_def hist_index_buckets Let_def length_histogram_buckets)
  let ?h1 = "histogram_add r ?h0"
  have "h_buckets ?h1 = histogram_buckets" and "length (h_counts ?h1) = length histogram_buckets"
    by (simp_all add: a)
  from histogram_fold [OF this, of rs] bucket_of_less [of "res_latency r"]
  show ?thesis
    by (auto simp: WriteVegetaHistogram_counts_def rs a bucket_count_def nth_list_update)
qed

lemma read_json_string_json: "read_json_string (json_string x @ r) = Some (x, r)"
proof -
  have "json_string x @ r = [CHR ''\"''] @ (concat (map json_escape_char x) @ CHR ''\"'' # r)"
    by (simp add: json_string_def)
  then show ?thesis by (simp only: read_json_string_def expect_append bind.simps json_unescape_escaped)
qed

lemma read_string_list_json:
  "xs \<noteq> [] \<Longrightarrow> read_string_list (join_comma (map json_string xs) @ '']'' @ r) = Some (xs, r)"
proof (induction xs rule: join_comma.induct)
  case 1
  then show ?case by simp
next
  case (2 x)
  show ?case
    by (subst read_string_list.simps) (simp add: read_json_string_json)
next
  case (3 x y zs)
  have "join_comma (map json_string (x # y # zs)) @ '']'' @ r =
        json_string x @ (CHR '','' # (join_comma (map json_string (y # zs)) @ '']'' @ r))"
    by simp
  then show ?case using "3.IH"
    by (subst read_string_list.simps) (simp add: read_json_string_json)
qed

lemma read_int_Itoa:
  assumes "nat \<bar>n\<bar> \<le> maxUint64" and "r = [] \<or> \<not> is_digit (hd r)"
  shows "read_int (Itoa n @ r) = Some (n, r)"
proof (cases "n < 0")
  case True
  with assms(1) have "nat (- n) \<le> maxUint64" by simp
  from read_uint_dec_digits [OF this assms(2)] True show ?thesis
    by (simp add: Itoa_def read_int_def)
next
  case False
  with assms(1) have b: "nat n \<le> maxUint64" by simp
  obtain c cs where d: "dec_digits (nat n) = c # cs" using dec_digits_hd by blast
  from dec_digits_digits [of "nat n"] d have "is_digit c" by simp
  then have "c \<noteq> CHR ''-''" by (auto simp: is_digit_def)
  with read_uint_dec_digits [OF b assms(2)] False d show ?thesis
    by (simp add: Itoa_def read_int_def)
qed

lemma errors_member_not_prefix: "\<not> prefix errors_member (''}'' @ [newline])"
  by (simp add: errors_member_def)




lemma mux_match_start: "mux_match ''/start'' = Some StartRoute"
  by (simp add: mux_match_def mux_routes_def)

lemma serve_request_effect:
  assumes "serve_request env c rq s = Some (t, out)"
  shows "t = s \<or> (\<exists>e. sys_exec e s = Some t)"
  using assms
  by (auto simp: serve_request_def split: if_splits option.splits route.splits sum.splits)

lemma serve_request_read_only:
  assumes "serve_request env c rq s = Some (t, out)"
    and "mux_match (req_path rq) \<noteq> Some StartRoute" and "mux_match (req_path rq) \<noteq> Some StatusRoute"
  shows "t = s"
  using assms
  by (auto simp: serve_request_def split: if_splits option.splits route.splits sum.splits)


text \<open>C20: a start request while a run is in progress is answered with
  \<open>Status\<close> 0, the code of success (\<open>ResponseStatus_OK\<close>), and the message
  \<open>Test Already Running\<close>; the rejection is visible only in the message.\<close>

theorem start_while_running_ok_status:
  assumes "panicked s = None" and "getStatus (va s) = AttackStatusCodeInProgress"
    and "req_path rq = ''/start''"
  shows "serve_request env c rq s =
           Some (s\<lparr>responses := responses s @ [\<lparr>resp_Status = ResponseStatus_OK,
                     resp_Message = ''Test Already Running'', resp_Errors = []\<rparr>]\<rparr>,
                 Replied (serveJSON ResponseStatus_OK ''Test Already Running'' []))"
  using assms
  by (simp add: serve_request_def mux_match_start sys_exec_def StartAttackHandler_spawn_def
                StartAttackHandler_def serve_response_def ResponseStatus_OK_def)


theorem WriteVegetaHistogram_counts_eq_witness:
  "[\<lparr>res_code = 200, res_latency = 30 * ms\<rparr>] \<noteq> [] \<and>
   h_counts (WriteVegetaHistogram_counts [\<lparr>res_code = 200, res_latency = 30 * ms\<rparr>]) =
     map (bucket_count [\<lparr>res_code = 200, res_latency = 30 * ms\<rparr>]) [0..<length histogram_buckets] \<and>
   h_total (WriteVegetaHistogram_counts [\<lparr>res_code = 200, res_latency = 30 * ms\<rparr>]) = 1"
  using WriteVegetaHistogram_counts_eq [of "[\<lparr>res_code = 200, res_latency = 30 * ms\<rparr>]"] by simp



theorem start_while_running_ok_status_witness:
  "panicked running_sys = None \<and> getStatus (va running_sys) = AttackStatusCodeInProgress \<and>
   req_path \<lparr>req_path = ''/start'', req_form = [], req_upgrade = False\<rparr> = ''/start'' \<and>
   serve_request example_env 0 \<lparr>req_path = ''/start'', req_form = [], req_upgrade = False\<rparr> running_sys =
     Some (running_sys\<lparr>responses := responses running_sys @ [\<lparr>resp_Status = ResponseStatus_OK,
             resp_Message = ''Test Already Running'', resp_Errors = []\<rparr>]\<rparr>,
           Replied (serveJSON ResponseStatus_OK ''Test Already Running'' []))"
proof -
  have p: "panicked running_sys = None" and g: "getStatus (va running_sys) = AttackStatusCodeInProgress"
    by (simp_all add: running_sys_def init_sys_def getStatus_def)
  have r: "req_path \<lparr>req_path = ''/start'', req_form = [], req_upgrade = False\<rparr> = ''/start''" by simp
  from start_while_running_ok_status [OF p g r, of example_env 0] p g r show ?thesis by simp
qed

end
