(* ===== verification/Casper.thy ===== *)
theory Casper
  imports Prelude "HOL-Library.Sublist"
begin

text \<open>
  The casper tool (src/casper): it walks a folder, keeps the \<open>.js\<close> files, and
  accepts a file as a test suite when its lines mention the three manifest
  variables (a bitmask records which ones were seen) and the text read up to
  that point parses as JavaScript; the string initialisers of the manifest
  variables then fill in the test's fields (\<open>SetPropertyByIndex\<close>).

  The file system walker, the file contents and the JavaScript parser
  (\<open>otto/parser\<close>) are inputs: a walk is the list of its entries, a file is
  its bytes (or \<open>None\<close> when it cannot be opened), and the parser is a function
  from source text to the declaration list of the program, or \<open>None\<close> on a
  syntax error. \<open>bufio.Scanner\<close> splits lines as \<open>ScanLines\<close> does; its
  64 KiB limit on a line is not modelled. Running the tests with
  \<open>casperjs\<close> is modelled in theory \<open>Casper_Run\<close>.
\<close>

unbundle bit_operations_syntax

section \<open>The manifest and the test record (script.go)\<close>

definition ManifestVariables :: "string list" where
  "ManifestVariables = [''MANIFEST_SCRIPT_ID'', ''MANIFEST_SCRIPT_NAME'', ''MANIFEST_SCRIPT_DESC'']"

record CasperTest =
  test_Id :: string
  test_FilePath :: string
  test_Name :: string
  test_Description :: string

definition emptyCasperTest :: CasperTest where
  "emptyCasperTest = \<lparr>test_Id = [], test_FilePath = [], test_Name = [], test_Description = []\<rparr>"

definition SetPropertyByIndex :: "nat \<Rightarrow> string \<Rightarrow> CasperTest \<Rightarrow> CasperTest" where
  "SetPropertyByIndex manifestVarIndex value c =
     (if manifestVarIndex = 0 then c\<lparr>test_Id := value\<rparr>
      else if manifestVarIndex = 1 then c\<lparr>test_Name := value\<rparr>
      else if manifestVarIndex = 2 then c\<lparr>test_Description := value\<rparr>
      else c)"

section \<open>Reading the lines of a file\<close>

text \<open>\<open>bytes.Contains(b, sub)\<close>: \<open>sub\<close> occurs in \<open>b\<close> at some position.\<close>

fun bytes_Contains :: "bytes \<Rightarrow> bytes \<Rightarrow> bool" where
  "bytes_Contains [] sub = (sub = [])"
| "bytes_Contains (c # cs) sub = (prefix sub (c # cs) \<or> bytes_Contains cs sub)"

definition CR :: char where
  "CR = CHR 0x0D"

definition LF :: char where
  "LF = CHR 0x0A"

text \<open>\<open>dropCR\<close> of \<open>bufio.ScanLines\<close>: a line loses one trailing carriage return.\<close>

definition dropCR :: "bytes \<Rightarrow> bytes" where
  "dropCR l = (if l \<noteq> [] \<and> last l = CR then butlast l else l)"

text \<open>The tokens \<open>scanner.Scan\<close> yields with \<open>ScanLines\<close>: the text up to each
  newline, and a last line without newline if it is not empty.\<close>

function scan_lines :: "bytes \<Rightarrow> bytes list" where
  "scan_lines s =
     (if s = [] then []
      else dropCR (takeWhile (\<lambda>c. c \<noteq> LF) s) # scan_lines (drop 1 (dropWhile (\<lambda>c. c \<noteq> LF) s)))"
  by pat_completeness auto
termination
proof (relation "measure length")
  fix s :: bytes
  assume "s \<noteq> []"
  then have b: "0 < length s" by simp
  have a: "length (dropWhile (\<lambda>c. c \<noteq> LF) s) \<le> length s" by (rule length_dropWhile_le)
  have "length (drop 1 (dropWhile (\<lambda>c. c \<noteq> LF) s)) < length s"
    using a b by (simp only: length_drop)
  then show "(drop 1 (dropWhile (\<lambda>c. c \<noteq> LF) s), s) \<in> measure length" by simp
qed simp

declare scan_lines.simps [simp del]

section \<open>The manifest bitmask (loadScriptFromFile, main.go)\<close>

text \<open>\<open>outstandingTokenCount = int(math.Pow(2, float64(len(ManifestVariables)))) - 1\<close>;
  the powers of two are exact in floating point.\<close>

definition outstandingTokenCount :: int where
  "outstandingTokenCount = 2 ^ length ManifestVariables - 1"

text \<open>The inner loop over the manifest variables for one line: the bit
  \<open>byteFlagPos = 2^i\<close> of a variable the line contains is added once.\<close>

fun mark_tokens :: "bytes \<Rightarrow> nat \<Rightarrow> string list \<Rightarrow> int \<Rightarrow> int" where
  "mark_tokens currentLine i [] manifestTokenCount = manifestTokenCount"
| "mark_tokens currentLine i (curManifestVar # vs) manifestTokenCount =
     (let byteFlagPos = 2 ^ i
      in mark_tokens currentLine (Suc i) vs
           (if bytes_Contains currentLine curManifestVar \<and>
               manifestTokenCount AND byteFlagPos \<noteq> byteFlagPos
            then manifestTokenCount + byteFlagPos else manifestTokenCount))"

record scan_state =
  manifestTokenCount :: int
  fileContents :: bytes

text \<open>One iteration of \<open>for scanner.Scan()\<close>: the newline is put back; once
  every variable has been seen, lines are skipped (\<open>continue\<close>); otherwise the
  line is kept and its variables are marked.\<close>

definition scan_line :: "scan_state \<Rightarrow> bytes \<Rightarrow> scan_state" where
  "scan_line st line =
     (let currentLine = line @ [LF]
      in if outstandingTokenCount \<le> manifestTokenCount st then st
         else st\<lparr>fileContents := fileContents st @ currentLine,
                 manifestTokenCount := mark_tokens currentLine 0 ManifestVariables (manifestTokenCount st)\<rparr>)"

definition scan_file :: "bytes \<Rightarrow> scan_state" where
  "scan_file s = fold (\<lambda>line st. scan_line st line) (scan_lines s) \<lparr>manifestTokenCount = 0, fileContents = []\<rparr>"

section \<open>The declarations of the parsed script\<close>

text \<open>What the loop over \<open>program.DeclarationList\<close> inspects: variable
  declarations with their initialisers (absent, a string literal, or another
  expression), and other declarations.\<close>

datatype js_init = StringLiteral string | OtherExpression

datatype js_decl =
    VariableDeclaration "(string \<times> js_init option) list"
  | OtherDeclaration

type_synonym js_parser = "bytes \<Rightarrow> js_decl list option"

text \<open>The loop over the manifest variables for one declared variable.\<close>

fun set_manifest_var :: "nat \<Rightarrow> string list \<Rightarrow> string \<Rightarrow> js_init option \<Rightarrow> CasperTest \<Rightarrow> CasperTest" where
  "set_manifest_var i [] variableName init c = c"
| "set_manifest_var i (curManifestVar # vs) variableName init c =
     set_manifest_var (Suc i) vs variableName init
       (if variableName = curManifestVar
        then (case init of Some (StringLiteral variableValue) \<Rightarrow> SetPropertyByIndex i variableValue c
                         | _ \<Rightarrow> c)
        else c)"

fun set_from_decls :: "js_decl list \<Rightarrow> CasperTest \<Rightarrow> CasperTest" where
  "set_from_decls [] c = c"
| "set_from_decls (VariableDeclaration vars # ds) c =
     set_from_decls ds (fold (\<lambda>(n, init) c. set_manifest_var 0 ManifestVariables n init c) vars c)"
| "set_from_decls (OtherDeclaration # ds) c = set_from_decls ds c"

text \<open>\<open>loadScriptFromFile\<close>: \<open>None\<close> for the file when \<open>os.Open\<close> fails (the
  scanner then reads nothing from the nil file).\<close>

definition loadScriptFromFile :: "js_parser \<Rightarrow> string \<Rightarrow> bytes option \<Rightarrow> CasperTest option \<times> bool" where
  "loadScriptFromFile parse pathToFile file =
     (let st = scan_file (case file of Some s \<Rightarrow> s | None \<Rightarrow> [])
      in if manifestTokenCount st < outstandingTokenCount then (None, False)
         else (case parse (fileContents st) of
                 None \<Rightarrow> (None, False)
               | Some decls \<Rightarrow>
                   (Some ((set_from_decls decls emptyCasperTest)\<lparr>test_FilePath := pathToFile\<rparr>), True)))"

section \<open>Walking the folder (traverseFiles, main.go)\<close>

datatype walk_entry = WalkError | WalkEntry string bool

text \<open>\<open>strings.ToLower\<close> on the ASCII letters; no other character lowers to
  one of \<open>.js\<close>, so the suffix test below is that of the program.\<close>

definition ascii_lower :: "char \<Rightarrow> char" where
  "ascii_lower c = (if 65 \<le> (of_char c :: nat) \<and> (of_char c :: nat) \<le> 90 then char_of (of_char c + (32::nat)) else c)"

definition is_js_path :: "string \<Rightarrow> bool" where
  "is_js_path p \<longleftrightarrow> suffix ''.js'' (map ascii_lower p)"

fun traverseFiles :: "js_parser \<Rightarrow> (string \<Rightarrow> bytes option) \<Rightarrow> walk_entry list \<Rightarrow> CasperTest list" where
  "traverseFiles parse fs [] = []"
| "traverseFiles parse fs (WalkError # es) = traverseFiles parse fs es"
| "traverseFiles parse fs (WalkEntry path isDir # es) =
     (if isDir \<or> \<not> is_js_path path then traverseFiles parse fs es
      else (case loadScriptFromFile parse path (fs path) of
              (Some testScript, True) \<Rightarrow> testScript # traverseFiles parse fs es
            | _ \<Rightarrow> traverseFiles parse fs es))"

section \<open>Reference definitions and fixtures\<close>

text \<open>The manifest variables the given lines mention, each line with its
  newline put back as the program does.\<close>

definition seen_var :: "bytes list \<Rightarrow> nat \<Rightarrow> bool" where
  "seen_var ls n \<longleftrightarrow> list_ex (\<lambda>l. bytes_Contains (l @ [LF]) (ManifestVariables ! n)) ls"

definition manifest_seen :: "bytes list \<Rightarrow> bool" where
  "manifest_seen ls \<longleftrightarrow> list_all (\<lambda>v. list_ex (\<lambda>l. bytes_Contains (l @ [LF]) v) ls) ManifestVariables"

abbreviation scan_fold :: "bytes list \<Rightarrow> scan_state" where
  "scan_fold ls \<equiv> fold (\<lambda>line st. scan_line st line) ls \<lparr>manifestTokenCount = 0, fileContents = []\<rparr>"

text \<open>Every string literal the declarations assign to a variable, in order.\<close>

definition manifest_literals :: "js_decl list \<Rightarrow> string \<Rightarrow> string list" where
  "manifest_literals ds name =
     concat (map (\<lambda>d. case d of
                        VariableDeclaration vars \<Rightarrow>
                          concat (map (\<lambda>(n, init). case init of
                                         Some (StringLiteral v) \<Rightarrow> if n = name then [v] else []
                                       | _ \<Rightarrow> []) vars)
                      | OtherDeclaration \<Rightarrow> []) ds)"

definition last_or :: "'a \<Rightarrow> 'a list \<Rightarrow> 'a" where
  "last_or d xs = (if xs = [] then d else last xs)"

definition walk_candidates :: "walk_entry list \<Rightarrow> string list" where
  "walk_candidates es = concat (map (\<lambda>e. case e of WalkEntry p d \<Rightarrow> if \<not> d \<and> is_js_path p then [p] else []
                                                 | WalkError \<Rightarrow> []) es)"

text \<open>A script whose description is initialised on the line after its name.\<close>

definition split_decl_script :: bytes where
  "split_decl_script =
     ''var MANIFEST_SCRIPT_ID = 't1';\<newline>var MANIFEST_SCRIPT_NAME = 'Login';\<newline>'' @
     ''var MANIFEST_SCRIPT_DESC =\<newline>  'Checks the login page';\<newline>casper.test.begin();\<newline>''"

text \<open>A script that names the manifest variables only in a comment.\<close>

definition comment_manifest_script :: bytes where
  "comment_manifest_script = ''// MANIFEST_SCRIPT_ID MANIFEST_SCRIPT_NAME MANIFEST_SCRIPT_DESC\<newline>''"

section \<open>The lines of a file\<close>

lemma scan_lines_no_newline: "\<forall>l\<in>set (scan_lines s). LF \<notin> set l"
proof (induction s rule: scan_lines.induct)
  case (1 s)
  have "LF \<notin> set (dropCR (takeWhile (\<lambda>c. c \<noteq> LF) s))"
    by (auto simp: dropCR_def dest: in_set_butlastD set_takeWhileD)
  with "1.IH" show ?case by (subst scan_lines.simps) auto
qed

section \<open>The manifest bitmask\<close>

lemma and_exp_self_iff: "((x::int) AND 2 ^ i = 2 ^ i) \<longleftrightarrow> bit x i"
proof
  assume "x AND 2 ^ i = 2 ^ i"
  then have "bit (x AND 2 ^ i) i" by (simp add: bit_exp_iff)
  then show "bit x i" by (simp add: bit_and_iff)
next
  assume "bit x i"
  then show "x AND 2 ^ i = 2 ^ i" by (intro bit_eqI) (auto simp: bit_and_iff bit_exp_iff)
qed

lemma bit_add_exp:
  assumes "\<not> bit (x::int) i"
  shows "bit (x + 2 ^ i) n \<longleftrightarrow> bit x n \<or> n = i"
proof -
  have "x + 2 ^ i = x OR 2 ^ i"
    using assms by (intro disjunctive_add) (auto simp: bit_exp_iff)
  then show ?thesis by (auto simp: bit_or_iff bit_exp_iff)
qed

lemma mark_tokens_bits:
  assumes "0 \<le> x"
  shows "0 \<le> mark_tokens l i vs x \<and>
         (\<forall>n. bit (mark_tokens l i vs x) n \<longleftrightarrow>
               bit x n \<or> (i \<le> n \<and> n < i + length vs \<and> bytes_Contains l (vs ! (n - i))))"
  using assms
proof (induction vs arbitrary: i x)
  case Nil
  then show ?case by auto
next
  case (Cons v vs)
  define x' where "x' = (if bytes_Contains l v \<and> x AND 2 ^ i \<noteq> 2 ^ i then x + 2 ^ i else x)"
  have x': "0 \<le> x'" "\<forall>n. bit x' n \<longleftrightarrow> bit x n \<or> (n = i \<and> bytes_Contains l v)"
    using Cons.prems bit_add_exp [of x i] by (auto simp: x'_def and_exp_self_iff)
  have "mark_tokens l i (v # vs) x = mark_tokens l (Suc i) vs x'"
    by (simp add: x'_def Let_def)
  moreover note Cons.IH [OF x'(1), of "Suc i"]
  ultimately show ?case using x'(2)
    by (auto simp: nth_Cons' le_Suc_eq not_less_eq_eq)
qed

lemma outstandingTokenCount_7: "outstandingTokenCount = 7"
  by (simp add: outstandingTokenCount_def ManifestVariables_def)

lemma bit_7_iff: "bit (7::int) n \<longleftrightarrow> n < 3"
proof -
  have m: "bit (mask 3 :: int) n \<longleftrightarrow> n < 3" by (simp only: bit_mask_iff) simp
  have "(mask 3 :: int) = 7" by (simp add: mask_eq_exp_minus_1)
  with m show ?thesis by simp
qed

lemma low_bits_bound:
  assumes "0 \<le> (x::int)" and "\<forall>n. bit x n \<longrightarrow> n < 3"
  shows "x \<le> 7 \<and> (7 \<le> x \<longleftrightarrow> (\<forall>n<3. bit x n))"
proof -
  have "take_bit 3 x = x" using assms(2) by (intro bit_eqI) (auto simp: bit_take_bit_iff)
  moreover have "take_bit 3 x < 2 ^ 3" by (rule take_bit_int_less_exp)
  ultimately have le: "x \<le> 7" by simp
  have "(\<forall>n<3. bit x n) \<longleftrightarrow> x = 7"
  proof
    assume "\<forall>n<3. bit x n"
    with assms(2) show "x = 7" by (intro bit_eqI) (auto simp: bit_7_iff)
  next
    assume "x = 7"
    then show "\<forall>n<3. bit x n" by (simp add: bit_7_iff)
  qed
  with le show ?thesis by auto
qed

lemma mark_line_bits:
  assumes "0 \<le> x"
  shows "0 \<le> mark_tokens l 0 ManifestVariables x \<and>
         (\<forall>n. bit (mark_tokens l 0 ManifestVariables x) n \<longleftrightarrow>
               bit x n \<or> (n < 3 \<and> bytes_Contains l (ManifestVariables ! n)))"
proof -
  have "length ManifestVariables = 3" by (simp add: ManifestVariables_def)
  with mark_tokens_bits [OF assms, of l 0 ManifestVariables] show ?thesis by simp
qed

lemma seen_var_snoc: "seen_var (ls @ [l]) n \<longleftrightarrow> seen_var ls n \<or> bytes_Contains (l @ [LF]) (ManifestVariables ! n)"
  by (simp add: seen_var_def)

lemma manifest_seen_vars: "manifest_seen ls \<longleftrightarrow> (\<forall>n<3. seen_var ls n)"
proof -
  have "(\<forall>n<3. seen_var ls n) \<longleftrightarrow> seen_var ls 0 \<and> seen_var ls 1 \<and> seen_var ls 2"
    by (auto simp: less_Suc_eq numeral_3_eq_3 numeral_2_eq_2)
  then show ?thesis by (simp add: manifest_seen_def seen_var_def ManifestVariables_def)
qed


lemma scan_line_skip: "7 \<le> manifestTokenCount st \<Longrightarrow> scan_line st l = st"
  by (simp add: scan_line_def outstandingTokenCount_7)

lemma scan_line_keep:
  "\<not> 7 \<le> manifestTokenCount st \<Longrightarrow>
   manifestTokenCount (scan_line st l) = mark_tokens (l @ [LF]) 0 ManifestVariables (manifestTokenCount st) \<and>
   fileContents (scan_line st l) = fileContents st @ l @ [LF]"
  by (simp add: scan_line_def outstandingTokenCount_7 Let_def)


lemma scan_fold_snoc: "scan_fold (ls @ [l]) = scan_line (scan_fold ls) l"
  by simp

lemma scan_fold_count:
  "0 \<le> manifestTokenCount (scan_fold ls) \<and>
   (\<forall>n. bit (manifestTokenCount (scan_fold ls)) n \<longleftrightarrow> n < 3 \<and> seen_var ls n)"
proof (induction ls rule: rev_induct)
  case Nil
  then show ?case by (simp add: seen_var_def)
next
  case (snoc l ls)
  let ?x = "manifestTokenCount (scan_fold ls)"
  from snoc.IH have x0: "0 \<le> ?x" and xb: "\<forall>n. bit ?x n \<longleftrightarrow> n < 3 \<and> seen_var ls n" by auto
  from low_bits_bound [OF x0] xb have full: "7 \<le> ?x \<longleftrightarrow> (\<forall>n<3. seen_var ls n)" by auto
  show ?case
  proof (cases "7 \<le> ?x")
    case True
    then have "scan_fold (ls @ [l]) = scan_fold ls" by (simp only: scan_fold_snoc scan_line_skip)
    with True full xb x0 show ?thesis by (auto simp: seen_var_snoc)
  next
    case False
    then have "manifestTokenCount (scan_fold (ls @ [l])) = mark_tokens (l @ [LF]) 0 ManifestVariables ?x"
      using scan_line_keep [of "scan_fold ls" l] by (simp only: scan_fold_snoc) blast
    with mark_line_bits [OF x0, of "l @ [LF]"] xb show ?thesis by (auto simp: seen_var_snoc)
  qed
qed


lemma scan_fold_full: "7 \<le> manifestTokenCount (scan_fold ls) \<longleftrightarrow> manifest_seen ls"
proof -
  from scan_fold_count [of ls] have x0: "0 \<le> manifestTokenCount (scan_fold ls)"
    and xb: "\<forall>n. bit (manifestTokenCount (scan_fold ls)) n \<longleftrightarrow> n < 3 \<and> seen_var ls n" by auto
  from low_bits_bound [OF x0] xb show ?thesis by (auto simp: manifest_seen_vars)
qed

lemma scan_fold_bound: "0 \<le> manifestTokenCount (scan_fold ls) \<and> manifestTokenCount (scan_fold ls) \<le> 7"
proof -
  from scan_fold_count [of ls] have x0: "0 \<le> manifestTokenCount (scan_fold ls)"
    and xb: "\<forall>n. bit (manifestTokenCount (scan_fold ls)) n \<longrightarrow> n < 3" by auto
  from low_bits_bound [OF x0 xb] x0 show ?thesis by auto
qed

text \<open>The manifest bitmask stays within \<open>0 .. outstandingTokenCount\<close>: each
  variable's bit is added at most once.\<close>

theorem scan_file_count_bounds:
  "0 \<le> manifestTokenCount (scan_file s) \<and> manifestTokenCount (scan_file s) \<le> outstandingTokenCount"
  using scan_fold_bound [of "scan_lines s"] by (simp add: scan_file_def outstandingTokenCount_7)

lemma manifest_seen_take: "manifest_seen (take k ls) \<Longrightarrow> manifest_seen ls"
  by (auto simp: manifest_seen_def list_all_iff list_ex_iff dest: in_set_takeD)

lemma scan_fold_contents:
  "\<exists>k \<le> length ls. fileContents (scan_fold ls) = concat (map (\<lambda>l. l @ [LF]) (take k ls)) \<and>
     (k < length ls \<longrightarrow> manifest_seen (take k ls)) \<and> (0 < k \<longrightarrow> \<not> manifest_seen (take (k - 1) ls))"
proof (induction ls rule: rev_induct)
  case Nil
  then show ?case by simp
next
  case (snoc l ls)
  from snoc.IH obtain k where k: "k \<le> length ls"
    and c: "fileContents (scan_fold ls) = concat (map (\<lambda>l. l @ [LF]) (take k ls))"
    and s1: "k < length ls \<longrightarrow> manifest_seen (take k ls)"
    and s2: "0 < k \<longrightarrow> \<not> manifest_seen (take (k - 1) ls)" by blast
  show ?case
  proof (cases "manifest_seen ls")
    case True
    then have "7 \<le> manifestTokenCount (scan_fold ls)" by (simp add: scan_fold_full)
    then have u: "scan_line (scan_fold ls) l = scan_fold ls" by (rule scan_line_skip)
    have "k < length (ls @ [l]) \<longrightarrow> manifest_seen (take k (ls @ [l]))"
      using k s1 True by (cases "k < length ls") auto
    moreover have "0 < k \<longrightarrow> \<not> manifest_seen (take (k - 1) (ls @ [l]))" using k s2 by simp
    moreover have "fileContents (scan_fold (ls @ [l])) = concat (map (\<lambda>l. l @ [LF]) (take k (ls @ [l])))"
      using c k by (simp only: scan_fold_snoc u) simp
    ultimately show ?thesis using k by (intro exI [of _ k]) simp
  next
    case False
    then have nf: "\<not> 7 \<le> manifestTokenCount (scan_fold ls)" by (simp add: scan_fold_full)
    have kl: "k = length ls"
    proof (rule ccontr)
      assume "k \<noteq> length ls"
      with k s1 have "manifest_seen (take k ls)" by simp
      then have "manifest_seen ls" by (rule manifest_seen_take)
      with False show False by simp
    qed
    have "fileContents (scan_fold (ls @ [l])) = fileContents (scan_fold ls) @ l @ [LF]"
      using scan_line_keep [of "scan_fold ls" l] nf by (simp only: scan_fold_snoc) blast
    with c kl False show ?thesis by (intro exI [of _ "Suc (length ls)"]) simp
  qed
qed

text \<open>C22: the bitmask reaches \<open>outstandingTokenCount\<close> exactly when every manifest variable occurs in some line of the file\<close>

theorem scan_file_complete_iff:
  "manifestTokenCount (scan_file s) = outstandingTokenCount \<longleftrightarrow> manifest_seen (scan_lines s)"
  using scan_fold_full [of "scan_lines s"] scan_fold_bound [of "scan_lines s"]
  by (auto simp: scan_file_def outstandingTokenCount_7)

text \<open>The text handed to the JavaScript parser is the file's lines up to the one that completes the manifest, and no further; the whole file only when the manifest is never completed before its last line\<close>

theorem scan_file_keeps_prefix:
  "\<exists>k \<le> length (scan_lines s).
     fileContents (scan_file s) = concat (map (\<lambda>l. l @ [LF]) (take k (scan_lines s))) \<and>
     (k < length (scan_lines s) \<longrightarrow> manifest_seen (take k (scan_lines s))) \<and>
     (0 < k \<longrightarrow> \<not> manifest_seen (take (k - 1) (scan_lines s)))"
  unfolding scan_file_def by (rule scan_fold_contents)

lemma count_lines_LF:
  "\<forall>l\<in>set xs. LF \<notin> set l \<Longrightarrow> count_list (concat (map (\<lambda>l. l @ [LF]) xs)) LF = length xs"
proof (induction xs)
  case Nil
  then show ?case by simp
next
  case (Cons l xs)
  then have "count_list l LF = 0" by (simp add: count_list_0_iff)
  with Cons show ?case by simp
qed

lemma last_lines_LF:
  "concat (map (\<lambda>l. l @ [LF]) xs) \<noteq> [] \<Longrightarrow> last (concat (map (\<lambda>l. l @ [LF]) xs)) = LF"
  by (induction xs) auto
text \<open>C39: the text the scan keeps is made of whole lines: it holds one newline
  byte per kept line, the one \<open>loadScriptFromFile\<close> adds back, and ends with
  it.\<close>

theorem scan_file_whole_lines:
  "\<exists>k \<le> length (scan_lines s).
     count_list (fileContents (scan_file s)) LF = k \<and>
     (fileContents (scan_file s) \<noteq> [] \<longrightarrow> last (fileContents (scan_file s)) = LF) \<and>
     fileContents (scan_file s) = concat (map (\<lambda>l. l @ [LF]) (take k (scan_lines s)))"
proof -
  obtain k where k: "k \<le> length (scan_lines s)"
    and c: "fileContents (scan_file s) = concat (map (\<lambda>l. l @ [LF]) (take k (scan_lines s)))"
    using scan_fold_contents [of "scan_lines s"] unfolding scan_file_def by blast
  have "\<forall>l\<in>set (take k (scan_lines s)). LF \<notin> set l"
    using scan_lines_no_newline [of s] by (auto dest: in_set_takeD)
  then have "count_list (fileContents (scan_file s)) LF = k"
    using k by (simp only: c count_lines_LF length_take min_absorb2)
  moreover have "fileContents (scan_file s) \<noteq> [] \<longrightarrow> last (fileContents (scan_file s)) = LF"
    unfolding c using last_lines_LF by blast
  ultimately show ?thesis using k c by blast
qed

text \<open>C23: a script whose description string sits on the line after \<open>var MANIFEST_SCRIPT_DESC =\<close> reaches the parser without that string: the declaration is cut in the middle\<close>

theorem split_declaration_truncated:
  "fileContents (scan_file split_decl_script) =
     ''var MANIFEST_SCRIPT_ID = 't1';\<newline>var MANIFEST_SCRIPT_NAME = 'Login';\<newline>var MANIFEST_SCRIPT_DESC =\<newline>''"
  by (simp add: split_decl_script_def scan_file_def scan_line_def scan_lines.simps
                outstandingTokenCount_7 ManifestVariables_def LF_def CR_def dropCR_def)


lemma last_or_append: "last_or d (xs @ ys) = last_or (last_or d xs) ys"
  by (simp add: last_or_def)

lemma set_manifest_var_eq:
  "set_manifest_var 0 ManifestVariables n init c =
     (case init of
        Some (StringLiteral v) \<Rightarrow>
          if n = ''MANIFEST_SCRIPT_ID'' then c\<lparr>test_Id := v\<rparr>
          else if n = ''MANIFEST_SCRIPT_NAME'' then c\<lparr>test_Name := v\<rparr>
          else if n = ''MANIFEST_SCRIPT_DESC'' then c\<lparr>test_Description := v\<rparr>
          else c
      | _ \<Rightarrow> c)"
  by (simp add: ManifestVariables_def SetPropertyByIndex_def split: option.splits js_init.splits)

abbreviation var_literals :: "(string \<times> js_init option) list \<Rightarrow> string \<Rightarrow> string list" where
  "var_literals vars name \<equiv>
     concat (map (\<lambda>(n, init). case init of Some (StringLiteral v) \<Rightarrow> if n = name then [v] else []
                                       | _ \<Rightarrow> []) vars)"

lemma fold_manifest_vars:
  "fold (\<lambda>(n, init) c. set_manifest_var 0 ManifestVariables n init c) vars c =
   c\<lparr>test_Id := last_or (test_Id c) (var_literals vars ''MANIFEST_SCRIPT_ID''),
     test_Name := last_or (test_Name c) (var_literals vars ''MANIFEST_SCRIPT_NAME''),
     test_Description := last_or (test_Description c) (var_literals vars ''MANIFEST_SCRIPT_DESC'')\<rparr>"
proof (induction vars arbitrary: c)
  case Nil
  then show ?case by (simp add: last_or_def)
next
  case (Cons x vars)
  obtain n init where x: "x = (n, init)" by fastforce
  let ?f = "\<lambda>(n, init) c. set_manifest_var 0 ManifestVariables n init c"
  let ?c1 = "set_manifest_var 0 ManifestVariables n init c"
  have "fold ?f (x # vars) c = fold ?f vars ?c1" by (simp add: x)
  also have "\<dots> = ?c1\<lparr>test_Id := last_or (test_Id ?c1) (var_literals vars ''MANIFEST_SCRIPT_ID''),
     test_Name := last_or (test_Name ?c1) (var_literals vars ''MANIFEST_SCRIPT_NAME''),
     test_Description := last_or (test_Description ?c1) (var_literals vars ''MANIFEST_SCRIPT_DESC'')\<rparr>"
    by (rule Cons.IH)
  also have "\<dots> = c\<lparr>test_Id := last_or (test_Id c) (var_literals (x # vars) ''MANIFEST_SCRIPT_ID''),
     test_Name := last_or (test_Name c) (var_literals (x # vars) ''MANIFEST_SCRIPT_NAME''),
     test_Description := last_or (test_Description c) (var_literals (x # vars) ''MANIFEST_SCRIPT_DESC'')\<rparr>"
    by (simp add: x set_manifest_var_eq last_or_def split: option.splits js_init.splits)
  finally show ?case .
qed

text \<open>The declaration loop fills each field with the last string literal assigned to its manifest variable, and leaves it unchanged when there is none\<close>

theorem set_from_decls_last_literal:
  "set_from_decls ds c =
   c\<lparr>test_Id := last_or (test_Id c) (manifest_literals ds ''MANIFEST_SCRIPT_ID''),
     test_Name := last_or (test_Name c) (manifest_literals ds ''MANIFEST_SCRIPT_NAME''),
     test_Description := last_or (test_Description c) (manifest_literals ds ''MANIFEST_SCRIPT_DESC'')\<rparr>"
proof (induction ds c rule: set_from_decls.induct)
  case (1 c)
  then show ?case by (simp add: manifest_literals_def last_or_def)
next
  case (2 vars ds c)
  then show ?case by (simp add: fold_manifest_vars manifest_literals_def last_or_append)
next
  case (3 ds c)
  then show ?case by (simp add: manifest_literals_def)
qed


lemma scan_file_full: "manifestTokenCount (scan_file s) < outstandingTokenCount \<longleftrightarrow> \<not> manifest_seen (scan_lines s)"
  using scan_fold_full [of "scan_lines s"] by (auto simp: scan_file_def outstandingTokenCount_7)

text \<open>C27: a file is accepted as a test exactly when its lines mention all manifest variables and the kept text parses; the test then carries the path and the fields of the declarations\<close>

theorem loadScriptFromFile_accepts:
  "loadScriptFromFile parse p f = (Some t, True) \<longleftrightarrow>
     manifest_seen (scan_lines (case f of Some s \<Rightarrow> s | None \<Rightarrow> [])) \<and>
     (\<exists>ds. parse (fileContents (scan_file (case f of Some s \<Rightarrow> s | None \<Rightarrow> []))) = Some ds \<and>
          t = (set_from_decls ds emptyCasperTest)\<lparr>test_FilePath := p\<rparr>)"
  by (auto simp: loadScriptFromFile_def scan_file_full Let_def split: option.splits)

text \<open>C29: a file that names the manifest variables only in a comment is accepted as a test suite with empty identifier, name and description\<close>

theorem comment_manifest_accepted:
  "loadScriptFromFile (\<lambda>_. Some []) ''login.js'' (Some comment_manifest_script) =
     (Some (emptyCasperTest\<lparr>test_FilePath := ''login.js''\<rparr>), True)"
  by (simp add: loadScriptFromFile_def comment_manifest_script_def scan_file_def scan_line_def
                scan_lines.simps outstandingTokenCount_7 ManifestVariables_def LF_def CR_def dropCR_def)

text \<open>The tests collected from a walk are those of its non-directory \<open>.js\<close> entries that load, in walk order\<close>

theorem traverseFiles_eq:
  "traverseFiles parse fs es =
     concat (map (\<lambda>p. case loadScriptFromFile parse p (fs p) of (Some t, True) \<Rightarrow> [t] | _ \<Rightarrow> [])
                 (walk_candidates es))"
  by (induction parse fs es rule: traverseFiles.induct)
     (auto simp: walk_candidates_def split: prod.splits option.splits bool.splits)


theorem scan_file_keeps_prefix_witness:
  "\<exists>k \<le> length (scan_lines split_decl_script).
     fileContents (scan_file split_decl_script) = concat (map (\<lambda>l. l @ [LF]) (take k (scan_lines split_decl_script))) \<and>
     (k < length (scan_lines split_decl_script) \<longrightarrow> manifest_seen (take k (scan_lines split_decl_script))) \<and>
     (0 < k \<longrightarrow> \<not> manifest_seen (take (k - 1) (scan_lines split_decl_script)))"
  by (rule scan_file_keeps_prefix)

theorem scan_file_whole_lines_witness:
  "\<exists>k \<le> length (scan_lines split_decl_script).
     count_list (fileContents (scan_file split_decl_script)) LF = k \<and>
     (fileContents (scan_file split_decl_script) \<noteq> [] \<longrightarrow> last (fileContents (scan_file split_decl_script)) = LF) \<and>
     fileContents (scan_file split_decl_script) = concat (map (\<lambda>l. l @ [LF]) (take k (scan_lines split_decl_script)))"
  by (rule scan_file_whole_lines)

end
