(* ===== verification/Casper_Run.thy ===== *)
theory Casper_Run
  imports Casper
begin

text \<open>
  Running the loaded tests (src/casper/script.go, \<open>RunViaStandardLib\<close> and
  \<open>RunViaPipe\<close>, and \<open>main\<close> in src/casper/main.go): the child process \<open>casperjs test <path>\<close>,
  the loop that reads its standard output line by line with a
  \<open>bufio.Reader\<close> and prints each line, and the classification of the
  loop's end. The child is an input: whether \<open>StdoutPipe\<close>, \<open>Start\<close> and
  \<open>Wait\<close> succeed, and its output as the sequence of chunks successive reads
  of the pipe return.
\<close>

section \<open>The child's output pipe\<close>

datatype io_error = EOF | ErrClosedPipe | ErrUnexpectedEOF | OtherReadError

text \<open>The chunks a read of the pipe returns in turn (a read asks for at most
  \<open>n\<close> bytes and gets a prefix of the next chunk), and the error every read
  returns once they are exhausted. A read of an OS pipe blocks until some data
  or the end arrives, so the chunks of a real pipe are not empty.\<close>

record pipe =
  pipe_segs :: "bytes list"
  pipe_end :: io_error

definition pipe_read :: "nat \<Rightarrow> pipe \<Rightarrow> bytes \<times> io_error option \<times> pipe" where
  "pipe_read n p =
     (case pipe_segs p of
        [] \<Rightarrow> ([], Some (pipe_end p), p)
      | s # ss \<Rightarrow>
          if n < length s then (take n s, None, p\<lparr>pipe_segs := drop n s # ss\<rparr>)
          else (s, None, p\<lparr>pipe_segs := ss\<rparr>))"

definition pipe_size :: "pipe \<Rightarrow> nat" where
  "pipe_size p = sum_list (map (\<lambda>s. Suc (length s)) (pipe_segs p))"

definition pipe_bytes :: "pipe \<Rightarrow> bytes" where
  "pipe_bytes p = concat (pipe_segs p)"

section \<open>bufio.Reader: ReadSlice and ReadLine on a fresh reader\<close>

definition defaultBufSize :: nat where
  "defaultBufSize = 4096"

datatype slice_error = ReadErr io_error | ErrBufferFull

text \<open>\<open>ReadSlice('\n')\<close> of a reader created just before: \<open>b\<close> is the
  buffered data, \<open>e\<close> the error of the last fill. The loop looks for the
  delimiter, then for a pending error, then for a full buffer, and otherwise
  fills the buffer with one read of the free space. What stays buffered behind
  the delimiter is dropped with the reader.\<close>

function read_slice :: "bytes \<Rightarrow> io_error option \<Rightarrow> pipe \<Rightarrow> (bytes \<times> slice_error option) \<times> pipe" where
  "read_slice b e p =
     (if LF \<in> set b then ((takeWhile (\<lambda>c. c \<noteq> LF) b @ [LF], None), p)
      else case e of
        Some err \<Rightarrow> ((b, Some (ReadErr err)), p)
      | None \<Rightarrow>
          if defaultBufSize \<le> length b then ((b, Some ErrBufferFull), p)
          else (case pipe_read (defaultBufSize - length b) p of
                  (d, e', p') \<Rightarrow> read_slice (b @ d) e' p'))"
  by pat_completeness auto

lemma pipe_read_progress:
  assumes "pipe_read n p = (d, e', p')" and "0 < n"
  shows "(pipe_segs p = [] \<and> d = [] \<and> e' = Some (pipe_end p) \<and> p' = p) \<or>
         (e' = None \<and> pipe_size p' < pipe_size p)"
  using assms by (auto simp: pipe_read_def pipe_size_def split: list.splits if_splits)

termination read_slice
proof (relation "measure (\<lambda>(b, e, p). 2 * pipe_size p + (if e = None then 1 else 0))")
  fix b :: bytes and p d y e' p' and e :: "io_error option"
  assume "\<not> defaultBufSize \<le> length b" and e: "e = None"
    and r: "(d, y) = pipe_read (defaultBufSize - length b) p" and y: "(e', p') = y"
  then have "pipe_read (defaultBufSize - length b) p = (d, e', p')" and "0 < defaultBufSize - length b"
    by simp_all
  from pipe_read_progress [OF this] e
  show "((b @ d, e', p'), b, e, p) \<in> measure (\<lambda>(b, e, p). 2 * pipe_size p + (if e = None then 1 else 0))"
    by auto
qed simp

declare read_slice.simps [simp del]

text \<open>\<open>ReadLine\<close>: \<open>ReadSlice\<close>, then a full buffer is returned as a prefix
  (a final carriage return held back), an empty slice returns the error, and
  otherwise the error is dropped and the line loses its \<open>\n\<close> or \<open>\r\n\<close>.
  The result is the line, \<open>isPrefix\<close> and the error.\<close>

definition ReadLine :: "pipe \<Rightarrow> (bytes \<times> bool \<times> io_error option) \<times> pipe" where
  "ReadLine p =
     (case read_slice [] None p of
        ((line, err), p') \<Rightarrow>
          if err = Some ErrBufferFull then
            ((if line \<noteq> [] \<and> last line = CR then butlast line else line, True, None), p')
          else if line = [] then
            (([], False, case err of Some (ReadErr e) \<Rightarrow> Some e | _ \<Rightarrow> None), p')
          else
            ((if last line = LF
              then (if 1 < length line \<and> line ! (length line - 2) = CR
                    then take (length line - 2) line else butlast line)
              else line, False, None), p'))"

section \<open>The output loop of RunViaStandardLib\<close>

text \<open>\<open>fmt.Printf("CasperJS: %s\n", line)\<close>.\<close>

definition print_line :: "bytes \<Rightarrow> string" where
  "print_line line = ''CasperJS: '' @ line @ [LF]"

lemma pipe_read_bytes:
  assumes "pipe_read n p = (d, e', p')"
  shows "pipe_bytes p = d @ pipe_bytes p' \<and> pipe_size p' + length d \<le> pipe_size p \<and> length d \<le> n"
  using assms by (auto simp: pipe_read_def pipe_size_def pipe_bytes_def split: list.splits if_splits)

lemma split_at_LF:
  assumes "LF \<in> set b"
  shows "b = (takeWhile (\<lambda>c. c \<noteq> LF) b @ [LF]) @ tl (dropWhile (\<lambda>c. c \<noteq> LF) b)"
proof -
  from assms have "dropWhile (\<lambda>c. c \<noteq> LF) b \<noteq> []" by simp
  moreover from assms have "hd (dropWhile (\<lambda>c. c \<noteq> LF) b) = LF"
    using hd_dropWhile [of "\<lambda>c. c \<noteq> LF" b] by simp
  ultimately have "dropWhile (\<lambda>c. c \<noteq> LF) b = LF # tl (dropWhile (\<lambda>c. c \<noteq> LF) b)"
    by (metis list.collapse)
  then show ?thesis by (metis append.assoc append_Cons append_Nil takeWhile_dropWhile_id)
qed

lemma read_slice_lf: "LF \<in> set b \<Longrightarrow> read_slice b e p = ((takeWhile (\<lambda>c. c \<noteq> LF) b @ [LF], None), p)"
  by (simp add: read_slice.simps)

lemma read_slice_err: "LF \<notin> set b \<Longrightarrow> read_slice b (Some x) p = ((b, Some (ReadErr x)), p)"
  by (simp add: read_slice.simps)

lemma read_slice_full:
  "LF \<notin> set b \<Longrightarrow> defaultBufSize \<le> length b \<Longrightarrow> read_slice b None p = ((b, Some ErrBufferFull), p)"
  by (simp add: read_slice.simps)

lemma read_slice_fill:
  "LF \<notin> set b \<Longrightarrow> length b < defaultBufSize \<Longrightarrow> pipe_read (defaultBufSize - length b) p = (d, e', p') \<Longrightarrow>
   read_slice b None p = read_slice (b @ d) e' p'"
  by (simp add: read_slice.simps)

lemma read_slice_consumes:
  assumes "read_slice b e p = ((l, err), p')" and "length b \<le> defaultBufSize"
  shows "(\<exists>junk. b @ pipe_bytes p = l @ junk @ pipe_bytes p') \<and>
         pipe_size p' + length l \<le> pipe_size p + length b \<and> length l \<le> defaultBufSize \<and>
         (err = Some ErrBufferFull \<longrightarrow> defaultBufSize \<le> length l) \<and>
         (err = None \<longrightarrow> (\<exists>x. l = x @ [LF] \<and> LF \<notin> set x)) \<and>
         (err \<noteq> None \<longrightarrow> LF \<notin> set l)"
  using assms
proof (induction b e p arbitrary: l err p' rule: read_slice.induct)
  case (1 b e p)
  show ?case
  proof (cases "LF \<in> set b")
    case True
    let ?x = "takeWhile (\<lambda>c. c \<noteq> LF) b"
    note b = split_at_LF [OF True]
    from "1.prems"(1) have l: "l = ?x @ [LF]" and err: "err = None" and p': "p' = p"
      by (simp_all add: read_slice_lf [OF True])
    have "length l \<le> length b" unfolding l by (subst (2) b) simp
    moreover have "LF \<notin> set ?x" by (auto dest: set_takeWhileD)
    moreover have "b @ pipe_bytes p = l @ tl (dropWhile (\<lambda>c. c \<noteq> LF) b) @ pipe_bytes p'"
      unfolding l p' by (subst b) simp
    ultimately show ?thesis using "1.prems"(2) l err p' by auto
  next
    case nolf: False
    show ?thesis
    proof (cases e)
      case (Some x)
      with nolf "1.prems" show ?thesis by (auto simp: read_slice_err)
    next
      case None
      show ?thesis
      proof (cases "defaultBufSize \<le> length b")
        case True
        with nolf None "1.prems" show ?thesis by (auto simp: read_slice_full)
      next
        case full: False
        obtain d e' p'' where r: "pipe_read (defaultBufSize - length b) p = (d, e', p'')"
          by (cases "pipe_read (defaultBufSize - length b) p") auto
        from pipe_read_bytes [OF r] have pb: "pipe_bytes p = d @ pipe_bytes p''"
          and ps: "pipe_size p'' + length d \<le> pipe_size p" and dl: "length d \<le> defaultBufSize - length b"
          by auto
        from nolf None full r "1.prems"(1) have rs: "read_slice (b @ d) e' p'' = ((l, err), p')"
          using read_slice_fill [of b p d e' p''] by simp
        from dl full have "length (b @ d) \<le> defaultBufSize" by simp
        from "1.IH" [OF nolf None full r [symmetric] refl rs this]
        show ?thesis using pb ps by auto
      qed
    qed
  qed
qed

lemma ReadLine_cases:
  assumes "ReadLine p = ((line, isPrefix, err), p')"
  obtains l e0 r where "read_slice [] None p = ((l, e0), p')" and "l = line @ r"
    and "err = None \<Longrightarrow> l \<noteq> []" and "LF \<notin> set line"
proof -
  obtain l e0 p'' where rs: "read_slice [] None p = ((l, e0), p'')"
    by (metis prod.exhaust)
  from read_slice_consumes [OF rs] have
    full: "e0 = Some ErrBufferFull \<Longrightarrow> defaultBufSize \<le> length l" and
    lf: "e0 = None \<Longrightarrow> \<exists>x. l = x @ [LF] \<and> LF \<notin> set x" and
    nolf: "e0 \<noteq> None \<Longrightarrow> LF \<notin> set l"
    by (auto simp: defaultBufSize_def)
  from assms have p'': "p'' = p'" by (auto simp: ReadLine_def rs split: if_splits)
  show ?thesis
  proof (cases "e0 = Some ErrBufferFull")
    case True
    with full have "l \<noteq> []" by (auto simp: defaultBufSize_def)
    then have bl: "last l = CR \<Longrightarrow> l = butlast l @ [CR]" by (metis append_butlast_last_id)
    from True nolf have "LF \<notin> set l" by simp
    then have "LF \<notin> set (butlast l)" by (auto dest: in_set_butlastD)
    with bl True assms \<open>LF \<notin> set l\<close> \<open>l \<noteq> []\<close> show ?thesis
      by (intro that [of l e0 "if last l = CR then [last l] else []"])
         (auto simp: ReadLine_def rs p'' split: if_split_asm)
  next
    case nf: False
    show ?thesis
    proof (cases "l = []")
      case True
      with lf have "e0 \<noteq> None" by auto
      with nf obtain x where "e0 = Some (ReadErr x)" by (metis option.exhaust slice_error.exhaust)
      with True assms show ?thesis by (intro that [of l e0 "[]"]) (auto simp: ReadLine_def rs p'')
    next
      case ne: False
      show ?thesis
      proof (cases "e0 = None")
        case True
        with lf obtain x where x: "l = x @ [LF]" and xl: "LF \<notin> set x" by blast
        show ?thesis
        proof (cases "1 < length l \<and> l ! (length l - 2) = CR")
          case True
          then have "x \<noteq> []" and "last x = CR" using x by (auto simp: nth_append last_conv_nth)
          then have "x = butlast x @ [CR]" by (metis append_butlast_last_id)
          moreover have "take (length x - Suc 0) x = butlast x" by (simp add: butlast_conv_take)
          moreover have "LF \<notin> set (butlast x)" using xl by (auto dest: in_set_butlastD)
          ultimately show ?thesis using True x nf ne assms
            by (intro that [of l e0 "[CR, LF]"]) (auto simp: ReadLine_def rs p'')
        next
          case False
          with x xl nf ne assms show ?thesis
            by (intro that [of l e0 "[LF]"]) (auto simp: ReadLine_def rs p'')
        qed
      next
        case False
        with nolf have "LF \<notin> set l" by simp
        then have "last l \<noteq> LF" using ne by (metis last_in_set)
        with False nf ne assms \<open>LF \<notin> set l\<close> show ?thesis
          by (intro that [of l e0 "[]"]) (auto simp: ReadLine_def rs p'')
      qed
    qed
  qed
qed

lemma ReadLine_consumes:
  assumes "ReadLine p = ((line, isPrefix, err), p')"
  shows "(\<exists>junk. pipe_bytes p = line @ junk @ pipe_bytes p') \<and> LF \<notin> set line \<and>
         length line \<le> defaultBufSize \<and> pipe_size p' \<le> pipe_size p \<and>
         (err = None \<longrightarrow> pipe_size p' < pipe_size p)"
proof -
  obtain l e0 r where rs: "read_slice [] None p = ((l, e0), p')" and l: "l = line @ r"
    and ne: "err = None \<Longrightarrow> l \<noteq> []" and lf: "LF \<notin> set line"
    using ReadLine_cases [OF assms] by metis
  from read_slice_consumes [OF rs] obtain junk where
    j: "pipe_bytes p = l @ junk @ pipe_bytes p'" and
    s: "pipe_size p' + length l \<le> pipe_size p" and b: "length l \<le> defaultBufSize"
    by auto
  from j l have "pipe_bytes p = line @ (r @ junk) @ pipe_bytes p'" by simp
  moreover have "err = None \<longrightarrow> pipe_size p' < pipe_size p"
  proof
    assume "err = None"
    with ne have "0 < length l" by simp
    with s show "pipe_size p' < pipe_size p" by arith
  qed
  ultimately show ?thesis using lf s b l by auto
qed

text \<open>The loop of \<open>RunViaStandardLib\<close>: each iteration makes a new
  \<open>bufio.Reader\<close> on the pipe, reads one line with \<open>ReadLine\<close> (ignoring
  \<open>isPrefix\<close>) and prints it; the first error ends the loop and is returned
  for the caller to classify.\<close>

function run_output :: "pipe \<Rightarrow> string list \<times> io_error" where
  "run_output p =
     (case ReadLine p of
        ((line, isPrefix, err), p') \<Rightarrow>
          (case err of
             Some e \<Rightarrow> ([], e)
           | None \<Rightarrow> (let (out, e) = run_output p' in (print_line line # out, e))))"
  by pat_completeness auto

termination run_output
proof (relation "measure pipe_size")
  fix p x p' line y isPrefix err
  assume "(x, p') = ReadLine p" and "(line, y) = x" and "(isPrefix, err) = y" and "err = None"
  then have "ReadLine p = ((line, isPrefix, None), p')" by simp
  then show "(p', p) \<in> measure pipe_size" using ReadLine_consumes by auto
qed simp

declare run_output.simps [simp del]

section \<open>RunViaStandardLib and main\<close>

text \<open>What the started child offers: whether \<open>StdoutPipe\<close> and \<open>Start\<close>
  succeed, its output pipe, and whether \<open>Wait\<close> reports success.\<close>

record casper_proc =
  proc_stdoutPipe_ok :: bool
  proc_start_ok :: bool
  proc_stdout :: pipe
  proc_wait_ok :: bool

datatype run_outcome = StdoutPipeError | StartError | ReadError | WaitError | Completed

text \<open>\<open>exec.Command("casperjs", "test", c.FilePath)\<close>.\<close>

definition casper_argv :: "CasperTest \<Rightarrow> string list" where
  "casper_argv c = [''casperjs'', ''test'', test_FilePath c]"

text \<open>The method, given the process the command line starts: the lines it
  prints and how it returns. An end of output (\<open>io.EOF\<close>,
  \<open>io.ErrClosedPipe\<close>, \<open>io.ErrUnexpectedEOF\<close>) breaks the loop and waits for
  the child; any other read error returns at once.\<close>

definition RunViaStandardLib :: "(string list \<Rightarrow> casper_proc) \<Rightarrow> CasperTest \<Rightarrow> string list \<times> run_outcome" where
  "RunViaStandardLib exec c =
     (let casperCmd = exec (casper_argv c)
      in if \<not> proc_stdoutPipe_ok casperCmd then ([], StdoutPipeError)
         else if \<not> proc_start_ok casperCmd then ([], StartError)
         else (case run_output (proc_stdout casperCmd) of
                 (out, err) \<Rightarrow>
                   if err = EOF \<or> err = ErrClosedPipe \<or> err = ErrUnexpectedEOF
                   then (out, if proc_wait_ok casperCmd then Completed else WaitError)
                   else (out, ReadError)))"

definition default_folder :: string where
  "default_folder = ''./samples''"

text \<open>\<open>main\<close>: the \<open>-folder\<close> flag or its default, the walk of that folder,
  and \<open>RunViaStandardLib\<close> on each collected test in turn.\<close>

definition casper_main ::
  "string option \<Rightarrow> (string \<Rightarrow> walk_entry list) \<Rightarrow> js_parser \<Rightarrow> (string \<Rightarrow> bytes option) \<Rightarrow>
   (string list \<Rightarrow> casper_proc) \<Rightarrow> (string list \<times> run_outcome) list" where
  "casper_main folderFlag walk parse fs exec =
     (let scriptFolder = (case folderFlag of Some f \<Rightarrow> f | None \<Rightarrow> default_folder);
          testsToRun = traverseFiles parse fs (walk scriptFolder)
      in map (RunViaStandardLib exec) testsToRun)"

text \<open>\<open>RunViaPipe\<close>: \<open>pipe.Run(pipe.Line(pipe.Exec("casperjs", "test",
  c.FilePath), pipe.Filter(f)))\<close>. The pipe library is not part of the
  repository; its \<open>Filter\<close> is documented to call \<open>f\<close> on each line of its
  input with \<open>\n\<close> and \<open>\r\<close> trimmed, read with one reader over the whole
  stream, which is the line splitting of \<open>scan_lines\<close>. \<open>Run\<close> discards the
  pipe's output and returns the first error: a start failure, a read error, or
  the child's exit status.\<close>

definition filter_lines :: "bytes \<Rightarrow> bytes list" where
  "filter_lines out = scan_lines out"

definition RunViaPipe :: "(string list \<Rightarrow> casper_proc) \<Rightarrow> CasperTest \<Rightarrow> string list \<times> run_outcome" where
  "RunViaPipe exec c =
     (let cmd = exec (casper_argv c)
      in if \<not> proc_start_ok cmd then ([], StartError)
         else (map print_line (filter_lines (pipe_bytes (proc_stdout cmd))),
               if pipe_end (proc_stdout cmd) \<noteq> EOF then ReadError
               else if proc_wait_ok cmd then Completed else WaitError))"

section \<open>Fixtures\<close>

text \<open>A test script declaring its manifest on one line each, the
  declarations the parser finds in it, and a child whose two result lines
  arrive in one read of the pipe, as they do when casperjs writes them
  together.\<close>

definition login_script :: bytes where
  "login_script =
     ''var MANIFEST_SCRIPT_ID = 't1';'' @ [LF] @ ''var MANIFEST_SCRIPT_NAME = 'Login';'' @ [LF] @
     ''var MANIFEST_SCRIPT_DESC = 'Checks the login page';'' @ [LF] @ ''casper.test.begin();'' @ [LF]"

definition login_decls :: "js_decl list" where
  "login_decls =
     [VariableDeclaration [(''MANIFEST_SCRIPT_ID'', Some (StringLiteral ''t1''))],
      VariableDeclaration [(''MANIFEST_SCRIPT_NAME'', Some (StringLiteral ''Login''))],
      VariableDeclaration [(''MANIFEST_SCRIPT_DESC'', Some (StringLiteral ''Checks the login page''))]]"

definition samples_walk :: "string \<Rightarrow> walk_entry list" where
  "samples_walk folder =
     (if folder = default_folder then [WalkEntry ''./samples'' True, WalkEntry ''./samples/login.js'' False]
      else [])"

definition chunked_proc :: casper_proc where
  "chunked_proc =
     \<lparr>proc_stdoutPipe_ok = True, proc_start_ok = True,
      proc_stdout = \<lparr>pipe_segs = [''PASS login'' @ [LF] @ ''PASS logout'' @ [LF]], pipe_end = EOF\<rparr>,
      proc_wait_ok = True\<rparr>"

definition one_line_proc :: casper_proc where
  "one_line_proc =
     \<lparr>proc_stdoutPipe_ok = True, proc_start_ok = True,
      proc_stdout = \<lparr>pipe_segs = map (\<lambda>l. l @ [LF]) [''PASS login'', ''PASS logout''], pipe_end = EOF\<rparr>,
      proc_wait_ok = True\<rparr>"

section \<open>Properties of the output loop\<close>

lemma subseq_step: "subseq xs ys \<Longrightarrow> subseq (l @ xs) (l @ junk @ ys)"
  by (intro list_emb_append_mono list_emb_append2) simp_all

lemma run_output_None:
  "ReadLine p = ((line, isPrefix, None), p') \<Longrightarrow>
   run_output p = (print_line line # fst (run_output p'), snd (run_output p'))"
  by (subst run_output.simps) (simp split: prod.splits)

lemma run_output_Some: "ReadLine p = ((line, isPrefix, Some e), p') \<Longrightarrow> run_output p = ([], e)"
  by (subst run_output.simps) simp

lemma ReadLine_end: "pipe_segs p = [] \<Longrightarrow> ReadLine p = (([], False, Some (pipe_end p)), p)"
proof -
  assume e: "pipe_segs p = []"
  then have pr: "pipe_read (defaultBufSize - length ([] :: bytes)) p = ([], Some (pipe_end p), p)"
    by (simp add: pipe_read_def)
  have "read_slice [] None p = read_slice [] (Some (pipe_end p)) p"
    using read_slice_fill [OF _ _ pr] by (simp add: defaultBufSize_def)
  then have "read_slice [] None p = (([], Some (ReadErr (pipe_end p))), p)"
    by (simp add: read_slice_err)
  then show ?thesis by (simp add: ReadLine_def)
qed

lemma takeWhile_before_LF: "LF \<notin> set l \<Longrightarrow> takeWhile (\<lambda>c. c \<noteq> LF) (l @ [LF]) = l"
  by (induction l) auto

lemma ReadLine_line_chunk:
  assumes "LF \<notin> set l" and "CR \<notin> set l" and "length l < defaultBufSize"
    and "pipe_segs p = (l @ [LF]) # ss"
  shows "ReadLine p = ((l, False, None), p\<lparr>pipe_segs := ss\<rparr>)"
proof -
  from assms have pr: "pipe_read (defaultBufSize - length ([] :: bytes)) p = (l @ [LF], None, p\<lparr>pipe_segs := ss\<rparr>)"
    by (simp add: pipe_read_def)
  have "read_slice [] None p = read_slice (l @ [LF]) None (p\<lparr>pipe_segs := ss\<rparr>)"
    using read_slice_fill [OF _ _ pr] by (simp add: defaultBufSize_def)
  also have "\<dots> = ((l @ [LF], None), p\<lparr>pipe_segs := ss\<rparr>)"
    using assms(1) by (simp add: read_slice_lf takeWhile_before_LF)
  finally have rs: "read_slice [] None p = ((l @ [LF], None), p\<lparr>pipe_segs := ss\<rparr>)" .
  have "\<not> (1 < length (l @ [LF]) \<and> (l @ [LF]) ! (length (l @ [LF]) - 2) = CR)"
  proof
    assume "1 < length (l @ [LF]) \<and> (l @ [LF]) ! (length (l @ [LF]) - 2) = CR"
    then have "l \<noteq> []" and "l ! (length l - 1) = CR" by (auto simp: nth_append)
    then have "CR \<in> set l" by (metis diff_less length_greater_0_conv less_one nth_mem)
    with assms(2) show False ..
  qed
  with rs show ?thesis by (auto simp: ReadLine_def)
qed

text \<open>C26: \<open>RunViaStandardLib\<close> prints nothing the child did not write: the
  lines it prints, read in order, form a subsequence of the child's output, and
  each is at most one buffer (4096 bytes) long and holds no newline.\<close>

theorem run_output_from_stdout:
  "\<exists>lines. fst (run_output p) = map print_line lines \<and> subseq (concat lines) (pipe_bytes p) \<and>
     (\<forall>l\<in>set lines. LF \<notin> set l \<and> length l \<le> defaultBufSize)"
proof (induction p rule: run_output.induct)
  case (1 p)
  obtain line isPrefix err p' where r: "ReadLine p = ((line, isPrefix, err), p')"
    by (metis prod.exhaust)
  show ?case
  proof (cases err)
    case None
    from "1.IH" [OF r [symmetric] refl refl None] obtain lines where
      o: "fst (run_output p') = map print_line lines" and s: "subseq (concat lines) (pipe_bytes p')"
      and b: "\<forall>l\<in>set lines. LF \<notin> set l \<and> length l \<le> defaultBufSize" by blast
    from ReadLine_consumes [OF r] obtain junk where j: "pipe_bytes p = line @ junk @ pipe_bytes p'"
      and lf: "LF \<notin> set line" and lb: "length line \<le> defaultBufSize" by blast
    from r None have "fst (run_output p) = print_line line # fst (run_output p')"
      by (simp add: run_output_None)
    with o s b j lf lb subseq_step [OF s, of line junk] show ?thesis
      by (intro exI [of _ "line # lines"]) simp
  next
    case (Some e)
    with r show ?thesis by (intro exI [of _ "[]"]) (simp add: run_output_Some)
  qed
qed

lemma run_output_line_chunks:
  assumes "\<forall>l\<in>set ls. LF \<notin> set l \<and> CR \<notin> set l \<and> length l < defaultBufSize"
  shows "run_output \<lparr>pipe_segs = map (\<lambda>l. l @ [LF]) ls, pipe_end = e\<rparr> = (map print_line ls, e)"
  using assms
proof (induction ls)
  case Nil
  have "ReadLine \<lparr>pipe_segs = [], pipe_end = e\<rparr> = (([], False, Some e), \<lparr>pipe_segs = [], pipe_end = e\<rparr>)"
    using ReadLine_end [of "\<lparr>pipe_segs = [], pipe_end = e\<rparr>"] by simp
  from run_output_Some [OF this] show ?case by simp
next
  case (Cons l ls)
  let ?p = "\<lparr>pipe_segs = map (\<lambda>l. l @ [LF]) (l # ls), pipe_end = e\<rparr>"
  from Cons.prems have "ReadLine ?p = ((l, False, None), ?p\<lparr>pipe_segs := map (\<lambda>l. l @ [LF]) ls\<rparr>)"
    by (intro ReadLine_line_chunk) auto
  from run_output_None [OF this] Cons show ?case by simp
qed

lemma scan_lines_line_chunks:
  "\<forall>l\<in>set ls. LF \<notin> set l \<and> CR \<notin> set l \<Longrightarrow> scan_lines (concat (map (\<lambda>l. l @ [LF]) ls)) = ls"
proof (induction ls)
  case Nil
  then show ?case by (simp add: scan_lines.simps)
next
  case (Cons l ls)
  then have lf: "LF \<notin> set l" and cr: "CR \<notin> set l" by auto
  have tw: "takeWhile (\<lambda>c. c \<noteq> LF) (l @ LF # r) = l" for r using lf by (induction l) auto
  have dw: "dropWhile (\<lambda>c. c \<noteq> LF) (l @ LF # r) = LF # r" for r using lf by (induction l) auto
  have dc: "dropCR l = l"
    using cr by (auto simp: dropCR_def dest: last_in_set)
  from Cons show ?case
    by (subst scan_lines.simps) (simp add: tw dw dc)
qed

text \<open>C25: when every read of the child's output returns exactly one whole
  line, shorter than the buffer and free of carriage returns, and the output
  ends normally, \<open>RunViaStandardLib\<close> prints the same lines and ends the same
  way as \<open>RunViaPipe\<close>, which reads the whole stream with one reader.\<close>

theorem RunViaStandardLib_eq_RunViaPipe:
  assumes "proc_stdoutPipe_ok (exec (casper_argv c))"
    and "proc_stdout (exec (casper_argv c)) = \<lparr>pipe_segs = map (\<lambda>l. l @ [LF]) ls, pipe_end = EOF\<rparr>"
    and "\<forall>l\<in>set ls. LF \<notin> set l \<and> CR \<notin> set l \<and> length l < defaultBufSize"
  shows "RunViaStandardLib exec c = RunViaPipe exec c"
proof -
  from assms(3) have "run_output (proc_stdout (exec (casper_argv c))) = (map print_line ls, EOF)"
    unfolding assms(2) by (rule run_output_line_chunks)
  moreover from assms(3) have "filter_lines (pipe_bytes (proc_stdout (exec (casper_argv c)))) = ls"
    by (simp add: assms(2) filter_lines_def pipe_bytes_def scan_lines_line_chunks)
  ultimately show ?thesis
    using assms(1,2) by (simp add: RunViaStandardLib_def RunViaPipe_def Let_def)
qed

text \<open>C24: when the child's two result lines arrive in one read, casper
  prints only the first: the line behind it is buffered by the reader that the
  loop drops and replaces on its next iteration.\<close>

theorem casper_main_drops_buffered_line:
  "scan_lines (pipe_bytes (proc_stdout chunked_proc)) = [''PASS login'', ''PASS logout''] \<and>
   casper_main None samples_walk (\<lambda>_. Some login_decls) (\<lambda>_. Some login_script) (\<lambda>_. chunked_proc) =
     [([print_line ''PASS login''], Completed)]"
proof -
  have r1: "ReadLine (proc_stdout chunked_proc) =
            ((''PASS login'', False, None), \<lparr>pipe_segs = [], pipe_end = EOF\<rparr>)"
    by (simp add: chunked_proc_def ReadLine_def read_slice.simps pipe_read_def defaultBufSize_def
                  LF_def CR_def)
  have r2: "ReadLine \<lparr>pipe_segs = [], pipe_end = EOF\<rparr> = (([], False, Some EOF), \<lparr>pipe_segs = [], pipe_end = EOF\<rparr>)"
    using ReadLine_end [of "\<lparr>pipe_segs = [], pipe_end = EOF\<rparr>"] by simp
  have out: "run_output (proc_stdout chunked_proc) = ([print_line ''PASS login''], EOF)"
    using run_output_None [OF r1] run_output_Some [OF r2] by simp
  have load: "traverseFiles (\<lambda>_. Some login_decls) (\<lambda>_. Some login_script) (samples_walk default_folder) =
              [\<lparr>test_Id = ''t1'', test_FilePath = ''./samples/login.js'', test_Name = ''Login'',
                test_Description = ''Checks the login page''\<rparr>]"
    by (simp add: samples_walk_def is_js_path_def suffix_to_prefix ascii_lower_def loadScriptFromFile_def login_script_def
                  scan_file_def scan_line_def scan_lines.simps outstandingTokenCount_7 ManifestVariables_def
                  LF_def CR_def dropCR_def login_decls_def emptyCasperTest_def SetPropertyByIndex_def)
  have lines: "scan_lines (pipe_bytes (proc_stdout chunked_proc)) = [''PASS login'', ''PASS logout'']"
    by (simp add: chunked_proc_def pipe_bytes_def scan_lines.simps LF_def CR_def dropCR_def)
  show ?thesis
    using out load lines
    by (simp add: casper_main_def RunViaStandardLib_def casper_argv_def chunked_proc_def)
qed

theorem run_output_from_stdout_witness:
  "\<exists>lines. fst (run_output (proc_stdout chunked_proc)) = map print_line lines \<and>
     subseq (concat lines) (pipe_bytes (proc_stdout chunked_proc)) \<and>
     list_all (\<lambda>l. LF \<notin> set l \<and> length l \<le> defaultBufSize) lines"
  using run_output_from_stdout [of "proc_stdout chunked_proc"] by (simp add: list_all_iff)

theorem RunViaStandardLib_eq_RunViaPipe_witness:
  "proc_stdoutPipe_ok ((\<lambda>_. one_line_proc) (casper_argv emptyCasperTest)) \<and>
   RunViaStandardLib (\<lambda>_. one_line_proc) emptyCasperTest = RunViaPipe (\<lambda>_. one_line_proc) emptyCasperTest"
proof -
  have o: "proc_stdoutPipe_ok ((\<lambda>_. one_line_proc) (casper_argv emptyCasperTest))"
    and p: "proc_stdout ((\<lambda>_. one_line_proc) (casper_argv emptyCasperTest)) =
            \<lparr>pipe_segs = map (\<lambda>l. l @ [LF]) [''PASS login'', ''PASS logout''], pipe_end = EOF\<rparr>"
    by (simp_all add: one_line_proc_def)
  have h: "\<forall>l\<in>set [''PASS login'', ''PASS logout'']. LF \<notin> set l \<and> CR \<notin> set l \<and> length l < defaultBufSize"
    by (simp add: LF_def CR_def defaultBufSize_def)
  from RunViaStandardLib_eq_RunViaPipe [OF o p h] o show ?thesis by simp
qed

end
