(* ===== verification/Keepalive.thy ===== *)
theory Keepalive
  imports Connection
begin

text \<open>
  The timing of a websocket connection (src/vegetaui/websocket.go): the
  constants of lines 22-29 (the read limit of line 32 is in theory
  \<open>Connection\<close>), \<open>ReadPump\<close>'s read limit, read deadline and pong
  handler, and the ping ticker of \<open>WritePump\<close>. Times are nanoseconds, as Go's
  \<open>time.Duration\<close>. What the client sends is a list of frames stamped with
  their arrival time, in order; the read pump is run over it.
\<close>

section \<open>Constants\<close>

definition second :: nat where
  "second = 1000000000"

definition writeWait :: nat where
  "writeWait = 10 * second"

definition pongWait :: nat where
  "pongWait = 60 * second"

definition pingPeriod :: nat where
  "pingPeriod = (pongWait * 9) div 10"

section \<open>The read pump over time\<close>

datatype frame =
    TextFrame nat bytes   \<comment> \<open>a data message arriving at the given time\<close>
  | PongFrame nat         \<comment> \<open>a pong arriving at the given time\<close>
  | CloseFrame nat        \<comment> \<open>the client closes the connection\<close>

datatype read_exit = DeadlineExceeded nat | ReadLimitExceeded | ClientClosed

fun frame_time :: "frame \<Rightarrow> nat" where
  "frame_time (TextFrame t m) = t"
| "frame_time (PongFrame t) = t"
| "frame_time (CloseFrame t) = t"

text \<open>The loop of \<open>ReadPump\<close> from a read deadline: a frame that arrives
  after the deadline is never read, the read fails when the deadline passes
  (\<open>SetReadDeadline\<close>); a data message longer than \<open>maxMessageSize\<close> fails
  the read (\<open>SetReadLimit\<close>); a pong runs the pong handler, which moves the
  deadline to \<open>pongWait\<close> after its arrival, and the read goes on; a data
  message passes the filter of \<open>ReadPump\<close> and, if accepted, is forwarded to
  \<open>instance.Incoming\<close>. When the client sends nothing more, the read fails at
  the deadline. The result is the forwarded messages and why the loop ended;
  the deferred unregistration and close follow in every case.\<close>

fun readPump_run :: "vegetaAttack \<Rightarrow> nat \<Rightarrow> frame list \<Rightarrow> bytes list \<times> read_exit" where
  "readPump_run v deadline [] = ([], DeadlineExceeded deadline)"
| "readPump_run v deadline (f # fs) =
     (if deadline < frame_time f then ([], DeadlineExceeded deadline)
      else case f of
        TextFrame t message \<Rightarrow>
          if maxMessageSize < length message then ([], ReadLimitExceeded)
          else (let (out, e) = readPump_run v deadline fs
                in (if readPump_okToSend v message then message # out else out, e))
      | PongFrame t \<Rightarrow> readPump_run v (t + pongWait) fs
      | CloseFrame t \<Rightarrow> ([], ClientClosed))"

text \<open>\<open>ReadPump\<close> started at time \<open>start\<close>: \<open>SetReadDeadline(time.Now().Add(pongWait))\<close>.\<close>

definition ReadPump_from :: "vegetaAttack \<Rightarrow> nat \<Rightarrow> frame list \<Rightarrow> bytes list \<times> read_exit" where
  "ReadPump_from v start fs = readPump_run v (start + pongWait) fs"

text \<open>The \<open>k\<close>-th tick of \<open>time.NewTicker(pingPeriod)\<close> in \<open>WritePump\<close>,
  counted from 1: the time of the \<open>k\<close>-th ping.\<close>

definition ping_time :: "nat \<Rightarrow> nat \<Rightarrow> nat" where
  "ping_time start k = start + k * pingPeriod"

text \<open>A client that answers the \<open>k\<close>-th ping with a pong arriving within
  \<open>slack\<close> of it, for \<open>k = 1 .. n\<close>.\<close>

definition pong_schedule :: "nat \<Rightarrow> nat \<Rightarrow> nat list \<Rightarrow> bool" where
  "pong_schedule start slack qs \<longleftrightarrow>
     (\<forall>k < length qs. ping_time start (Suc k) \<le> qs ! k \<and> qs ! k \<le> ping_time start (Suc k) + slack)"

section \<open>The write pump over time\<close>

text \<open>What \<open>WritePump\<close>'s \<open>select\<close> receives in turn: a message from the
  mailbox, the mailbox closed, or a tick of the ping ticker; each paired with
  the time the peer takes to accept the write that follows. The frames the
  pump writes are its output.\<close>

datatype wp_event = Mailbox bytes | MailboxClosed | Tick

datatype ws_out = TextOut bytes | PingOut | CloseOut

datatype wp_exit = WPClosed | WPWriteFailed | WPRunning

text \<open>\<open>write\<close>: \<open>SetWriteDeadline(time.Now().Add(writeWait))\<close>, then
  \<open>WriteMessage\<close>, which fails when the peer does not take the frame before
  the deadline.\<close>

definition write_ok :: "nat \<Rightarrow> bool" where
  "write_ok latency \<longleftrightarrow> latency \<le> writeWait"

text \<open>The loop of \<open>WritePump\<close>: a mailbox message is written as a text
  frame, and a failed write ends the pump; a closed mailbox gets a close frame
  (its error ignored) and ends the pump; a tick is written as a ping, and a
  failed ping ends the pump. The deferred \<open>ticker.Stop()\<close> and
  \<open>c.WS.Close()\<close> follow every exit. \<open>WPRunning\<close>: the pump is still
  waiting when the events run out.\<close>

fun writePump_run :: "(wp_event \<times> nat) list \<Rightarrow> ws_out list \<times> wp_exit" where
  "writePump_run [] = ([], WPRunning)"
| "writePump_run ((Mailbox message, lat) # es) =
     (if write_ok lat then (let (out, ex) = writePump_run es in (TextOut message # out, ex))
      else ([], WPWriteFailed))"
| "writePump_run ((MailboxClosed, lat) # es) = (if write_ok lat then [CloseOut] else [], WPClosed)"
| "writePump_run ((Tick, lat) # es) =
     (if write_ok lat then (let (out, ex) = writePump_run es in (PingOut # out, ex))
      else ([], WPWriteFailed))"

text \<open>The text frames among the frames written, and the messages among the
  mailbox events.\<close>

fun text_frames :: "ws_out list \<Rightarrow> bytes list" where
  "text_frames [] = []"
| "text_frames (TextOut m # fs) = m # text_frames fs"
| "text_frames (_ # fs) = text_frames fs"

fun mailbox_msgs :: "(wp_event \<times> nat) list \<Rightarrow> bytes list" where
  "mailbox_msgs [] = []"
| "mailbox_msgs ((Mailbox m, _) # es) = m # mailbox_msgs es"
| "mailbox_msgs (_ # es) = mailbox_msgs es"

text \<open>Pongs each of which arrives before the deadline the previous one set.\<close>

fun pong_chain :: "nat \<Rightarrow> nat list \<Rightarrow> bool" where
  "pong_chain d [] = True"
| "pong_chain d (q # qs) = (q \<le> d \<and> pong_chain (q + pongWait) qs)"

section \<open>Properties\<close>

lemma pingPeriod_le_pongWait: "pingPeriod \<le> pongWait"
  by (simp add: pingPeriod_def pongWait_def second_def)

lemma readPump_pongs:
  "pong_chain d qs \<Longrightarrow> qs \<noteq> [] \<Longrightarrow>
   readPump_run v d (map PongFrame qs) = ([], DeadlineExceeded (last qs + pongWait))"
proof (induction qs arbitrary: d)
  case Nil
  then show ?case by simp
next
  case (Cons q qs)
  show ?case
  proof (cases qs)
    case Nil
    with Cons.prems show ?thesis by simp
  next
    case (Cons q' qs')
    with Cons.IH [of "q + pongWait"] Cons.prems show ?thesis by simp
  qed
qed

lemma pong_schedule_chain:
  assumes "\<forall>k < length qs. ping_time start (Suc (j + k)) \<le> qs ! k \<and>
                            qs ! k \<le> ping_time start (Suc (j + k)) + (pongWait - pingPeriod)"
    and "ping_time start (Suc j) + (pongWait - pingPeriod) \<le> d"
  shows "pong_chain d qs"
  using assms
proof (induction qs arbitrary: j d)
  case Nil
  then show ?case by simp
next
  case (Cons q qs)
  from Cons.prems(1) have lo: "ping_time start (Suc j) \<le> q"
    and hi: "q \<le> ping_time start (Suc j) + (pongWait - pingPeriod)" by auto
  from Cons.prems(1) have rest: "\<forall>k < length qs. ping_time start (Suc (Suc j + k)) \<le> qs ! k \<and>
                            qs ! k \<le> ping_time start (Suc (Suc j + k)) + (pongWait - pingPeriod)"
    by (auto dest: spec [of _ "Suc _"])
  have "ping_time start (Suc (Suc j)) + (pongWait - pingPeriod) = ping_time start (Suc j) + pongWait"
    using pingPeriod_le_pongWait by (simp add: ping_time_def)
  with lo have "ping_time start (Suc (Suc j)) + (pongWait - pingPeriod) \<le> q + pongWait" by simp
  from Cons.IH [OF rest this] hi Cons.prems(2) show ?case by simp
qed

text \<open>C15: a client that answers every ping within \<open>pongWait - pingPeriod\<close> (six
  seconds) of it is never dropped for silence: the read pump runs through all
  its pongs and its deadline only expires \<open>pongWait\<close> after the last one. This
  is what the comment "Must be less than pongWait" on \<open>pingPeriod\<close> asks
  for.\<close>

theorem responsive_client_kept:
  assumes "pong_schedule start (pongWait - pingPeriod) qs" and "qs \<noteq> []"
  shows "ReadPump_from v start (map PongFrame qs) = ([], DeadlineExceeded (last qs + pongWait))"
proof -
  have "ping_time start (Suc 0) + (pongWait - pingPeriod) \<le> start + pongWait"
    using pingPeriod_le_pongWait by (simp add: ping_time_def)
  with assms(1) have "pong_chain (start + pongWait) qs"
    by (intro pong_schedule_chain [of qs start 0]) (simp_all add: pong_schedule_def)
  from readPump_pongs [OF this assms(2)] show ?thesis by (simp add: ReadPump_from_def)
qed

lemma readPump_read_limit:
  "t \<le> d \<Longrightarrow> maxMessageSize < length m \<Longrightarrow> readPump_run v d (TextFrame t m # fs) = ([], ReadLimitExceeded)"
  by simp

theorem responsive_client_kept_witness:
  "pong_schedule 0 (pongWait - pingPeriod) [pingPeriod + second, 2 * pingPeriod + 5 * second] \<and>
   [pingPeriod + second, 2 * pingPeriod + 5 * second] \<noteq> [] \<and>
   ReadPump_from instance0 0 (map PongFrame [pingPeriod + second, 2 * pingPeriod + 5 * second]) =
     ([], DeadlineExceeded (2 * pingPeriod + 5 * second + pongWait))"
proof -
  let ?qs = "[pingPeriod + second, 2 * pingPeriod + 5 * second]"
  have "\<forall>k < length ?qs. ping_time 0 (Suc k) \<le> ?qs ! k \<and> ?qs ! k \<le> ping_time 0 (Suc k) + (pongWait - pingPeriod)"
  proof (intro allI impI)
    fix k assume "k < length ?qs"
    then consider "k = 0" | "k = 1" by fastforce
    then show "ping_time 0 (Suc k) \<le> ?qs ! k \<and> ?qs ! k \<le> ping_time 0 (Suc k) + (pongWait - pingPeriod)"
      by cases (simp_all add: ping_time_def pingPeriod_def pongWait_def second_def)
  qed
  then have h: "pong_schedule 0 (pongWait - pingPeriod) ?qs" by (simp only: pong_schedule_def)
  from responsive_client_kept [OF h, of instance0] h show ?thesis by simp
qed

text \<open>C16: the write pump writes the mailbox's messages in mailbox order: the
  text frames it has written are always a prefix of the messages it was given,
  whatever ticks come between them; and a close frame, once written, is its
  last frame and the pump has ended because the mailbox was closed.\<close>

theorem writePump_run_order:
  "prefix (text_frames (fst (writePump_run es))) (mailbox_msgs es) \<and>
   (CloseOut \<in> set (fst (writePump_run es)) \<longrightarrow>
      (\<exists>fs. fst (writePump_run es) = fs @ [CloseOut] \<and> CloseOut \<notin> set fs) \<and>
      snd (writePump_run es) = WPClosed)"
proof (induction es rule: writePump_run.induct)
  case 1 then show ?case by simp
next
  case (2 message lat es)
  then show ?case by (auto simp: split_beta)
next
  case (3 lat es) then show ?case by simp
next
  case (4 lat es)
  then show ?case by (auto simp: split_beta)
qed

theorem writePump_run_order_witness:
  "text_frames (fst (writePump_run [(Mailbox ''a'', second), (Tick, second), (MailboxClosed, second)])) = [''a''] \<and>
   CloseOut \<in> set (fst (writePump_run [(Mailbox ''a'', second), (Tick, second), (MailboxClosed, second)])) \<and>
   snd (writePump_run [(Mailbox ''a'', second), (Tick, second), (MailboxClosed, second)]) = WPClosed"
proof -
  have r: "writePump_run [(Mailbox ''a'', second), (Tick, second), (MailboxClosed, second)] =
           ([TextOut ''a'', PingOut, CloseOut], WPClosed)"
    by (simp add: write_ok_def writeWait_def)
  from writePump_run_order [of "[(Mailbox ''a'', second), (Tick, second), (MailboxClosed, second)]"] r
  show ?thesis by simp
qed

end
